theory Spec2Isabelle
  imports Main "HOL-Library.Sublist"
begin

section \<open>Strings and character classes\<close>

text \<open>
  A JavaScript string is modelled as a \<^typ>\<open>string\<close>: every character is one code
  unit below 256. The character classes are those of the regular expressions of the
  source, restricted to that range.
\<close>

definition isDigit :: "char \<Rightarrow> bool" where
  \<comment> \<open>\<open>\d\<close>\<close>
  "isDigit c = (c \<in> set ''0123456789'')"

definition isUpper :: "char \<Rightarrow> bool" where
  \<comment> \<open>\<open>[A-Z]\<close>\<close>
  "isUpper c = (c \<in> set ''ABCDEFGHIJKLMNOPQRSTUVWXYZ'')"

definition isLower :: "char \<Rightarrow> bool" where
  \<comment> \<open>\<open>[a-z]\<close>\<close>
  "isLower c = (c \<in> set ''abcdefghijklmnopqrstuvwxyz'')"

definition isWord :: "char \<Rightarrow> bool" where
  \<comment> \<open>\<open>\w\<close>\<close>
  "isWord c = (isUpper c \<or> isLower c \<or> isDigit c \<or> c = CHR ''_'')"

definition isSpace :: "char \<Rightarrow> bool" where
  \<comment> \<open>\<open>\s\<close>: tab, line feed, vertical tab, form feed, carriage return, space, no-break space\<close>
  "isSpace c = (c \<in> {CHR 0x09, CHR 0x0A, CHR 0x0B, CHR 0x0C, CHR 0x0D, CHR 0x20, CHR 0xA0})"

fun startsWith :: "string \<Rightarrow> string \<Rightarrow> bool" where
  "startsWith [] s = True"
| "startsWith (p # ps) [] = False"
| "startsWith (p # ps) (c # cs) = (p = c \<and> startsWith ps cs)"

fun contains :: "string \<Rightarrow> string \<Rightarrow> bool" where
  \<comment> \<open>\<open>contains p s\<close>: \<open>p\<close> occurs in \<open>s\<close> as a contiguous substring\<close>
  "contains p [] = (p = [])"
| "contains p (c # cs) = (startsWith p (c # cs) \<or> contains p cs)"

section \<open>Tokenizer\<close>

text \<open>
  \<open>rx.tokens\<close> is one alternation; \<open>matchToken s\<close> is the length of the match the
  regular expression finds at the start of \<open>s\<close>, trying the alternatives in the order
  of the source. The last alternative is the run of miscellaneous characters.
\<close>

definition lit :: "string \<Rightarrow> string \<Rightarrow> nat option" where
  "lit p s = (if startsWith p s then Some (length p) else None)"

definition startsWord :: "string \<Rightarrow> bool" where
  "startsWord s = (case s of [] \<Rightarrow> False | c # _ \<Rightarrow> isWord c)"

definition tagOpen :: "string \<Rightarrow> nat option" where
  \<comment> \<open>\<open><\/?(?=\w)\<close>\<close>
  "tagOpen s =
     (case s of
        [] \<Rightarrow> None
      | c # r \<Rightarrow>
          if c \<noteq> CHR ''<'' then None
          else if startsWith ''/'' r \<and> startsWord (tl r) then Some 2
          else if startsWord r then Some 1
          else None)"

definition miscStep :: "string \<Rightarrow> nat" where
  \<comment> \<open>one round of the last alternative: the number of characters it takes, 0 when it fails\<close>
  "miscStep s =
     (case s of
        [] \<Rightarrow> 0
      | c # r \<Rightarrow>
          if c \<notin> set ''<>@=/()[]{}\"'' \<and> c \<noteq> CHR 0x27 \<and> c \<noteq> CHR 0x0A
             \<and> c \<noteq> CHR ''*'' \<and> c \<noteq> CHR ''-'' then 1
          else if c = CHR ''-'' then (if startsWith ''-->'' s then 0 else 1)
          else if c = CHR ''/'' then
            (if startsWith ''>'' r \<or> startsWith ''/'' r \<or> startsWith ''*'' r then 0 else 1)
          else if c = CHR ''*'' then (if startsWith ''/'' r then 0 else 1)
          else if c = CHR ''<'' then
            (if tagOpen s \<noteq> None \<or> startsWith ''<!--'' s then 0
             else if startsWith ''/'' r then 2 else 1)
          else 0)"

fun miscRun :: "nat \<Rightarrow> string \<Rightarrow> nat" where
  \<comment> \<open>the greedy \<open>+\<close>; the first argument bounds the rounds, \<open>length s\<close> is enough\<close>
  "miscRun 0 s = 0"
| "miscRun (Suc n) s =
     (let k = miscStep s in if k = 0 then 0 else k + miscRun n (drop k s))"

definition firstSome :: "nat option list \<Rightarrow> nat option" where
  "firstSome xs = (case filter (\<lambda>x. x \<noteq> None) xs of [] \<Rightarrow> None | x # _ \<Rightarrow> x)"

definition matchToken :: "string \<Rightarrow> nat option" where
  "matchToken s =
     firstSome
       [tagOpen s, lit ''/>'' s, lit ''>'' s, lit ''<!--'' s, lit ''-->'' s, lit ''@'' s,
        lit ''='' s, lit ''{...'' s, lit '')'' s, lit ''('' s, lit ''['' s, lit '']'' s,
        lit ''{'' s, lit ''}'' s, lit ''\"'' s, lit [CHR 0x27] s, lit ''//'' s,
        lit [CHR 0x0A] s, lit ''/*'' s, lit ''*/'' s,
        (let k = miscRun (length s) s in if k = 0 then None else Some k)]"

fun tokenizeFrom :: "nat \<Rightarrow> string \<Rightarrow> string list" where
  \<comment> \<open>\<open>str.match(rx.tokens)\<close>: the successive matches; a position with no match is
      skipped. The first argument bounds the steps, \<open>length s\<close> is enough.\<close>
  "tokenizeFrom 0 s = []"
| "tokenizeFrom (Suc n) s =
     (if s = [] then []
      else case matchToken s of
             None \<Rightarrow> tokenizeFrom n (tl s)
           | Some k \<Rightarrow> take k s # tokenizeFrom n (drop k s))"

definition tokenize :: "string \<Rightarrow> string list" where
  "tokenize str = tokenizeFrom (length str) str"

section \<open>AST\<close>

record loc =
  line :: nat
  col :: nat
  pos :: nat

text \<open>
  \<open>CodeTopLevel\<close> and \<open>EmbeddedCode\<close> each hold one field, the list of segments,
  and are modelled as that list. A segment is a \<open>CodeText\<close> or an \<open>HtmlElement\<close>.
\<close>

datatype segment = CodeText string loc | SegElement element
  and element = HtmlElement string "property list" "child list" loc
  and property =
      StaticProperty string string
    | DynamicProperty string "segment list" loc
    | Mixin "segment list" loc
  and child =
      ChildElement element
    | HtmlText string
    | HtmlComment string
    | HtmlInsert "segment list" loc

type_synonym embeddedCode = "segment list"
type_synonym codeTopLevel = "segment list"

section \<open>Parameters\<close>

text \<open>
  \<open>params\<close> is the object \<open>preprocess\<close> builds from its options; \<open>sourcemap\<close> is
  \<open>None\<close> for \<open>null\<close>.
\<close>

record params =
  sourcemap :: "string option"
  sourcefile :: string
  targetfile :: string
  jsx :: bool

section \<open>Parser\<close>

text \<open>
  The parser's variables: \<open>toks\<close> holds the tokens from the cursor on, its head being
  the current token \<open>TOK\<close> (which \<open>SPLIT\<close> shortens in place); \<open>EOF\<close> is the list
  being empty. An \<open>ERR\<close> call is the value \<open>Fail msg loc\<close> (the source appends an
  excerpt of the input at \<open>loc\<close> to the message). The recursive productions carry a
  bound on their call depth; \<open>Stuck\<close> is the value of a run that exceeds it.
\<close>

record pstate =
  toks :: "string list"
  LINE :: nat
  COL :: nat
  POS :: nat

datatype 'a outcome = Done 'a pstate | Fail string loc | Stuck

definition andThen :: "'a outcome \<Rightarrow> ('a \<Rightarrow> pstate \<Rightarrow> 'b outcome) \<Rightarrow> 'b outcome" where
  "andThen r f = (case r of Done x s \<Rightarrow> f x s | Fail m l \<Rightarrow> Fail m l | Stuck \<Rightarrow> Stuck)"

definition TOK :: "pstate \<Rightarrow> string" where
  "TOK s = (case toks s of [] \<Rightarrow> [] | t # _ \<Rightarrow> t)"

definition EOF :: "pstate \<Rightarrow> bool" where
  "EOF s = (toks s = [])"

definition LOC :: "pstate \<Rightarrow> loc" where
  "LOC s = \<lparr>line = LINE s, col = COL s, pos = POS s\<rparr>"

definition ERR :: "string \<Rightarrow> loc \<Rightarrow> 'a outcome" where
  "ERR msg l = Fail msg l"

definition IS :: "string \<Rightarrow> pstate \<Rightarrow> bool" where
  "IS t s = (TOK s = t)"

definition NOT :: "string \<Rightarrow> pstate \<Rightarrow> bool" where
  "NOT t s = (TOK s \<noteq> t)"

definition NEXT :: "pstate \<Rightarrow> pstate" where
  "NEXT s =
     (let s1 = (if TOK s = [CHR 0x0A] then s\<lparr>LINE := LINE s + 1, COL := 0, POS := POS s + 1\<rparr>
                else if TOK s \<noteq> [] then
                  s\<lparr>COL := COL s + length (TOK s), POS := POS s + length (TOK s)\<rparr>
                else s)
      in s1\<lparr>toks := tl (toks s1)\<rparr>)"

text \<open>The regular expressions of \<open>rx$1\<close>, each as the length of its match at the start.\<close>

definition rxIdentifier :: "string \<Rightarrow> nat" where
  \<comment> \<open>\<open>/^[a-zA-Z]\w*/\<close>\<close>
  "rxIdentifier t =
     (case t of
        [] \<Rightarrow> 0
      | c # r \<Rightarrow> if isUpper c \<or> isLower c then Suc (length (takeWhile isWord r)) else 0)"

definition rxLeadingWs :: "string \<Rightarrow> nat" where
  \<comment> \<open>\<open>/^\s+/\<close>\<close>
  "rxLeadingWs t = length (takeWhile isSpace t)"

definition isTerminator :: "char \<Rightarrow> bool" where
  \<comment> \<open>\<open>[\s<>/,;)\]}]\<close>\<close>
  "isTerminator c = (isSpace c \<or> c \<in> set ''<>/,;)]}'')"

definition rxCodeTerminator :: "string \<Rightarrow> bool" where
  \<comment> \<open>\<open>/^[\s<>/,;)\]}]/\<close>\<close>
  "rxCodeTerminator t = (case t of [] \<Rightarrow> False | c # _ \<Rightarrow> isTerminator c)"

definition rxCodeContinuation :: "string \<Rightarrow> nat" where
  \<comment> \<open>\<open>/^[^\s<>/,;)\]}]+/\<close>\<close>
  "rxCodeContinuation t = length (takeWhile (\<lambda>c. \<not> isTerminator c) t)"

definition rxStringEscapedEnd :: "string \<Rightarrow> bool" where
  \<comment> \<open>\<open>/[^\\](\\\\)*\\$/\<close>: the text ends with an odd number of backslashes that follow
      some other character\<close>
  "rxStringEscapedEnd text =
     (let k = length (takeWhile (\<lambda>c. c = CHR 0x5C) (rev text))
      in odd k \<and> k < length text)"

datatype paren = Closing string | Inherited

definition PARENS :: "pstate \<Rightarrow> paren option" where
  \<comment> \<open>\<open>parens[TOK]\<close>: the lookup also finds the members that the object literal inherits
      from \<open>Object.prototype\<close>, whose values are no strings\<close>
  "PARENS s =
     (let t = TOK s in
      if t = ''('' then Some (Closing '')'')
      else if t = ''['' then Some (Closing '']'')
      else if t = ''{'' then Some (Closing ''}'')
      else if t = ''{...'' then Some (Closing ''}'')
      else if t \<in> set [''constructor'', ''toString'', ''toLocaleString'', ''valueOf'',
                        ''hasOwnProperty'', ''isPrototypeOf'', ''propertyIsEnumerable'',
                        ''__proto__'', ''__defineGetter__'', ''__defineSetter__'',
                        ''__lookupGetter__'', ''__lookupSetter__'']
      then Some Inherited
      else None)"

definition SPLIT :: "(string \<Rightarrow> nat) \<Rightarrow> pstate \<Rightarrow> string \<times> pstate" where
  "SPLIT rx s =
     (let k = rx (TOK s) in
      if 0 < k then
        (let s1 = s\<lparr>COL := COL s + k, POS := POS s + k, toks := drop k (TOK s) # tl (toks s)\<rparr>
         in (take k (TOK s), if drop k (TOK s) = [] then NEXT s1 else s1))
      else ([], s))"

definition weight :: "pstate \<Rightarrow> nat" where
  \<comment> \<open>what is left of the input: its characters and its tokens\<close>
  "weight s = length (concat (toks s)) + length (toks s)"

function SKIPWS :: "pstate \<Rightarrow> pstate" where
  "SKIPWS s =
     (if IS [CHR 0x0A] s then SKIPWS (NEXT s)
      else if 0 < rxLeadingWs (TOK s) then SKIPWS (snd (SPLIT rxLeadingWs s))
      else s)"
  by pat_completeness auto
termination
proof (relation "measure weight")
  show "wf (measure weight)" by simp
next
  fix s assume "IS [CHR 0x0A] s"
  then show "(NEXT s, s) \<in> measure weight"
    by (cases "toks s") (auto simp: IS_def TOK_def NEXT_def weight_def)
next
  fix s assume a: "\<not> IS [CHR 0x0A] s" "0 < rxLeadingWs (TOK s)"
  then obtain t r where tr: "toks s = t # r"
    by (cases "toks s") (auto simp: TOK_def rxLeadingWs_def)
  with a have "t \<noteq> []" by (auto simp: TOK_def rxLeadingWs_def)
  have "rxLeadingWs t \<le> length t" by (simp add: rxLeadingWs_def length_takeWhile_le)
  with a tr \<open>t \<noteq> []\<close> show "(snd (SPLIT rxLeadingWs s), s) \<in> measure weight"
    by (auto simp: SPLIT_def TOK_def NEXT_def weight_def Let_def)
qed

declare SKIPWS.simps [simp del]

subsection \<open>Productions that only advance over tokens\<close>

function htmlTextLoop :: "params \<Rightarrow> string \<Rightarrow> pstate \<Rightarrow> string \<times> pstate" where
  "htmlTextLoop opts text s =
     (if \<not> EOF s \<and> NOT ''<'' s \<and> NOT ''<!--'' s
         \<and> (if jsx opts then NOT ''{'' s else NOT ''@'' s) \<and> NOT ''</'' s
      then htmlTextLoop opts (text @ TOK s) (NEXT s)
      else (text, s))"
  by pat_completeness auto
termination
  by (relation "measure (\<lambda>(opts, text, s). length (toks s))") (auto simp: EOF_def NEXT_def)

declare htmlTextLoop.simps [simp del]

definition htmlText :: "params \<Rightarrow> pstate \<Rightarrow> child outcome" where
  "htmlText opts s = (case htmlTextLoop opts [] s of (text, s1) \<Rightarrow> Done (HtmlText text) s1)"

function htmlCommentLoop :: "string \<Rightarrow> pstate \<Rightarrow> string \<times> pstate" where
  "htmlCommentLoop text s =
     (if \<not> EOF s \<and> NOT ''-->'' s then htmlCommentLoop (text @ TOK s) (NEXT s) else (text, s))"
  by pat_completeness auto
termination
  by (relation "measure (\<lambda>(text, s). length (toks s))") (auto simp: EOF_def NEXT_def)

declare htmlCommentLoop.simps [simp del]

definition htmlComment :: "pstate \<Rightarrow> child outcome" where
  "htmlComment s =
     (if NOT ''<!--'' s then ERR ''not in HTML comment'' (LOC s)
      else
        let start = LOC s in
        case htmlCommentLoop [] (NEXT s) of (text, s1) \<Rightarrow>
          if EOF s1 then ERR ''unterminated html comment'' start
          else Done (HtmlComment text) (NEXT s1))"

function quotedStringLoop :: "string \<Rightarrow> string \<Rightarrow> pstate \<Rightarrow> string \<times> pstate" where
  "quotedStringLoop quote text s =
     (if \<not> EOF s \<and> (NOT quote s \<or> rxStringEscapedEnd text)
      then quotedStringLoop quote (text @ TOK s) (NEXT s)
      else (text, s))"
  by pat_completeness auto
termination
  by (relation "measure (\<lambda>(quote, text, s). length (toks s))") (auto simp: EOF_def NEXT_def)

declare quotedStringLoop.simps [simp del]

definition quotedString :: "pstate \<Rightarrow> string outcome" where
  "quotedString s =
     (if NOT [CHR 0x27] s \<and> NOT [CHR 0x22] s then ERR ''not in quoted string'' (LOC s)
      else
        let start = LOC s; quote = TOK s in
        case quotedStringLoop quote quote (NEXT s) of (text, s1) \<Rightarrow>
          if EOF s1 then ERR ''unterminated string'' start
          else Done (text @ TOK s1) (NEXT s1))"

function codeSingleLineCommentLoop :: "string \<Rightarrow> pstate \<Rightarrow> string \<times> pstate" where
  "codeSingleLineCommentLoop text s =
     (if \<not> EOF s \<and> NOT [CHR 0x0A] s
      then codeSingleLineCommentLoop (text @ TOK s) (NEXT s)
      else (text, s))"
  by pat_completeness auto
termination
  by (relation "measure (\<lambda>(text, s). length (toks s))") (auto simp: EOF_def NEXT_def)

declare codeSingleLineCommentLoop.simps [simp del]

definition codeSingleLineComment :: "pstate \<Rightarrow> string outcome" where
  "codeSingleLineComment s =
     (if NOT ''//'' s then ERR ''not in code comment'' (LOC s)
      else
        case codeSingleLineCommentLoop [] s of (text, s1) \<Rightarrow>
          \<comment> \<open>the end of the input within a code comment is accepted\<close>
          if \<not> EOF s1 then Done (text @ TOK s1) (NEXT s1) else Done text s1)"

function codeMultiLineCommentLoop :: "string \<Rightarrow> pstate \<Rightarrow> string \<times> pstate" where
  "codeMultiLineCommentLoop text s =
     (if \<not> EOF s \<and> NOT ''*/'' s
      then codeMultiLineCommentLoop (text @ TOK s) (NEXT s)
      else (text, s))"
  by pat_completeness auto
termination
  by (relation "measure (\<lambda>(text, s). length (toks s))") (auto simp: EOF_def NEXT_def)

declare codeMultiLineCommentLoop.simps [simp del]

definition codeMultiLineComment :: "pstate \<Rightarrow> string outcome" where
  "codeMultiLineComment s =
     (if NOT ''/*'' s then ERR ''not in code comment'' (LOC s)
      else
        let start = LOC s in
        case codeMultiLineCommentLoop [] s of (text, s1) \<Rightarrow>
          if EOF s1 then ERR ''unterminated multi-line comment'' start
          else Done (text @ TOK s1) (NEXT s1))"

subsection \<open>The recursive productions\<close>

text \<open>
  The productions call each other. Each is written here over a record \<open>r\<close> holding the
  productions it may call; \<open>parserAt opts n\<close> ties them together, \<open>n\<close> bounding the depth
  of the calls, with \<open>Stuck\<close> at depth 0.

  \<open>balancedParens\<close> receives the array \<open>segments\<close> and the object \<open>loc\<close> by reference
  and updates both; the model returns them with the text. The \<open>while\<close> loops of
  \<open>htmlElement\<close>, \<open>embeddedCode\<close>, \<open>balancedParens\<close> and \<open>codeTopLevel\<close> are the
  productions named \<open>...Loop\<close>.
\<close>

type_synonym codeAcc = "segment list \<times> string \<times> loc"

record productions =
  htmlElement :: "pstate \<Rightarrow> element outcome"
  propertiesLoop :: "property list \<Rightarrow> pstate \<Rightarrow> property list outcome"
  contentLoop :: "child list \<Rightarrow> pstate \<Rightarrow> child list outcome"
  htmlInsert :: "pstate \<Rightarrow> child outcome"
  jsxHtmlInsert :: "pstate \<Rightarrow> child outcome"
  property :: "pstate \<Rightarrow> property outcome"
  mixin :: "pstate \<Rightarrow> property outcome"
  jsxMixin :: "pstate \<Rightarrow> property outcome"
  embeddedCode :: "pstate \<Rightarrow> embeddedCode outcome"
  embeddedCodeLoop :: "segment list \<Rightarrow> string \<Rightarrow> loc \<Rightarrow> pstate \<Rightarrow> codeAcc outcome"
  jsxEmbeddedCode :: "pstate \<Rightarrow> embeddedCode outcome"
  balancedParens :: "segment list \<Rightarrow> string \<Rightarrow> loc \<Rightarrow> pstate \<Rightarrow> codeAcc outcome"
  balancedParensLoop :: "paren \<Rightarrow> segment list \<Rightarrow> string \<Rightarrow> loc \<Rightarrow> pstate \<Rightarrow> codeAcc outcome"

definition htmlElementBody :: "productions \<Rightarrow> pstate \<Rightarrow> element outcome" where
  "htmlElementBody r s =
     (if NOT ''<'' s then ERR ''not at start of html element'' (LOC s)
      else
        let start = LOC s in
        case SPLIT rxIdentifier (NEXT s) of (tag, s2) \<Rightarrow>
          if tag = [] then ERR ''bad element name'' start
          else
            andThen (propertiesLoop r [] (SKIPWS s2)) (\<lambda>properties s3.
              if EOF s3 then ERR ''unterminated start node'' start
              else
                let hasContent = IS ''>'' s3; s4 = NEXT s3 in
                if hasContent then
                  andThen (contentLoop r [] s4) (\<lambda>content s5.
                    if EOF s5 then ERR ''element missing close tag'' start
                    else
                      case SPLIT rxIdentifier (NEXT s5) of (ctag, s6) \<Rightarrow>
                        if tag \<noteq> ctag then ERR ''mismatched open and close tags'' start
                        else if NOT ''>'' s6 then ERR ''malformed close tag'' (LOC s6)
                        else Done (HtmlElement tag properties content start) (NEXT s6))
                else Done (HtmlElement tag properties [] start) s4))"

definition propertiesLoopBody ::
  "params \<Rightarrow> productions \<Rightarrow> property list \<Rightarrow> pstate \<Rightarrow> property list outcome" where
  "propertiesLoopBody opts r properties s =
     (if \<not> EOF s \<and> NOT ''>'' s \<and> NOT ''/>'' s then
        andThen
          (if 0 < rxIdentifier (TOK s) then property r s
           else if \<not> jsx opts \<and> IS ''@'' s then mixin r s
           else if jsx opts \<and> IS ''{...'' s then jsxMixin r s
           else ERR ''unrecognized content in begin tag'' (LOC s))
          (\<lambda>p s1. propertiesLoop r (properties @ [p]) (SKIPWS s1))
      else Done properties s)"

definition contentLoopBody ::
  "params \<Rightarrow> productions \<Rightarrow> child list \<Rightarrow> pstate \<Rightarrow> child list outcome" where
  "contentLoopBody opts r content s =
     (if \<not> EOF s \<and> NOT ''</'' s then
        andThen
          (if IS ''<'' s then andThen (htmlElement r s) (\<lambda>e s1. Done (ChildElement e) s1)
           else if \<not> jsx opts \<and> IS ''@'' s then htmlInsert r s
           else if jsx opts \<and> IS ''{'' s then jsxHtmlInsert r s
           else if IS ''<!--'' s then htmlComment s
           else htmlText opts s)
          (\<lambda>c s1. contentLoop r (content @ [c]) s1)
      else Done content s)"

definition htmlInsertBody :: "productions \<Rightarrow> pstate \<Rightarrow> child outcome" where
  "htmlInsertBody r s =
     (if NOT ''@'' s then ERR ''not at start of code insert'' (LOC s)
      else
        let l = LOC s in
        andThen (embeddedCode r (NEXT s)) (\<lambda>code s1. Done (HtmlInsert code l) s1))"

definition jsxHtmlInsertBody :: "productions \<Rightarrow> pstate \<Rightarrow> child outcome" where
  "jsxHtmlInsertBody r s =
     (let l = LOC s in
      andThen (jsxEmbeddedCode r s) (\<lambda>code s1. Done (HtmlInsert code l) s1))"

definition propertyBody :: "params \<Rightarrow> productions \<Rightarrow> pstate \<Rightarrow> property outcome" where
  "propertyBody opts r s =
     (if rxIdentifier (TOK s) = 0 then ERR ''not at start of property declaration'' (LOC s)
      else
        let l = LOC s in
        case SPLIT rxIdentifier s of (name, s1) \<Rightarrow>
          let s2 = SKIPWS s1 in
          if NOT ''='' s2 then ERR ''expected equals sign after property name'' (LOC s2)
          else
            let s3 = SKIPWS (NEXT s2) in
            if IS [CHR 0x22] s3 \<or> IS [CHR 0x27] s3 then
              andThen (quotedString s3) (\<lambda>v s4. Done (StaticProperty name v) s4)
            else if jsx opts \<and> IS ''{'' s3 then
              andThen (jsxEmbeddedCode r s3) (\<lambda>code s4. Done (DynamicProperty name code l) s4)
            else if \<not> jsx opts then
              andThen (embeddedCode r s3) (\<lambda>code s4. Done (DynamicProperty name code l) s4)
            else ERR ''unexepected value for JSX property'' (LOC s3))"

definition mixinBody :: "productions \<Rightarrow> pstate \<Rightarrow> property outcome" where
  "mixinBody r s =
     (if NOT ''@'' s then ERR ''not at start of mixin'' (LOC s)
      else
        let l = LOC s in
        andThen (embeddedCode r (NEXT s)) (\<lambda>code s1. Done (Mixin code l) s1))"

definition jsxMixinBody :: "productions \<Rightarrow> pstate \<Rightarrow> property outcome" where
  "jsxMixinBody r s =
     (if NOT ''{...'' s then ERR ''not at start of JSX mixin'' (LOC s)
      else
        let l = LOC s in
        andThen (jsxEmbeddedCode r s) (\<lambda>code s1. Done (Mixin code l) s1))"

definition embeddedCodeBody :: "productions \<Rightarrow> pstate \<Rightarrow> embeddedCode outcome" where
  "embeddedCodeBody r s =
     (let start = LOC s in
      andThen (embeddedCodeLoop r [] [] (LOC s) s) (\<lambda>(segments, text, l) s1.
        let segments1 = (if text \<noteq> [] then segments @ [CodeText text l] else segments) in
        if segments1 = [] then ERR ''not in embedded code'' start
        else Done segments1 s1))"

definition embeddedCodeLoopBody ::
  "productions \<Rightarrow> segment list \<Rightarrow> string \<Rightarrow> loc \<Rightarrow> pstate \<Rightarrow> codeAcc outcome" where
  "embeddedCodeLoopBody r segments text l s =
     (if \<not> EOF s \<and> \<not> rxCodeTerminator (TOK s) then
        if PARENS s \<noteq> None then
          andThen (balancedParens r segments text l s) (\<lambda>(segments1, text1, l1) s1.
            embeddedCodeLoop r segments1 text1 l1 s1)
        else if IS [CHR 0x27] s \<or> IS [CHR 0x22] s then
          andThen (quotedString s) (\<lambda>q s1. embeddedCodeLoop r segments (text @ q) l s1)
        else
          case SPLIT rxCodeContinuation s of (t, s1) \<Rightarrow>
            embeddedCodeLoop r segments (text @ t) l s1
      else Done (segments, text, l) s)"

definition jsxEmbeddedCodeBody :: "productions \<Rightarrow> pstate \<Rightarrow> embeddedCode outcome" where
  "jsxEmbeddedCodeBody r s =
     (if NOT ''{'' s \<and> NOT ''{...'' s then ERR ''not at start of JSX embedded code'' (LOC s)
      else
        let prefixLength = length (TOK s) in
        andThen (balancedParens r [] [] (LOC s) s) (\<lambda>(segments, last, l) s1.
          \<comment> \<open>remove the closing brace, then the opening one from the first segment\<close>
          case segments @ [CodeText (butlast last) l] of
            CodeText t fl # rest \<Rightarrow>
              Done (CodeText (drop prefixLength t) (fl\<lparr>col := col fl + prefixLength\<rparr>) # rest) s1
          | _ \<Rightarrow> Fail ''TypeError: first.text is undefined'' (LOC s1)))"

definition balancedParensBody ::
  "productions \<Rightarrow> segment list \<Rightarrow> string \<Rightarrow> loc \<Rightarrow> pstate \<Rightarrow> codeAcc outcome" where
  "balancedParensBody r segments text l s =
     (let start = LOC s in
      case PARENS s of
        None \<Rightarrow> ERR ''not in parentheses'' (LOC s)
      | Some end \<Rightarrow>
          andThen (balancedParensLoop r end segments (text @ TOK s) l (NEXT s))
            (\<lambda>(segments1, text1, l1) s1.
              if EOF s1 then ERR ''unterminated parentheses'' start
              else Done (segments1, text1 @ TOK s1, l1) (NEXT s1)))"

definition balancedParensLoopBody ::
  "productions \<Rightarrow> paren \<Rightarrow> segment list \<Rightarrow> string \<Rightarrow> loc \<Rightarrow> pstate \<Rightarrow> codeAcc outcome" where
  "balancedParensLoopBody r end segments text l s =
     (if \<not> EOF s \<and> Closing (TOK s) \<noteq> end then
        if IS [CHR 0x27] s \<or> IS [CHR 0x22] s then
          andThen (quotedString s) (\<lambda>q s1. balancedParensLoop r end segments (text @ q) l s1)
        else if IS ''//'' s then
          andThen (codeSingleLineComment s) (\<lambda>q s1.
            balancedParensLoop r end segments (text @ q) l s1)
        else if IS ''/*'' s then
          andThen (codeMultiLineComment s) (\<lambda>q s1.
            balancedParensLoop r end segments (text @ q) l s1)
        else if IS ''<'' s then
          (let segments1 = (if text \<noteq> [] then segments @ [CodeText text l] else segments) in
           andThen (htmlElement r s) (\<lambda>e s1.
             balancedParensLoop r end (segments1 @ [SegElement e]) [] (LOC s1) s1))
        else if PARENS s \<noteq> None then
          andThen (balancedParens r segments text l s) (\<lambda>(segments1, text1, l1) s1.
            balancedParensLoop r end segments1 text1 l1 s1)
        else balancedParensLoop r end segments (text @ TOK s) l (NEXT s)
      else Done (segments, text, l) s)"

primrec parserAt :: "params \<Rightarrow> nat \<Rightarrow> productions" where
  "parserAt opts 0 =
     \<lparr>htmlElement = (\<lambda>s. Stuck), propertiesLoop = (\<lambda>ps s. Stuck),
      contentLoop = (\<lambda>cs s. Stuck), htmlInsert = (\<lambda>s. Stuck), jsxHtmlInsert = (\<lambda>s. Stuck),
      property = (\<lambda>s. Stuck), mixin = (\<lambda>s. Stuck), jsxMixin = (\<lambda>s. Stuck),
      embeddedCode = (\<lambda>s. Stuck), embeddedCodeLoop = (\<lambda>sg t l s. Stuck),
      jsxEmbeddedCode = (\<lambda>s. Stuck), balancedParens = (\<lambda>sg t l s. Stuck),
      balancedParensLoop = (\<lambda>e sg t l s. Stuck)\<rparr>"
| "parserAt opts (Suc n) =
     (let r = parserAt opts n in
      \<lparr>htmlElement = htmlElementBody r,
       propertiesLoop = propertiesLoopBody opts r,
       contentLoop = contentLoopBody opts r,
       htmlInsert = htmlInsertBody r,
       jsxHtmlInsert = jsxHtmlInsertBody r,
       property = propertyBody opts r,
       mixin = mixinBody r,
       jsxMixin = jsxMixinBody r,
       embeddedCode = embeddedCodeBody r,
       embeddedCodeLoop = embeddedCodeLoopBody r,
       jsxEmbeddedCode = jsxEmbeddedCodeBody r,
       balancedParens = balancedParensBody r,
       balancedParensLoop = balancedParensLoopBody r\<rparr>)"

fun codeTopLevelLoop ::
  "params \<Rightarrow> nat \<Rightarrow> segment list \<Rightarrow> string \<Rightarrow> loc \<Rightarrow> pstate \<Rightarrow> codeTopLevel outcome" where
  "codeTopLevelLoop opts 0 segments text l s = Stuck"
| "codeTopLevelLoop opts (Suc n) segments text l s =
     (if \<not> EOF s then
        if IS ''<'' s then
          (let segments1 = (if text \<noteq> [] then segments @ [CodeText text l] else segments) in
           andThen (htmlElement (parserAt opts n) s) (\<lambda>e s1.
             codeTopLevelLoop opts n (segments1 @ [SegElement e]) [] (LOC s1) s1))
        else if IS [CHR 0x22] s \<or> IS [CHR 0x27] s then
          andThen (quotedString s) (\<lambda>q s1. codeTopLevelLoop opts n segments (text @ q) l s1)
        else if IS ''//'' s then
          andThen (codeSingleLineComment s) (\<lambda>q s1.
            codeTopLevelLoop opts n segments (text @ q) l s1)
        else if IS ''/*'' s then
          andThen (codeMultiLineComment s) (\<lambda>q s1.
            codeTopLevelLoop opts n segments (text @ q) l s1)
        else codeTopLevelLoop opts n segments (text @ TOK s) l (NEXT s)
      else Done (if text \<noteq> [] then segments @ [CodeText text l] else segments) s)"

definition parseFuel :: "string list \<Rightarrow> nat" where
  \<comment> \<open>a depth that no run of the parser over these tokens reaches\<close>
  "parseFuel TOKS = 4 * (length (concat TOKS) + length TOKS) + 4"

definition parse :: "string list \<Rightarrow> params \<Rightarrow> codeTopLevel outcome" where
  "parse TOKS opts =
     (let s = \<lparr>toks = TOKS, LINE = 0, COL = 0, POS = 0\<rparr>
      in codeTopLevelLoop opts (parseFuel TOKS) [] [] (LOC s) s)"

section \<open>Code strings\<close>

definition replaceBackslashes :: "string \<Rightarrow> string" where
  \<comment> \<open>\<open>.replace(/\\/g, "\\\\")\<close>\<close>
  "replaceBackslashes str = concat (map (\<lambda>c. if c = CHR 0x5C then [CHR 0x5C, CHR 0x5C] else [c]) str)"

definition replaceSingleQuotes :: "string \<Rightarrow> string" where
  \<comment> \<open>\<open>.replace(/'/g, "\\'")\<close>\<close>
  "replaceSingleQuotes str = concat (map (\<lambda>c. if c = CHR 0x27 then [CHR 0x5C, CHR 0x27] else [c]) str)"

fun replaceNewlines :: "string \<Rightarrow> string" where
  \<comment> \<open>\<open>.replace(/\r?\n/g, "\\\n")\<close>\<close>
  "replaceNewlines [] = []"
| "replaceNewlines [c] = (if c = CHR 0x0A then [CHR 0x5C, CHR 0x0A] else [c])"
| "replaceNewlines (c # d # r) =
     (if c = CHR 0x0A then CHR 0x5C # CHR 0x0A # replaceNewlines (d # r)
      else if c = CHR 0x0D \<and> d = CHR 0x0A then CHR 0x5C # CHR 0x0A # replaceNewlines r
      else c # replaceNewlines (d # r))"

definition codeStr :: "string \<Rightarrow> string" where
  "codeStr str =
     [CHR 0x27] @ replaceNewlines (replaceSingleQuotes (replaceBackslashes str)) @ [CHR 0x27]"

section \<open>Transforms\<close>

text \<open>
  Each transform overlays \<open>HtmlElement\<close> of the transform \<open>tx\<close> it is given: it rewrites
  the node and hands the result to \<open>tx.HtmlElement\<close>, with \<open>this\<close> still the composed
  transform. The rewriting of each overlay is a function on elements here; \<open>tfHtmlElement\<close>
  is \<open>tf.HtmlElement\<close>, the four rewritings in the order of the list followed by
  \<open>Copy.HtmlElement\<close>, whose recursive calls go through \<open>tf\<close> again.
\<close>

definition rxWs :: "string \<Rightarrow> bool" where
  \<comment> \<open>\<open>/^\s*$/\<close>\<close>
  "rxWs text = list_all isSpace text"

definition rxLowerStart :: "string \<Rightarrow> bool" where
  \<comment> \<open>\<open>/^[a-z]/\<close>\<close>
  "rxLowerStart tag = (case tag of [] \<Rightarrow> False | c # _ \<Rightarrow> isLower c)"

definition rxJsxEventProperty :: "string \<Rightarrow> bool" where
  \<comment> \<open>\<open>/^on[A-Z]/\<close>\<close>
  "rxJsxEventProperty name =
     (case name of a # b # c # _ \<Rightarrow> a = CHR ''o'' \<and> b = CHR ''n'' \<and> isUpper c | _ \<Rightarrow> False)"

definition toLowerChar :: "char \<Rightarrow> char" where
  \<comment> \<open>the letters A to Z, and the capital letters of the range 0xC0 to 0xDE (0xD7 is the
      multiplication sign), lie 32 below their small letters\<close>
  "toLowerChar c =
     (let n = (of_char c :: nat) in
      if isUpper c \<or> (0xC0 \<le> n \<and> n \<le> 0xDE \<and> n \<noteq> 0xD7) then char_of (n + 32) else c)"

definition toLowerCase :: "string \<Rightarrow> string" where
  "toLowerCase str = map toLowerChar str"

definition isMixin :: "property \<Rightarrow> bool" where
  "isMixin p = (case p of Mixin code l \<Rightarrow> True | _ \<Rightarrow> False)"

definition isHtmlText :: "child \<Rightarrow> bool" where
  "isHtmlText c = (case c of HtmlText t \<Rightarrow> True | _ \<Rightarrow> False)"

fun propertyName :: "property \<Rightarrow> string" where
  \<comment> \<open>\<open>p.name\<close>; a \<open>Mixin\<close> has none, and the source never reads it\<close>
  "propertyName (StaticProperty name v) = name"
| "propertyName (DynamicProperty name code l) = name"
| "propertyName (Mixin code l) = []"

definition removeWhitespaceTextNodes :: "element \<Rightarrow> element" where
  "removeWhitespaceTextNodes node =
     (case node of HtmlElement tag properties content l \<Rightarrow>
        let nonWhitespaceContent =
              filter (\<lambda>c. \<not> (case c of HtmlText t \<Rightarrow> rxWs t | _ \<Rightarrow> False)) content
        in if length nonWhitespaceContent \<noteq> length content
           then HtmlElement tag properties nonWhitespaceContent l
           else node)"

definition translateJSXPropertyName :: "string \<Rightarrow> string" where
  "translateJSXPropertyName name =
     (if rxJsxEventProperty name
      then (if name = ''onDoubleClick'' then ''ondblclick'' else toLowerCase name)
      else name)"

definition translateJSXPropertyNames :: "element \<Rightarrow> element" where
  "translateJSXPropertyNames node =
     (case node of HtmlElement tag properties content l \<Rightarrow>
        if rxLowerStart tag then
          let nonJSXProperties =
                map (\<lambda>p. case p of
                            DynamicProperty name code pl \<Rightarrow>
                              DynamicProperty (translateJSXPropertyName name) code pl
                          | _ \<Rightarrow> p) properties
          in HtmlElement tag nonJSXProperties content l
        else node)"

definition promoteInitialTextNodesToTextContentProperties :: "element \<Rightarrow> element" where
  "promoteInitialTextNodesToTextContentProperties node =
     (case node of HtmlElement tag properties content l \<Rightarrow>
        (case content of
           HtmlText t # rest \<Rightarrow>
             if rxLowerStart tag then
               let textContent = StaticProperty ''textContent'' (codeStr t)
               in HtmlElement tag (properties @ [textContent]) rest l
             else node
         | _ \<Rightarrow> node))"

text \<open>
  \<open>lastid\<close> is an object used as a dictionary from property names to indices. Property
  names are identifiers (or \<open>textContent\<close>), for which such an object is a map.
\<close>

definition lastidOf :: "property list \<Rightarrow> (string \<rightharpoonup> nat)" where
  \<comment> \<open>\<open>properties.forEach((p, i) => p instanceof Mixin || (lastid[p.name] = i))\<close>\<close>
  "lastidOf properties =
     fold (\<lambda>(i, p) lastid. if isMixin p then lastid else lastid(propertyName p \<mapsto> i))
          (enumerate 0 properties) Map.empty"

definition removeDuplicateProperties :: "element \<Rightarrow> element" where
  "removeDuplicateProperties node =
     (case node of HtmlElement tag properties content l \<Rightarrow>
        let lastid = lastidOf properties;
            uniqueProperties =
              map snd (filter (\<lambda>(i, p). isMixin p \<or> lastid (propertyName p) = Some i)
                              (enumerate 0 properties))
        in if length properties \<noteq> length uniqueProperties
           then HtmlElement tag uniqueProperties content l
           else node)"

definition rewriteHtmlElement :: "element \<Rightarrow> element" where
  \<comment> \<open>the overlays, from the first of the list (the outermost) to the last\<close>
  "rewriteHtmlElement node =
     removeDuplicateProperties
       (promoteInitialTextNodesToTextContentProperties
          (translateJSXPropertyNames (removeWhitespaceTextNodes node)))"

primrec nodesSegment :: "segment \<Rightarrow> nat"
  and nodesElement :: "element \<Rightarrow> nat"
  and nodesProperty :: "property \<Rightarrow> nat"
  and nodesChild :: "child \<Rightarrow> nat"
where
  "nodesSegment (CodeText t l) = 1"
| "nodesSegment (SegElement e) = Suc (nodesElement e)"
| "nodesElement (HtmlElement tag properties content l) =
     Suc (sum_list (map nodesProperty properties) + sum_list (map nodesChild content))"
| "nodesProperty (StaticProperty name v) = 1"
| "nodesProperty (DynamicProperty name code l) = Suc (sum_list (map nodesSegment code))"
| "nodesProperty (Mixin code l) = Suc (sum_list (map nodesSegment code))"
| "nodesChild (ChildElement e) = Suc (nodesElement e)"
| "nodesChild (HtmlText t) = 1"
| "nodesChild (HtmlComment t) = 1"
| "nodesChild (HtmlInsert code l) = Suc (sum_list (map nodesSegment code))"

text \<open>
  The recursion of \<open>tf\<close> ends because the rewriting of a node neither adds an element
  nor lets a property or a child grow: \<open>boundedBy N node\<close> bounds their sizes.
\<close>

definition boundedBy :: "nat \<Rightarrow> element \<Rightarrow> bool" where
  "boundedBy N node =
     (case node of HtmlElement tag ps cs l \<Rightarrow>
        (\<forall>p\<in>set ps. nodesProperty p < N) \<and> (\<forall>c\<in>set cs. nodesChild c < N)
        \<and> (cs \<noteq> [] \<longrightarrow> 1 < N))"

lemma nodesChild_pos: "0 < nodesChild c"
  by (cases c) simp_all

lemma boundedBy_self: "boundedBy (nodesElement node) node"
proof (cases node)
  case (HtmlElement tag ps cs l)
  have a: "nodesProperty p < nodesElement node" if "p \<in> set ps" for p
    using that HtmlElement member_le_sum_list [of "nodesProperty p" "map nodesProperty ps"]
    by auto
  have b: "nodesChild c < nodesElement node" if "c \<in> set cs" for c
    using that HtmlElement member_le_sum_list [of "nodesChild c" "map nodesChild cs"]
    by auto
  have c: "1 < nodesElement node" if "cs \<noteq> []"
  proof -
    from that obtain c where "c \<in> set cs" by (cases cs) auto
    with b [of c] nodesChild_pos [of c] show ?thesis by simp
  qed
  from a b c HtmlElement show ?thesis by (simp add: boundedBy_def)
qed

lemma boundedBy_removeWhitespaceTextNodes:
  "boundedBy N node \<Longrightarrow> boundedBy N (removeWhitespaceTextNodes node)"
  by (cases node) (auto simp: boundedBy_def removeWhitespaceTextNodes_def Let_def)

lemma boundedBy_translateJSXPropertyNames:
  "boundedBy N node \<Longrightarrow> boundedBy N (translateJSXPropertyNames node)"
  by (cases node) (auto simp: boundedBy_def translateJSXPropertyNames_def Let_def split: property.splits)

lemma boundedBy_promote:
  "boundedBy N node \<Longrightarrow> boundedBy N (promoteInitialTextNodesToTextContentProperties node)"
  by (cases node)
     (auto simp: boundedBy_def promoteInitialTextNodesToTextContentProperties_def Let_def
           split: list.splits child.splits)

lemma in_set_enumerate_snd: "(i, p) \<in> set (enumerate n xs) \<Longrightarrow> p \<in> set xs"
  by (auto simp: in_set_enumerate_eq)

lemma boundedBy_removeDuplicateProperties:
  "boundedBy N node \<Longrightarrow> boundedBy N (removeDuplicateProperties node)"
  by (cases node)
     (auto simp: boundedBy_def removeDuplicateProperties_def Let_def dest: in_set_enumerate_snd)

lemma boundedBy_rewriteHtmlElement: "boundedBy (nodesElement node) (rewriteHtmlElement node)"
  unfolding rewriteHtmlElement_def
  by (intro boundedBy_removeDuplicateProperties boundedBy_promote
        boundedBy_translateJSXPropertyNames boundedBy_removeWhitespaceTextNodes boundedBy_self)

function tfHtmlElement :: "element \<Rightarrow> element"
  and tfProperty :: "property \<Rightarrow> property"
  and tfChild :: "child \<Rightarrow> child"
  and tfSegment :: "segment \<Rightarrow> segment"
where
  "tfHtmlElement node =
     (case rewriteHtmlElement node of HtmlElement tag properties content l \<Rightarrow>
        HtmlElement tag (map tfProperty properties) (map tfChild content) l)"
| "tfProperty (StaticProperty name v) = StaticProperty name v"
| "tfProperty (DynamicProperty name code l) = DynamicProperty name (map tfSegment code) l"
| "tfProperty (Mixin code l) = Mixin (map tfSegment code) l"
| "tfChild (ChildElement e) = ChildElement (tfHtmlElement e)"
| "tfChild (HtmlText t) = HtmlText t"
| "tfChild (HtmlComment t) = HtmlComment t"
| "tfChild (HtmlInsert code l) = HtmlInsert (map tfSegment code) l"
| "tfSegment (CodeText t l) = CodeText t l"
| "tfSegment (SegElement e) = SegElement (tfHtmlElement e)"
  by pat_completeness auto
termination
proof (relation "measure (\<lambda>x. case x of Inl (Inl e) \<Rightarrow> nodesElement e | Inl (Inr p) \<Rightarrow> nodesProperty p
                                 | Inr (Inl c) \<Rightarrow> nodesChild c | Inr (Inr s) \<Rightarrow> nodesSegment s)",
       goal_cases)
  case 1
  show ?case by simp
next
  case (2 node tag ps cs l p)
  with boundedBy_rewriteHtmlElement [of node] show ?case by (simp add: boundedBy_def)
next
  case (3 node tag ps cs l c)
  with boundedBy_rewriteHtmlElement [of node] show ?case by (simp add: boundedBy_def)
next
  case (4 name code l x)
  with member_le_sum_list [of "nodesSegment x" "map nodesSegment code"] show ?case by auto
next
  case (5 code l x)
  with member_le_sum_list [of "nodesSegment x" "map nodesSegment code"] show ?case by auto
next
  case (6 e)
  show ?case by simp
next
  case (7 code l x)
  with member_le_sum_list [of "nodesSegment x" "map nodesSegment code"] show ?case by auto
next
  case (8 e)
  show ?case by simp
qed

definition transform :: "codeTopLevel \<Rightarrow> codeTopLevel" where
  "transform node = map tfSegment node"


section \<open>Code generator\<close>

datatype error = ParseError string loc | TypeError string

definition orThrow :: "error + 'a \<Rightarrow> ('a \<Rightarrow> error + 'b) \<Rightarrow> error + 'b" where
  \<comment> \<open>sequencing of two computations, the first of which may throw\<close>
  "orThrow r f = (case r of Inl e \<Rightarrow> Inl e | Inr x \<Rightarrow> f x)"

datatype computation = Computation "string list" loc "string option" "string option"
  \<comment> \<open>statements, loc, stateVar, seed\<close>

datatype domExpression = DOMExpression "string list" "string list" "computation list"
  \<comment> \<open>ids, statements, computations\<close>

datatype propertyGroup = MixinGroup string | ObjectGroup "(string \<times> string) list"
  \<comment> \<open>an entry of \<open>SubComponent.properties\<close>: a string, or an object from property names
      to values (its keys in the order of their first assignment)\<close>

datatype subComponent = SubComponent string "propertyGroup list" "string list"
  \<comment> \<open>name, properties, children\<close>

definition digitChar :: "nat \<Rightarrow> char" where
  "digitChar d = char_of (48 + d)"

fun showNat :: "nat \<Rightarrow> string" where
  \<comment> \<open>the decimal numeral of a number, as string concatenation writes it\<close>
  "showNat n = (if n < 10 then [digitChar n] else showNat (n div 10) @ [digitChar (n mod 10)])"

declare showNat.simps [simp del]

definition locationMark :: "loc \<Rightarrow> string" where
  "locationMark l = [CHR 0x00] @ showNat (line l) @ '','' @ showNat (col l) @ [CHR 0x00]"

definition markLoc :: "string \<Rightarrow> loc \<Rightarrow> params \<Rightarrow> string" where
  "markLoc str l opts = (if sourcemap opts \<noteq> None then locationMark l @ str else str)"

fun splitOn :: "char \<Rightarrow> string \<Rightarrow> string list" where
  \<comment> \<open>\<open>str.split(c)\<close>\<close>
  "splitOn c [] = [[]]"
| "splitOn c (x # xs) =
     (if x = c then [] # splitOn c xs
      else case splitOn c xs of l # ls \<Rightarrow> (x # l) # ls | [] \<Rightarrow> [[x]])"

fun join :: "string \<Rightarrow> string list \<Rightarrow> string" where
  \<comment> \<open>\<open>xs.join(sep)\<close>\<close>
  "join sep [] = []"
| "join sep [x] = x"
| "join sep (x # y # ys) = x @ sep @ join sep (y # ys)"

fun markLines :: "loc \<Rightarrow> nat \<Rightarrow> nat \<Rightarrow> string list \<Rightarrow> string list" where
  \<comment> \<open>the \<open>for\<close> loop of \<open>markBlockLocs\<close> from index \<open>i\<close> on, \<open>offset\<close> as it stands
      before the step\<close>
  "markLines l i offset [] = []"
| "markLines l i offset (ln # lns) =
     (let offset1 = offset + length ln;
          lineloc = \<lparr>line = line l + i, col = 0, pos = pos l + offset1 + i\<rparr>
      in (locationMark lineloc @ ln) # markLines l (Suc i) offset1 lns)"

definition markBlockLocs :: "string \<Rightarrow> loc \<Rightarrow> params \<Rightarrow> string" where
  "markBlockLocs str l opts =
     (if sourcemap opts = None then str
      else case splitOn (CHR 0x0A) str of
             [] \<Rightarrow> locationMark l
           | first # others \<Rightarrow>
               locationMark l @ join [CHR 0x0A] (first # markLines l 1 0 others))"

definition rxHasParen :: "string \<Rightarrow> bool" where
  \<comment> \<open>\<open>/\(/\<close>\<close>
  "rxHasParen code = (CHR ''('' \<in> set code)"

definition rxLoneFunction :: "string \<Rightarrow> bool" where
  \<comment> \<open>\<open>/^function |^\(\w*\) =>|^\w+ =>/\<close>\<close>
  "rxLoneFunction code =
     (startsWith ''function '' code
      \<or> (case code of
            c # r \<Rightarrow> c = CHR ''('' \<and> startsWith '') =>'' (dropWhile isWord r)
          | [] \<Rightarrow> False)
      \<or> (takeWhile isWord code \<noteq> [] \<and> startsWith '' =>'' (dropWhile isWord code)))"

definition noApparentSignals :: "string \<Rightarrow> bool" where
  "noApparentSignals code = (\<not> rxHasParen code \<or> rxLoneFunction code)"

definition rxUpperStart :: "string \<Rightarrow> bool" where
  \<comment> \<open>\<open>/^[A-Z]/\<close>\<close>
  "rxUpperStart tag = (case tag of [] \<Rightarrow> False | c # _ \<Rightarrow> isUpper c)"

definition indent :: "string \<Rightarrow> string" where
  \<comment> \<open>\<open>/\n(?=[^\n]+$)([ \t]*)/\<close>: the blanks that start the last line, when a line feed
      precedes it and it is not empty\<close>
  "indent previousCode =
     (let lastLine = rev (takeWhile (\<lambda>c. c \<noteq> CHR 0x0A) (rev previousCode))
      in if CHR 0x0A \<in> set previousCode \<and> lastLine \<noteq> []
         then takeWhile (\<lambda>c. c = CHR '' '' \<or> c = CHR 0x09) lastLine
         else [])"

definition trim :: "string \<Rightarrow> string" where
  "trim str = rev (dropWhile isSpace (rev (dropWhile isSpace str)))"

definition addId :: "domExpression \<Rightarrow> string \<Rightarrow> string \<Rightarrow> nat \<Rightarrow> string \<times> domExpression" where
  "addId code parent tag n =
     (case code of DOMExpression ids statements computations \<Rightarrow>
        let eid = (if parent = [] then ''__''
                  else parent @ (if last parent = CHR ''_'' then [] else ''_'') @ tag @ showNat (n + 1))
        in (eid, DOMExpression (ids @ [eid]) statements computations))"

definition addStatement :: "string \<Rightarrow> domExpression \<Rightarrow> domExpression" where
  "addStatement stmt code =
     (case code of DOMExpression ids statements computations \<Rightarrow>
        DOMExpression ids (statements @ [stmt]) computations)"

definition addComputation ::
  "string list \<Rightarrow> string option \<Rightarrow> string option \<Rightarrow> loc \<Rightarrow> domExpression \<Rightarrow> domExpression" where
  "addComputation body stateVar seed l code =
     (case code of DOMExpression ids statements computations \<Rightarrow>
        DOMExpression ids statements (computations @ [Computation body l stateVar seed]))"

definition buildStaticProperty :: "string \<Rightarrow> string \<Rightarrow> string \<Rightarrow> string" where
  "buildStaticProperty name v eid = eid @ ''.'' @ name @ '' = '' @ v @ '';''"

definition buildDynamicProperty :: "string \<Rightarrow> string \<Rightarrow> string \<Rightarrow> string" where
  "buildDynamicProperty name eid expr =
     (if name = ''ref'' then expr @ '' = '' @ eid @ '';''
      else eid @ ''.'' @ name @ '' = '' @ expr @ '';'')"

definition buildMixin ::
  "string \<Rightarrow> string \<Rightarrow> nat \<Rightarrow> bool \<Rightarrow> bool \<Rightarrow> domExpression \<Rightarrow> string \<times> domExpression" where
  "buildMixin expr eid n lastOne final code =
     (case (if lastOne then (''__state'', code) else addId code eid ''mixin'' n) of
        (state, code1) \<Rightarrow>
          let setter = (if lastOne \<and> final then [] else state @ '' = '')
          in (setter @ ''Surplus.spread('' @ expr @ '', '' @ eid @ '', '' @ state @ '');'', code1))"

fun buildStmts ::
  "(property \<times> string) list \<Rightarrow> nat \<Rightarrow> string \<Rightarrow> nat \<Rightarrow> nat option \<Rightarrow> bool \<Rightarrow> domExpression
     \<Rightarrow> string list \<times> domExpression" where
  \<comment> \<open>\<open>properties.map((p, i) => ...)\<close> from index \<open>i\<close> on; \<open>lastMixin\<close> is the index of
      the last \<open>Mixin\<close>\<close>
  "buildStmts [] i eid n lastMixin finalMixin code = ([], code)"
| "buildStmts ((p, expr) # ps) i eid n lastMixin finalMixin code =
     (case (case p of
              StaticProperty name v \<Rightarrow> (buildStaticProperty name v eid, code)
            | DynamicProperty name c l \<Rightarrow> (buildDynamicProperty name eid expr, code)
            | Mixin c l \<Rightarrow> buildMixin expr eid n (lastMixin = Some i) finalMixin code) of
        (stmt, code1) \<Rightarrow>
          (case buildStmts ps (Suc i) eid n lastMixin finalMixin code1 of
             (stmts, code2) \<Rightarrow> (stmt # stmts, code2)))"

definition lastMixinIndex :: "property list \<Rightarrow> nat option" where
  "lastMixinIndex properties =
     (case filter (\<lambda>(i, p). isMixin p) (enumerate 0 properties) of
        [] \<Rightarrow> None
      | ms \<Rightarrow> Some (fst (last ms)))"

definition emitComputation :: "params \<Rightarrow> string \<Rightarrow> computation \<Rightarrow> string" where
  "emitComputation opts nlii cmpt =
     (case cmpt of Computation statements l stateVar seed \<Rightarrow>
        let statements1 =
              (if stateVar \<noteq> None \<and> stateVar \<noteq> Some [] \<and> statements \<noteq> []
               then butlast statements @ [''return '' @ last statements]
               else statements);
            body = (case statements1 of
                      [stmt] \<Rightarrow> '' '' @ stmt @ '' ''
                    | _ \<Rightarrow> nlii @ join nlii statements1 @ nlii);
            code = ''Surplus.S(function ('' @ (case stateVar of Some v \<Rightarrow> v | None \<Rightarrow> [])
                   @ '') {'' @ body @ ''}''
                   @ (case seed of Some sd \<Rightarrow> (if sd \<noteq> [] then '', '' @ sd else []) | None \<Rightarrow> [])
                   @ '');''
        in markLoc code l opts)"

definition emitDOMExpression :: "params \<Rightarrow> domExpression \<Rightarrow> string \<Rightarrow> string" where
  "emitDOMExpression opts code ind =
     (case code of DOMExpression ids statements computations \<Rightarrow>
        let nl = [CHR 0x0D, CHR 0x0A] @ ind; nli = nl @ ''    ''; nlii = nli @ ''    ''
        in ''(function () {'' @ nli
           @ ''var '' @ join '', '' ids @ '';'' @ nli
           @ join nli statements @ nli
           @ join nli (map (emitComputation opts nlii) computations) @ nli
           @ ''return __;'' @ nl
           @ ''})()'')"

fun assign :: "string \<Rightarrow> string \<Rightarrow> (string \<times> string) list \<Rightarrow> (string \<times> string) list" where
  \<comment> \<open>\<open>obj[name] = v\<close>, the keys kept in the order of their first assignment\<close>
  "assign name v [] = [(name, v)]"
| "assign name v ((k, w) # kvs) = (if k = name then (k, v) # kvs else (k, w) # assign name v kvs)"

definition addProperty :: "propertyGroup list \<Rightarrow> property \<Rightarrow> string \<Rightarrow> propertyGroup list" where
  \<comment> \<open>one step of the \<open>reduce\<close> of \<open>buildSubComponent\<close>, \<open>v\<close> being the value of \<open>p\<close>\<close>
  "addProperty props p v =
     (if isMixin p then props @ [MixinGroup v]
      else case (if props = [] then None else Some (last props)) of
             Some (ObjectGroup obj) \<Rightarrow> butlast props @ [ObjectGroup (assign (propertyName p) v obj)]
           | _ \<Rightarrow> props @ [ObjectGroup [(propertyName p, v)]])"

definition emitSubComponent :: "subComponent \<Rightarrow> string \<Rightarrow> error + string" where
  "emitSubComponent expr ind =
     (case expr of SubComponent name properties children \<Rightarrow>
        let nl = [CHR 0x0D, CHR 0x0A] @ ind; nli = nl @ ''    ''; nlii = nli @ ''    '';
            childrenStr = (if children = [] then ''[]''
                           else ''['' @ nlii @ join ('','' @ nlii) children @ nli @ '']'')
        in case properties of
             [] \<Rightarrow> Inl (TypeError ''Cannot set property 'children' of undefined'')
           | properties0 # rest \<Rightarrow>
               let properties1 =
                     (case properties0 of
                        MixinGroup m \<Rightarrow> ObjectGroup [(''children'', childrenStr)] # properties
                      | ObjectGroup obj \<Rightarrow> ObjectGroup (assign ''children'' childrenStr obj) # rest);
                   strs = map (\<lambda>g. case g of
                                      MixinGroup m \<Rightarrow> m
                                    | ObjectGroup obj \<Rightarrow>
                                        ''{'' @ join '','' (map (\<lambda>(p, v). nli @ p @ '': '' @ v) obj)
                                        @ nl @ ''}'') properties1;
                   needLibrary = (1 < length properties1
                                  \<or> (case properties1 of MixinGroup m # _ \<Rightarrow> True | _ \<Rightarrow> False));
                   str0 = (case strs of s0 # _ \<Rightarrow> s0 | [] \<Rightarrow> [])
               in Inr (if needLibrary
                       then ''Surplus.subcomponent('' @ name @ '', ['' @ join '', '' strs @ ''])''
                       else name @ ''('' @ str0 @ '')''))"

lemma nodesProperty_pos: "0 < nodesProperty p"
  by (cases p) simp_all

text \<open>Termination: a count of the nodes of the tree, and a rank for each function.\<close>

definition tagOf :: "element \<Rightarrow> string" where
  "tagOf e = (case e of HtmlElement tag properties content l \<Rightarrow> tag)"

text \<open>
  \<open>compileSegmentsFrom opts res segments\<close> is the \<open>reduce\<close> of \<open>compileSegments\<close> with
  the code \<open>res\<close> produced so far. \<open>subProperties\<close> and \<open>subChildren\<close> are the
  \<open>reduce\<close> and the \<open>map\<close> of \<open>buildSubComponent\<close>, \<open>propertyExprs\<close> is \<open>exprs\<close> of
  \<open>buildHtmlElement\<close> and \<open>buildChildren\<close> its \<open>content.forEach\<close>. The arrays of
  \<open>buildDOMExpression\<close> are passed along as a \<open>DOMExpression\<close>. A \<open>TypeError\<close> thrown on
  the way ends the whole compilation.
\<close>

function compileSegmentsFrom :: "params \<Rightarrow> string \<Rightarrow> segment list \<Rightarrow> error + string"
  and compileHtmlElement :: "params \<Rightarrow> element \<Rightarrow> string \<Rightarrow> error + string"
  and subProperties :: "params \<Rightarrow> propertyGroup list \<Rightarrow> property list \<Rightarrow> error + propertyGroup list"
  and subChildren :: "params \<Rightarrow> child list \<Rightarrow> error + string list"
  and buildHtmlElement :: "params \<Rightarrow> element \<Rightarrow> string \<Rightarrow> nat \<Rightarrow> domExpression \<Rightarrow> error + domExpression"
  and buildHtmlInsert :: "params \<Rightarrow> segment list \<Rightarrow> loc \<Rightarrow> string \<Rightarrow> nat \<Rightarrow> domExpression \<Rightarrow> error + domExpression"
  and propertyExprs :: "params \<Rightarrow> property list \<Rightarrow> error + string list"
  and buildChildren :: "params \<Rightarrow> child list \<Rightarrow> string \<Rightarrow> nat \<Rightarrow> domExpression \<Rightarrow> error + domExpression"
where
  "compileSegmentsFrom opts res [] = Inr res"
| "compileSegmentsFrom opts res (CodeText t l # segments) =
     compileSegmentsFrom opts (res @ markBlockLocs t l opts) segments"
| "compileSegmentsFrom opts res (SegElement e # segments) =
     orThrow (compileHtmlElement opts e (indent res)) (\<lambda>code.
       compileSegmentsFrom opts (res @ code) segments)"
| "compileHtmlElement opts (HtmlElement tag properties content l) ind =
     orThrow
       (if rxUpperStart tag then
          orThrow (subProperties opts [] properties) (\<lambda>props.
            orThrow (subChildren opts content) (\<lambda>children.
              emitSubComponent (SubComponent tag props children) ind))
        else if properties = [] \<and> content = [] then
          Inr (''Surplus.createRootElement(\"'' @ tag @ ''\")'')
        else
          orThrow (buildHtmlElement opts (HtmlElement tag properties content l) [] 0
                     (DOMExpression [] [] []))
            (\<lambda>code. Inr (emitDOMExpression opts code ind)))
       (\<lambda>code. Inr (markLoc code l opts))"
| "subProperties opts props [] = Inr props"
| "subProperties opts props (p # ps) =
     orThrow (case p of
                StaticProperty name v \<Rightarrow> Inr v
              | DynamicProperty name code l \<Rightarrow> compileSegmentsFrom opts [] code
              | Mixin code l \<Rightarrow> compileSegmentsFrom opts [] code)
       (\<lambda>v. subProperties opts (addProperty props p v) ps)"
| "subChildren opts [] = Inr []"
| "subChildren opts (c # cs) =
     orThrow (case c of
                ChildElement e \<Rightarrow> compileHtmlElement opts e []
              | HtmlText t \<Rightarrow> Inr (codeStr (trim t))
              | HtmlInsert code l \<Rightarrow> compileSegmentsFrom opts [] code
              | HtmlComment t \<Rightarrow> Inr (''document.createComment('' @ codeStr t @ '')''))
       (\<lambda>v. orThrow (subChildren opts cs) (\<lambda>vs. Inr (if v \<noteq> [] then v # vs else vs)))"
| "buildHtmlElement opts (HtmlElement tag properties content l) parent n code =
     (case addId code parent tag n of (eid, code1) \<Rightarrow>
        if rxUpperStart tag then
          buildHtmlInsert opts [SegElement (HtmlElement tag properties content l)] l parent n code1
        else
          let code2 = addStatement
                        (if parent \<noteq> []
                         then eid @ '' = Surplus.createElement('' @ [CHR 0x27] @ tag @ [CHR 0x27]
                              @ '', '' @ parent @ '')''
                         else eid @ '' = Surplus.createRootElement('' @ [CHR 0x27] @ tag
                              @ [CHR 0x27] @ '')'') code1
          in orThrow (propertyExprs opts properties) (\<lambda>exprs.
               let lastMixin = lastMixinIndex properties;
                   finalMixin = (case lastMixin of
                                   None \<Rightarrow> properties = []
                                 | Some i \<Rightarrow> Suc i = length properties);
                   dynamic = (lastMixin \<noteq> None \<or> list_ex (\<lambda>e. \<not> noApparentSignals e) exprs)
               in case buildStmts (zip properties exprs) 0 eid n lastMixin finalMixin code2 of
                    (stmts, code3) \<Rightarrow>
                      let code4 = (if \<not> dynamic then fold addStatement stmts code3 else code3)
                      in orThrow (buildChildren opts content eid 0 code4) (\<lambda>code5.
                           if dynamic then
                             let code6 = (if content \<noteq> [] then addStatement [CHR 0x0A] code5
                                          else code5);
                                 stmts1 = (if lastMixin \<noteq> None \<and> \<not> finalMixin
                                           then stmts @ [''__state''] else stmts)
                             in Inr (addComputation stmts1
                                       (if lastMixin \<noteq> None then Some ''__state'' else None)
                                       None l code6)
                           else Inr code5)))"
| "buildHtmlInsert opts segments l parent n code =
     (case addId code parent ''insert'' n of (eid, code1) \<Rightarrow>
        orThrow (compileSegmentsFrom opts [] segments) (\<lambda>ins.
          let range = ''{ start: '' @ eid @ '', end: '' @ eid @ '' }'';
              code2 = addStatement (eid @ '' = Surplus.createTextNode('' @ [CHR 0x27, CHR 0x27]
                                    @ '', '' @ parent @ '')'') code1
          in Inr (addComputation [''Surplus.insert(range, '' @ ins @ '');'']
                    (Some ''range'') (Some range) l code2)))"
| "propertyExprs opts [] = Inr []"
| "propertyExprs opts (p # ps) =
     orThrow (case p of
                StaticProperty name v \<Rightarrow> Inr []
              | DynamicProperty name code l \<Rightarrow> compileSegmentsFrom opts [] code
              | Mixin code l \<Rightarrow> compileSegmentsFrom opts [] code)
       (\<lambda>e. orThrow (propertyExprs opts ps) (\<lambda>es. Inr (e # es)))"
| "buildChildren opts [] parent i code = Inr code"
| "buildChildren opts (c # cs) parent i code =
     orThrow (case c of
                ChildElement e \<Rightarrow> buildHtmlElement opts e parent i code
              | HtmlComment t \<Rightarrow>
                  Inr (addStatement (''Surplus.createComment('' @ codeStr t @ '', '' @ parent @ '')'') code)
              | HtmlText t \<Rightarrow>
                  Inr (addStatement (''Surplus.createTextNode('' @ codeStr t @ '', '' @ parent @ '')'') code)
              | HtmlInsert segments l \<Rightarrow> buildHtmlInsert opts segments l parent i code)
       (\<lambda>code1. buildChildren opts cs parent (Suc i) code1)"
  by pat_completeness auto


termination
proof (relation "measure (\<lambda>x. case x of
          Inl (Inl (Inl (opts, res, segments))) \<Rightarrow> 8 * sum_list (map nodesSegment segments) + 1
        | Inl (Inl (Inr (opts, e, ind))) \<Rightarrow> 8 * nodesElement e + 2
        | Inl (Inr (Inl (opts, props, ps))) \<Rightarrow> 8 * sum_list (map nodesProperty ps)
        | Inl (Inr (Inr (opts, cs))) \<Rightarrow> 8 * sum_list (map nodesChild cs)
        | Inr (Inl (Inl (opts, e, parent, n, code))) \<Rightarrow>
            8 * nodesElement e + (if rxUpperStart (tagOf e) then 11 else 1)
        | Inr (Inl (Inr (opts, segments, l, parent, n, code))) \<Rightarrow>
            8 * sum_list (map nodesSegment segments) + 2
        | Inr (Inr (Inl (opts, ps))) \<Rightarrow> 8 * sum_list (map nodesProperty ps)
        | Inr (Inr (Inr (opts, cs, parent, i, code))) \<Rightarrow> 8 * sum_list (map nodesChild cs) + 4)",
      goal_cases)
  case 1
  show ?case by simp
qed (auto simp: tagOf_def nodesChild_pos nodesProperty_pos)


definition compileSegments :: "params \<Rightarrow> segment list \<Rightarrow> error + string" where
  "compileSegments opts segments = compileSegmentsFrom opts [] segments"

definition compile :: "codeTopLevel \<Rightarrow> params \<Rightarrow> error + string" where
  "compile ctl opts = compileSegments opts ctl"

section \<open>Source maps\<close>

definition vlqFinalDigits :: string where
  "vlqFinalDigits = ''ABCDEFGHIJKLMNOPQRSTUVWXYZabcdef''"

definition vlqContinuationDigits :: string where
  "vlqContinuationDigits = ''ghijklmnopqrstuvwxyz0123456789+/''"

definition toInt32 :: "int \<Rightarrow> int" where
  "toInt32 n = (n + 2 ^ 31) mod 2 ^ 32 - 2 ^ 31"

definition shiftLeft1 :: "int \<Rightarrow> int" where
  \<comment> \<open>\<open>n << 1\<close> on 32-bit integers\<close>
  "shiftLeft1 n = toInt32 (2 * toInt32 n)"

fun digits32 :: "nat \<Rightarrow> nat list" where
  \<comment> \<open>the digits of \<open>n.toString(32)\<close>, the most significant first\<close>
  "digits32 n = (if n < 32 then [n] else digits32 (n div 32) @ [n mod 32])"

declare digits32.simps [simp del]

definition vlq :: "int \<Rightarrow> string" where
  "vlq num =
     (let num1 = (if num < 0 then shiftLeft1 (- num) + 1 else shiftLeft1 num);
          ds = digits32 (nat \<bar>num1\<bar>);
          str = map (\<lambda>d. vlqContinuationDigits ! d) (rev (tl ds))
      in if num1 < 0
         \<comment> \<open>\<open>numstr\<close> then starts with the sign, which is no digit: every digit is written
             as a continuation digit, and \<open>vlqFinalDigits[NaN]\<close> is \<open>undefined\<close>\<close>
         then map (\<lambda>d. vlqContinuationDigits ! d) (rev ds) @ ''undefined''
         else str @ [vlqFinalDigits ! hd ds])"

definition parseInt :: "string \<Rightarrow> nat" where
  \<comment> \<open>of a numeral matched by \<open>\d+\<close>\<close>
  "parseInt ds = foldl (\<lambda>n c. 10 * n + (of_char c - 48)) 0 ds"

definition matchMark :: "string \<Rightarrow> (string \<times> string \<times> nat) option" where
  \<comment> \<open>\<open>\u0000(\d+),(\d+)\u0000\<close> at the start of the string: the two numerals and the
      length of the match\<close>
  "matchMark s =
     (case s of
        [] \<Rightarrow> None
      | c # r \<Rightarrow>
          let sourceLine = takeWhile isDigit r; r1 = dropWhile isDigit r;
              sourceCol = takeWhile isDigit (tl r1); r2 = dropWhile isDigit (tl r1)
          in if c = CHR 0x00 \<and> sourceLine \<noteq> [] \<and> startsWith '','' r1 \<and> sourceCol \<noteq> []
                \<and> startsWith [CHR 0x00] r2
             then Some (sourceLine, sourceCol, length sourceLine + length sourceCol + 3)
             else None)"

record mapper =
  \<comment> \<open>the variables of \<open>extractMappings\<close>, and the text \<open>replace\<close> has produced so far\<close>
  curLine :: "string list"
  lines :: "string list list"
  lastGeneratedCol :: int
  lastSourceLine :: int
  lastSourceCol :: int
  lineStartPos :: int
  lineMarksLength :: int
  src :: string

definition onNewline :: "nat \<Rightarrow> mapper \<Rightarrow> mapper" where
  "onNewline offset m =
     m\<lparr>lines := lines m @ [curLine m], curLine := [], lineStartPos := int offset + 1,
       lineMarksLength := 0, lastGeneratedCol := 0, src := src m @ [CHR 0x0A]\<rparr>"

definition onMark :: "nat \<Rightarrow> string \<Rightarrow> string \<Rightarrow> mapper \<Rightarrow> mapper" where
  "onMark offset sl sc m =
     (let generatedCol = int offset - lineStartPos m - lineMarksLength m;
          sourceLine = int (parseInt sl);
          sourceCol = int (parseInt sc)
      in m\<lparr>curLine := curLine m @ [vlq (generatedCol - lastGeneratedCol m) @ ''A''
                                    @ vlq (sourceLine - lastSourceLine m)
                                    @ vlq (sourceCol - lastSourceCol m)],
           lineMarksLength := lineMarksLength m - 2,
           lastGeneratedCol := generatedCol,
           lastSourceLine := sourceLine,
           lastSourceCol := sourceCol,
           src := src m @ ''/*'' @ showNat (parseInt sl) @ '','' @ showNat (parseInt sc) @ ''*/''\<rparr>)"

lemma matchMark_length:
  assumes "matchMark s = Some (sl, sc, k)"
  shows "0 < k \<and> k \<le> length s"
proof (cases s)
  case Nil
  with assms show ?thesis by (simp add: matchMark_def)
next
  case (Cons c r)
  define r1 where "r1 = dropWhile isDigit r"
  define r2 where "r2 = dropWhile isDigit (tl r1)"
  from assms Cons have k: "k = length (takeWhile isDigit r) + length (takeWhile isDigit (tl r1)) + 3"
    and c1: "startsWith '','' r1" and c2: "startsWith [CHR 0x00] r2"
    by (auto simp: matchMark_def Let_def r1_def r2_def split: if_splits)
  from c1 obtain r1' where r1: "r1 = CHR '','' # r1'" by (cases r1) auto
  from c2 obtain r2' where r2: "r2 = CHR 0x00 # r2'" by (cases r2) auto
  have "length r = length (takeWhile isDigit r) + length r1"
    unfolding r1_def by (metis length_append takeWhile_dropWhile_id)
  moreover have "length (tl r1) = length (takeWhile isDigit (tl r1)) + length r2"
    unfolding r2_def by (metis length_append takeWhile_dropWhile_id)
  ultimately show ?thesis using k r1 r2 Cons by simp
qed

function scanLocs :: "nat \<Rightarrow> string \<Rightarrow> mapper \<Rightarrow> mapper" where
  \<comment> \<open>\<open>embedded.replace(rx.locs, ...)\<close> from \<open>offset\<close> on, \<open>s\<close> being the rest of the string\<close>
  "scanLocs offset s m =
     (case s of
        [] \<Rightarrow> m
      | c # r \<Rightarrow>
          if c = CHR 0x0A then scanLocs (Suc offset) r (onNewline offset m)
          else case matchMark s of
                 Some (sl, sc, k) \<Rightarrow> scanLocs (offset + k) (drop k s) (onMark offset sl sc m)
               | None \<Rightarrow> scanLocs (Suc offset) r (m\<lparr>src := src m @ [c]\<rparr>))"
  by pat_completeness auto
termination
  by (relation "measure (\<lambda>(offset, s, m). length s)") (auto dest: matchMark_length)

declare scanLocs.simps [simp del]

record mappings =
  mSrc :: string
  mMappings :: string

definition extractMappings :: "string \<Rightarrow> mappings" where
  "extractMappings embedded =
     (let m = scanLocs 0 embedded
                \<lparr>curLine = [], lines = [], lastGeneratedCol = 0, lastSourceLine = 0,
                 lastSourceCol = 0, lineStartPos = 0, lineMarksLength = 0, src = []\<rparr>
      in \<lparr>mSrc = src m,
          mMappings = join '';'' (map (join '','') (lines m @ [curLine m]))\<rparr>)"

record sourceMap =
  version :: nat
  targetFile :: string
  sources :: "string list"
  sourcesContent :: "string list"
  names :: "string list"
  mappingsOf :: string

definition createMap :: "string \<Rightarrow> string \<Rightarrow> params \<Rightarrow> sourceMap" where
  "createMap mps original opts =
     \<lparr>version = 3, targetFile = targetfile opts, sources = [sourcefile opts],
      sourcesContent = [original], names = [], mappingsOf = mps\<rparr>"

definition extractMap :: "string \<Rightarrow> string \<Rightarrow> params \<Rightarrow> string \<times> sourceMap" where
  "extractMap code original opts =
     (let extract = extractMappings code
      in (mSrc extract, createMap (mMappings extract) original opts))"

text \<open>
  \<open>appendMap\<close> calls \<open>JSON.stringify\<close> and \<open>encodeURIComponent\<close> of the language; they
  are written out here for the strings and the one object they are applied to.
\<close>

definition hexDigit :: "string \<Rightarrow> nat \<Rightarrow> char" where
  "hexDigit alphabet d = alphabet ! (d mod 16)"

definition jsonChar :: "char \<Rightarrow> string" where
  "jsonChar c =
     (let n = (of_char c :: nat) in
      if c = CHR 0x22 then [CHR 0x5C, CHR 0x22]
      else if c = CHR 0x5C then [CHR 0x5C, CHR 0x5C]
      else if n = 8 then [CHR 0x5C, CHR ''b'']
      else if n = 12 then [CHR 0x5C, CHR ''f'']
      else if n = 10 then [CHR 0x5C, CHR ''n'']
      else if n = 13 then [CHR 0x5C, CHR ''r'']
      else if n = 9 then [CHR 0x5C, CHR ''t'']
      else if n < 32 then
        [CHR 0x5C, CHR ''u'', CHR ''0'', CHR ''0'', hexDigit ''0123456789abcdef'' (n div 16),
         hexDigit ''0123456789abcdef'' n]
      else [c])"

definition jsonString :: "string \<Rightarrow> string" where
  "jsonString str = [CHR 0x22] @ concat (map jsonChar str) @ [CHR 0x22]"

definition jsonStringify :: "sourceMap \<Rightarrow> string" where
  "jsonStringify m =
     ''{'' @ jsonString ''version'' @ '':'' @ showNat (version m)
     @ '','' @ jsonString ''file'' @ '':'' @ jsonString (targetFile m)
     @ '','' @ jsonString ''sources'' @ '':['' @ join '','' (map jsonString (sources m)) @ '']''
     @ '','' @ jsonString ''sourcesContent'' @ '':[''
       @ join '','' (map jsonString (sourcesContent m)) @ '']''
     @ '','' @ jsonString ''names'' @ '':['' @ join '','' (map jsonString (names m)) @ '']''
     @ '','' @ jsonString ''mappings'' @ '':'' @ jsonString (mappingsOf m) @ ''}''"

definition percent :: "nat \<Rightarrow> string" where
  "percent b = [CHR ''%'', hexDigit ''0123456789ABCDEF'' (b div 16), hexDigit ''0123456789ABCDEF'' b]"

definition encodeURIComponent :: "string \<Rightarrow> string" where
  "encodeURIComponent str =
     concat (map (\<lambda>c. let n = (of_char c :: nat) in
                       if isWord c \<or> c \<in> set ''-.!~*()'' \<or> c = CHR 0x27 then [c]
                       else if n < 128 then percent n
                       else percent (192 + n div 64) @ percent (128 + n mod 64)) str)"

definition appendMap :: "string \<Rightarrow> string \<Rightarrow> params \<Rightarrow> string" where
  "appendMap code original opts =
     (case extractMap code original opts of (esrc, emap) \<Rightarrow>
        esrc @ [CHR 0x0A] @ ''//# sourceMappingURL=data:application/json,''
        @ encodeURIComponent (jsonStringify emap))"

section \<open>Driver\<close>

record options =
  \<comment> \<open>the \<open>opts\<close> of \<open>preprocess\<close>; \<open>None\<close> is a property that is absent\<close>
  optSourcemap :: "string option"
  optSourcefile :: "string option"
  optTargetfile :: "string option"
  optJsx :: "bool option"

datatype result = Code string | CodeAndMap string sourceMap

definition orDefault :: "string option \<Rightarrow> string \<Rightarrow> string" where
  \<comment> \<open>\<open>v || d\<close> on strings\<close>
  "orDefault v d = (case v of None \<Rightarrow> d | Some str \<Rightarrow> if str = [] then d else str)"

definition paramsOf :: "options \<Rightarrow> params" where
  "paramsOf opts =
     \<lparr>sourcemap = (case optSourcemap opts of
                     None \<Rightarrow> None
                   | Some str \<Rightarrow> if str = [] then None else Some str),
      sourcefile = orDefault (optSourcefile opts) ''in.js'',
      targetfile = orDefault (optTargetfile opts) ''out.js'',
      jsx = (case optJsx opts of None \<Rightarrow> True | Some b \<Rightarrow> b)\<rparr>"

definition defaultOptions :: options where
  "defaultOptions =
     \<lparr>optSourcemap = None, optSourcefile = None, optTargetfile = None, optJsx = None\<rparr>"

definition preprocess :: "string \<Rightarrow> options \<Rightarrow> (error + result) option" where
  \<comment> \<open>\<open>None\<close>: the parser did not return within its bound; \<open>Some (Inl e)\<close>: \<open>e\<close> is thrown\<close>
  "preprocess str opts =
     (let ps = paramsOf opts; TOKS = tokenize str in
      case parse TOKS ps of
        Stuck \<Rightarrow> None
      | Fail msg l \<Rightarrow> Some (Inl (ParseError msg l))
      | Done ast s \<Rightarrow>
          (case compile (transform ast) ps of
             Inl e \<Rightarrow> Some (Inl e)
           | Inr code \<Rightarrow>
               Some (Inr (if sourcemap ps = Some ''extract''
                          then (case extractMap code str ps of (esrc, emap) \<Rightarrow> CodeAndMap esrc emap)
                          else if sourcemap ps = Some ''append''
                          then Code (appendMap code str ps)
                          else Code code))))"

section \<open>Evaluating the pipeline on the scenarios of the specification\<close>

definition CRLF :: string where
  "CRLF = [CHR 0x0D, CHR 0x0A]"

definition jsxParams :: params where
  "jsxParams = \<lparr>sourcemap = None, sourcefile = ''in.js'', targetfile = ''out.js'', jsx = True\<rparr>"

definition nativeParams :: params where
  "nativeParams = \<lparr>sourcemap = None, sourcefile = ''in.js'', targetfile = ''out.js'', jsx = False\<rparr>"

definition at :: "nat \<Rightarrow> nat \<Rightarrow> nat \<Rightarrow> loc" where
  "at l c p = \<lparr>line = l, col = c, pos = p\<rparr>"

definition outputContains :: "string \<Rightarrow> (error + result) option \<Rightarrow> bool" where
  \<comment> \<open>the call returned, and the code it returned contains the string\<close>
  "outputContains p r =
     (case r of
        Some (Inr (Code out)) \<Rightarrow> contains p out
      | Some (Inr (CodeAndMap out m)) \<Rightarrow> contains p out
      | _ \<Rightarrow> False)"

text \<open>
  The parser is evaluated by rewriting: a production at depth \<open>numeral k\<close> unfolds to its
  body at the depth below, and the second argument of \<open>andThen\<close> is left alone until the
  first has been evaluated.
\<close>

lemma andThen_simps:
  "andThen (Done x s) f = f x s"
  "andThen (Fail m l) f = Fail m l"
  "andThen Stuck f = Stuck"
  by (simp_all add: andThen_def)

lemma andThen_cong_weak: "r = r' \<Longrightarrow> andThen r f = andThen r' f"
  by simp

lemma parserAt_numeral:
  "htmlElement (parserAt opts (numeral k)) = htmlElementBody (parserAt opts (pred_numeral k))"
  "propertiesLoop (parserAt opts (numeral k)) = propertiesLoopBody opts (parserAt opts (pred_numeral k))"
  "contentLoop (parserAt opts (numeral k)) = contentLoopBody opts (parserAt opts (pred_numeral k))"
  "htmlInsert (parserAt opts (numeral k)) = htmlInsertBody (parserAt opts (pred_numeral k))"
  "jsxHtmlInsert (parserAt opts (numeral k)) = jsxHtmlInsertBody (parserAt opts (pred_numeral k))"
  "property (parserAt opts (numeral k)) = propertyBody opts (parserAt opts (pred_numeral k))"
  "mixin (parserAt opts (numeral k)) = mixinBody (parserAt opts (pred_numeral k))"
  "jsxMixin (parserAt opts (numeral k)) = jsxMixinBody (parserAt opts (pred_numeral k))"
  "embeddedCode (parserAt opts (numeral k)) = embeddedCodeBody (parserAt opts (pred_numeral k))"
  "embeddedCodeLoop (parserAt opts (numeral k)) = embeddedCodeLoopBody (parserAt opts (pred_numeral k))"
  "jsxEmbeddedCode (parserAt opts (numeral k)) = jsxEmbeddedCodeBody (parserAt opts (pred_numeral k))"
  "balancedParens (parserAt opts (numeral k)) = balancedParensBody (parserAt opts (pred_numeral k))"
  "balancedParensLoop (parserAt opts (numeral k)) = balancedParensLoopBody (parserAt opts (pred_numeral k))"
  by (simp_all add: numeral_eq_Suc Let_def)

lemma codeTopLevelLoop_numeral:
  "codeTopLevelLoop opts (numeral k) segments text l s =
     (if \<not> EOF s then
        if IS ''<'' s then
          (let segments1 = (if text \<noteq> [] then segments @ [CodeText text l] else segments) in
           andThen (htmlElement (parserAt opts (pred_numeral k)) s) (\<lambda>e s1.
             codeTopLevelLoop opts (pred_numeral k) (segments1 @ [SegElement e]) [] (LOC s1) s1))
        else if IS [CHR 0x22] s \<or> IS [CHR 0x27] s then
          andThen (quotedString s) (\<lambda>q s1. codeTopLevelLoop opts (pred_numeral k) segments (text @ q) l s1)
        else if IS ''//'' s then
          andThen (codeSingleLineComment s) (\<lambda>q s1.
            codeTopLevelLoop opts (pred_numeral k) segments (text @ q) l s1)
        else if IS ''/*'' s then
          andThen (codeMultiLineComment s) (\<lambda>q s1.
            codeTopLevelLoop opts (pred_numeral k) segments (text @ q) l s1)
        else codeTopLevelLoop opts (pred_numeral k) segments (text @ TOK s) l (NEXT s)
      else Done (if text \<noteq> [] then segments @ [CodeText text l] else segments) s)"
  by (simp add: numeral_eq_Suc)

lemmas parser_defs =
  htmlElementBody_def propertiesLoopBody_def contentLoopBody_def htmlInsertBody_def
  jsxHtmlInsertBody_def propertyBody_def mixinBody_def jsxMixinBody_def embeddedCodeBody_def
  embeddedCodeLoopBody_def jsxEmbeddedCodeBody_def balancedParensBody_def balancedParensLoopBody_def
  htmlText_def htmlTextLoop.simps htmlComment_def htmlCommentLoop.simps quotedString_def
  quotedStringLoop.simps codeSingleLineComment_def codeSingleLineCommentLoop.simps
  codeMultiLineComment_def codeMultiLineCommentLoop.simps SKIPWS.simps SPLIT_def NEXT_def
  TOK_def EOF_def LOC_def ERR_def IS_def NOT_def PARENS_def rxIdentifier_def rxLeadingWs_def
  rxCodeTerminator_def rxCodeContinuation_def rxStringEscapedEnd_def isTerminator_def
  isSpace_def isWord_def isUpper_def isLower_def isDigit_def




lemma paramsOf_defaultOptions: "paramsOf defaultOptions = jsxParams"
  by (simp add: paramsOf_def defaultOptions_def jsxParams_def orDefault_def)

lemma paramsOf_native: "paramsOf (defaultOptions\<lparr>optJsx := Some False\<rparr>) = nativeParams"
  by (simp add: paramsOf_def defaultOptions_def nativeParams_def orDefault_def)

lemmas parser_eval =
  parse_def parseFuel_def andThen_simps parserAt_numeral codeTopLevelLoop_numeral parser_defs Let_def
  jsxParams_def nativeParams_def at_def

lemma tokenize_leaf:
  "tokenize ''let x = <div></div>;'' =
     [''let x '', ''='', '' '', ''<'', ''div'', ''>'', ''</'', ''div'', ''>'', '';'']"
  by code_simp

lemma parse_leaf:
  "parse [''let x '', ''='', '' '', ''<'', ''div'', ''>'', ''</'', ''div'', ''>'', '';''] jsxParams =
     Done [CodeText ''let x = '' (at 0 0 0), SegElement (HtmlElement ''div'' [] [] (at 0 8 8)),
           CodeText '';'' (at 0 19 19)]
       \<lparr>toks = [], LINE = 0, COL = 20, POS = 20\<rparr>"
  by (simp add: parser_eval split del: if_split
        cong: andThen_cong_weak prod.case_cong_weak let_weak_cong)

lemma compile_leaf:
  "compile (transform [CodeText ''let x = '' (at 0 0 0), SegElement (HtmlElement ''div'' [] [] (at 0 8 8)),
           CodeText '';'' (at 0 19 19)]) jsxParams = Inr ''let x = Surplus.createRootElement(\"div\");''"
  by code_simp

lemma preprocess_leaf:
  "preprocess ''let x = <div></div>;'' defaultOptions =
     Some (Inr (Code ''let x = Surplus.createRootElement(\"div\");''))"
  by (simp add: preprocess_def paramsOf_defaultOptions tokenize_leaf parse_leaf compile_leaf)
     (simp add: jsxParams_def)

lemma tokenize_onClick:
  "tokenize ''let x = <div onClick={f}>hi</div>;'' =
     [''let x '', ''='', '' '', ''<'', ''div onClick'', ''='', ''{'', ''f'', ''}'', ''>'', ''hi'',
      ''</'', ''div'', ''>'', '';'']"
  by code_simp

lemma parse_onClick:
  "parse [''let x '', ''='', '' '', ''<'', ''div onClick'', ''='', ''{'', ''f'', ''}'', ''>'', ''hi'',
      ''</'', ''div'', ''>'', '';''] jsxParams =
     Done [CodeText ''let x = '' (at 0 0 0),
           SegElement (HtmlElement ''div''
             [DynamicProperty ''onClick'' [CodeText ''f'' (at 0 22 21)] (at 0 13 13)]
             [HtmlText ''hi''] (at 0 8 8)),
           CodeText '';'' (at 0 33 33)]
       \<lparr>toks = [], LINE = 0, COL = 34, POS = 34\<rparr>"
  by (simp add: parser_eval split del: if_split
        cong: andThen_cong_weak prod.case_cong_weak let_weak_cong)

lemma compile_onClick:
  "compile (transform [CodeText ''let x = '' (at 0 0 0),
           SegElement (HtmlElement ''div''
             [DynamicProperty ''onClick'' [CodeText ''f'' (at 0 22 21)] (at 0 13 13)]
             [HtmlText ''hi''] (at 0 8 8)),
           CodeText '';'' (at 0 33 33)]) jsxParams =
     Inr (join CRLF
       [''let x = (function () {'',
        ''    var __;'',
        ''    __ = Surplus.createRootElement('div')'',
        ''    __.onclick = f;'',
        ''    __.textContent = 'hi';'',
        ''    '',
        ''    return __;'',
        ''})();''])"
  by code_simp

lemma tokenize_Foo:
  "tokenize ''let x = <Foo a=\"1\" {...m} b={y}/>;'' =
     [''let x '', ''='', '' '', ''<'', ''Foo a'', ''='', [CHR 0x22], ''1'', [CHR 0x22], '' '',
      ''{...'', ''m'', ''}'', '' b'', ''='', ''{'', ''y'', ''}'', ''/>'', '';'']"
  by code_simp

lemma parse_Foo:
  "parse [''let x '', ''='', '' '', ''<'', ''Foo a'', ''='', [CHR 0x22], ''1'', [CHR 0x22], '' '',
      ''{...'', ''m'', ''}'', '' b'', ''='', ''{'', ''y'', ''}'', ''/>'', '';''] jsxParams =
     Done [CodeText ''let x = '' (at 0 0 0),
           SegElement (HtmlElement ''Foo''
             [StaticProperty ''a'' ''\"1\"'',
              Mixin [CodeText ''m'' (at 0 23 19)] (at 0 19 19),
              DynamicProperty ''b'' [CodeText ''y'' (at 0 29 28)] (at 0 26 26)]
             [] (at 0 8 8)),
           CodeText '';'' (at 0 33 33)]
       \<lparr>toks = [], LINE = 0, COL = 34, POS = 34\<rparr>"
  by (simp add: parser_eval split del: if_split
        cong: andThen_cong_weak prod.case_cong_weak let_weak_cong)

lemma compile_Foo:
  "compile (transform [CodeText ''let x = '' (at 0 0 0),
           SegElement (HtmlElement ''Foo''
             [StaticProperty ''a'' ''\"1\"'',
              Mixin [CodeText ''m'' (at 0 23 19)] (at 0 19 19),
              DynamicProperty ''b'' [CodeText ''y'' (at 0 29 28)] (at 0 26 26)]
             [] (at 0 8 8)),
           CodeText '';'' (at 0 33 33)]) jsxParams =
     Inr (join CRLF
       [''let x = Surplus.subcomponent(Foo, [{'',
        ''    a: \"1\",'',
        ''    children: []'',
        ''}, m, {'',
        ''    b: y'',
        ''}]);''])"
  by code_simp

lemma tokenize_entities:
  "tokenize ''let x = <div>&amp;&#65;</div>;'' =
     [''let x '', ''='', '' '', ''<'', ''div'', ''>'', ''&amp;&#65;'', ''</'', ''div'', ''>'', '';'']"
  by code_simp

lemma parse_entities:
  "parse [''let x '', ''='', '' '', ''<'', ''div'', ''>'', ''&amp;&#65;'', ''</'', ''div'', ''>'', '';'']
     nativeParams =
     Done [CodeText ''let x = '' (at 0 0 0),
           SegElement (HtmlElement ''div'' [] [HtmlText ''&amp;&#65;''] (at 0 8 8)),
           CodeText '';'' (at 0 29 29)]
       \<lparr>toks = [], LINE = 0, COL = 30, POS = 30\<rparr>"
  by (simp add: parser_eval split del: if_split
        cong: andThen_cong_weak prod.case_cong_weak let_weak_cong)

lemma compile_entities:
  "compile (transform [CodeText ''let x = '' (at 0 0 0),
           SegElement (HtmlElement ''div'' [] [HtmlText ''&amp;&#65;''] (at 0 8 8)),
           CodeText '';'' (at 0 29 29)]) nativeParams =
     Inr (join CRLF
       [''let x = (function () {'',
        ''    var __;'',
        ''    __ = Surplus.createRootElement('div')'',
        ''    __.textContent = '&amp;&#65;';'',
        ''    '',
        ''    return __;'',
        ''})();''])"
  by code_simp


lemma preprocess_onClick:
  "preprocess ''let x = <div onClick={f}>hi</div>;'' defaultOptions =
     Some (Inr (Code (join CRLF
       [''let x = (function () {'',
        ''    var __;'',
        ''    __ = Surplus.createRootElement('div')'',
        ''    __.onclick = f;'',
        ''    __.textContent = 'hi';'',
        ''    '',
        ''    return __;'',
        ''})();''])))"
  by (simp add: preprocess_def paramsOf_defaultOptions tokenize_onClick parse_onClick
        compile_onClick)
     (simp add: jsxParams_def)

lemma preprocess_Foo:
  "preprocess ''let x = <Foo a=\"1\" {...m} b={y}/>;'' defaultOptions =
     Some (Inr (Code (join CRLF
       [''let x = Surplus.subcomponent(Foo, [{'',
        ''    a: \"1\",'',
        ''    children: []'',
        ''}, m, {'',
        ''    b: y'',
        ''}]);''])))"
  by (simp add: preprocess_def paramsOf_defaultOptions tokenize_Foo parse_Foo compile_Foo)
     (simp add: jsxParams_def)

lemma preprocess_entities:
  "preprocess ''let x = <div>&amp;&#65;</div>;'' (defaultOptions\<lparr>optJsx := Some False\<rparr>) =
     Some (Inr (Code (join CRLF
       [''let x = (function () {'',
        ''    var __;'',
        ''    __ = Surplus.createRootElement('div')'',
        ''    __.textContent = '&amp;&#65;';'',
        ''    '',
        ''    return __;'',
        ''})();''])))"
  by (simp add: preprocess_def paramsOf_native tokenize_entities parse_entities compile_entities)
     (simp add: nativeParams_def)

section \<open>The claims\<close>

subsection \<open>C1: an event handler and a text child\<close>

text \<open>
  C1 as stated: for the input \<open>let x = <div onClick={f}>hi</div>;\<close> under the default
  options the code returned contains \<open>Surplus.createTextNode('hi', __)\<close>. It does not:
  \<open>promoteInitialTextNodesToTextContentProperties\<close> has turned the text into a property.
\<close>

theorem C1_no_createTextNode:
  "\<not> outputContains ''Surplus.createTextNode('hi', __)''
       (preprocess ''let x = <div onClick={f}>hi</div>;'' defaultOptions)"
  by (simp add: preprocess_onClick outputContains_def CRLF_def)

text \<open>
  C1, amended: for the input \<open>let x = <div onClick={f}>hi</div>;\<close> under the default
  options (jsx dialect, sourcemap null), \<open>preprocess\<close> returns an IIFE that declares \<open>__\<close>,
  holds the plain statement \<open>__.onclick = f;\<close> outside any \<open>Surplus.S(...)\<close> computation
  (the expression \<open>f\<close> has no parenthesis), and sets the text by the static property
  \<open>__.textContent = 'hi';\<close>.
\<close>

theorem C1_onClick_output:
  "preprocess ''let x = <div onClick={f}>hi</div>;'' defaultOptions =
     Some (Inr (Code (join CRLF
       [''let x = (function () {'',
        ''    var __;'',
        ''    __ = Surplus.createRootElement('div')'',
        ''    __.onclick = f;'',
        ''    __.textContent = 'hi';'',
        ''    '',
        ''    return __;'',
        ''})();''])))
   \<and> \<not> rxHasParen ''f''
   \<and> outputContains ''(function () {''
         (preprocess ''let x = <div onClick={f}>hi</div>;'' defaultOptions)
   \<and> outputContains ''var __;''
         (preprocess ''let x = <div onClick={f}>hi</div>;'' defaultOptions)
   \<and> outputContains ''__.onclick = f;''
         (preprocess ''let x = <div onClick={f}>hi</div>;'' defaultOptions)
   \<and> outputContains ''__.textContent = 'hi';''
         (preprocess ''let x = <div onClick={f}>hi</div>;'' defaultOptions)
   \<and> \<not> outputContains ''Surplus.S(''
         (preprocess ''let x = <div onClick={f}>hi</div>;'' defaultOptions)"
  by (simp add: preprocess_onClick outputContains_def rxHasParen_def CRLF_def)

subsection \<open>C3: an element with no property and no content\<close>

text \<open>
  C3: \<open>compileHtmlElement\<close>, given an element whose tag does not start with a capital
  letter and whose property list and content are empty, returns the single call
  \<open>Surplus.createRootElement("tag")\<close>, preceded by the element's location mark when a
  source map is asked for: no IIFE and no reactive computation. In particular
  \<open>preprocess\<close> of \<open>let x = <div></div>;\<close> returns
  \<open>let x = Surplus.createRootElement("div");\<close>, which holds no IIFE.
\<close>

theorem C3_leaf_element:
  "(\<not> rxUpperStart tag \<longrightarrow>
      compileHtmlElement opts (HtmlElement tag [] [] l) ind =
        Inr (markLoc (''Surplus.createRootElement(\"'' @ tag @ ''\")'') l opts))
   \<and> (\<not> rxUpperStart tag \<longrightarrow> sourcemap opts = None \<longrightarrow>
      compileHtmlElement opts (HtmlElement tag [] [] l) ind =
        Inr (''Surplus.createRootElement(\"'' @ tag @ ''\")''))
   \<and> preprocess ''let x = <div></div>;'' defaultOptions =
       Some (Inr (Code ''let x = Surplus.createRootElement(\"div\");''))
   \<and> outputContains ''Surplus.createRootElement(\"div\")''
         (preprocess ''let x = <div></div>;'' defaultOptions)
   \<and> \<not> outputContains ''(function'' (preprocess ''let x = <div></div>;'' defaultOptions)
   \<and> \<not> outputContains ''Surplus.S('' (preprocess ''let x = <div></div>;'' defaultOptions)"
proof -
  have a: "\<not> rxUpperStart tag \<longrightarrow>
      compileHtmlElement opts (HtmlElement tag [] [] l) ind =
        Inr (markLoc (''Surplus.createRootElement(\"'' @ tag @ ''\")'') l opts)"
    by (simp add: orThrow_def)
  have b: "\<not> rxUpperStart tag \<longrightarrow> sourcemap opts = None \<longrightarrow>
      compileHtmlElement opts (HtmlElement tag [] [] l) ind =
        Inr (''Surplus.createRootElement(\"'' @ tag @ ''\")'')"
    by (simp add: orThrow_def markLoc_def)
  have c: "outputContains ''Surplus.createRootElement(\"div\")''
         (preprocess ''let x = <div></div>;'' defaultOptions)"
    by (simp add: preprocess_leaf outputContains_def)
  have d: "\<not> outputContains ''(function'' (preprocess ''let x = <div></div>;'' defaultOptions)"
    by (simp add: preprocess_leaf outputContains_def)
  have e: "\<not> outputContains ''Surplus.S('' (preprocess ''let x = <div></div>;'' defaultOptions)"
    by (simp add: preprocess_leaf outputContains_def)
  show ?thesis
    by (intro conjI a b c d e preprocess_leaf)
qed

theorem C3_leaf_element_witness:
  "\<not> rxUpperStart ''span'' \<and> sourcemap jsxParams = None
   \<and> compileHtmlElement jsxParams (HtmlElement ''span'' [] [] (at 3 4 50)) ''  '' =
       Inr ''Surplus.createRootElement(\"span\")''"
  using C3_leaf_element [of "''span''" jsxParams "at 3 4 50" "''  ''"]
  by (simp add: rxUpperStart_def isUpper_def jsxParams_def markLoc_def)

subsection \<open>C5: HTML entities\<close>

text \<open>
  C5 as stated: in the native dialect \<open>preprocess\<close> of \<open>let x = <div>&amp;&#65;</div>;\<close>
  produces the text \<open>&A\<close> as \<open>textContent\<close>. It does not: none of the transforms that
  \<open>preprocess\<close> applies touches the text of a Text node.
\<close>

theorem C5_entities_not_translated:
  "\<not> outputContains ''__.textContent = '&A';''
       (preprocess ''let x = <div>&amp;&#65;</div>;'' (defaultOptions\<lparr>optJsx := Some False\<rparr>))"
  by (simp add: preprocess_entities outputContains_def CRLF_def)

text \<open>
  C5, amended: the transform stage applied by \<open>preprocess\<close> translates no HTML entity, in
  either dialect: it leaves every Text node as it is, and the text promoted to
  \<open>textContent\<close> is the text as written. In particular, \<open>preprocess\<close> of
  \<open>let x = <div>&amp;&#65;</div>;\<close> in the native dialect sets
  \<open>__.textContent = '&amp;&#65;';\<close>. (The entity translation of the specification is an
  overlay of another transform module, which \<open>preprocess\<close> does not call.)
\<close>

theorem C5_entities_verbatim:
  "tfChild (HtmlText t) = HtmlText t
   \<and> promoteInitialTextNodesToTextContentProperties (HtmlElement ''div'' ps (HtmlText t # cs) l) =
       HtmlElement ''div'' (ps @ [StaticProperty ''textContent'' (codeStr t)]) cs l
   \<and> preprocess ''let x = <div>&amp;&#65;</div>;'' (defaultOptions\<lparr>optJsx := Some False\<rparr>) =
       Some (Inr (Code (join CRLF
         [''let x = (function () {'',
          ''    var __;'',
          ''    __ = Surplus.createRootElement('div')'',
          ''    __.textContent = '&amp;&#65;';'',
          ''    '',
          ''    return __;'',
          ''})();''])))
   \<and> outputContains ''__.textContent = '&amp;&#65;';''
         (preprocess ''let x = <div>&amp;&#65;</div>;'' (defaultOptions\<lparr>optJsx := Some False\<rparr>))"
proof -
  have "outputContains ''__.textContent = '&amp;&#65;';''
         (preprocess ''let x = <div>&amp;&#65;</div>;'' (defaultOptions\<lparr>optJsx := Some False\<rparr>))"
    by (simp add: preprocess_entities outputContains_def CRLF_def)
  moreover have "promoteInitialTextNodesToTextContentProperties
        (HtmlElement ''div'' ps (HtmlText t # cs) l) =
       HtmlElement ''div'' (ps @ [StaticProperty ''textContent'' (codeStr t)]) cs l"
    by (simp add: promoteInitialTextNodesToTextContentProperties_def rxLowerStart_def isLower_def)
  ultimately show ?thesis
    by (simp add: preprocess_entities)
qed

subsection \<open>The transform of an element, in closed form\<close>

definition isWsText :: "child \<Rightarrow> bool" where
  "isWsText c = (case c of HtmlText t \<Rightarrow> rxWs t | _ \<Rightarrow> False)"

definition translateProperty :: "property \<Rightarrow> property" where
  "translateProperty p =
     (case p of
        DynamicProperty name code pl \<Rightarrow> DynamicProperty (translateJSXPropertyName name) code pl
      | _ \<Rightarrow> p)"

definition uniqueProperties :: "property list \<Rightarrow> property list" where
  "uniqueProperties properties =
     map snd (filter (\<lambda>(i, p). isMixin p \<or> lastidOf properties (propertyName p) = Some i)
                     (enumerate 0 properties))"

text \<open>
  Duplicate removal in the words of the specification: a named property is dropped exactly
  when a later named property has its name; a Mixin is never dropped.
\<close>

fun keepLastNamed :: "property list \<Rightarrow> property list" where
  "keepLastNamed [] = []"
| "keepLastNamed (p # ps) =
     (if \<not> isMixin p \<and> list_ex (\<lambda>q. \<not> isMixin q \<and> propertyName q = propertyName p) ps
      then keepLastNamed ps
      else p # keepLastNamed ps)"

lemma filter_same_length: "length (filter P xs) = length xs \<Longrightarrow> filter P xs = xs"
  by (metis filter_True length_filter_less linorder_neq_iff)

lemma removeWhitespaceTextNodes_eq:
  "removeWhitespaceTextNodes (HtmlElement tag ps cs l) =
     HtmlElement tag ps (filter (\<lambda>c. \<not> isWsText c) cs) l"
proof -
  have "(\<lambda>c. \<not> (case c of HtmlText t \<Rightarrow> rxWs t | _ \<Rightarrow> False)) = (\<lambda>c. \<not> isWsText c)"
    by (simp add: isWsText_def)
  then show ?thesis
    by (auto simp: removeWhitespaceTextNodes_def Let_def dest: filter_same_length)
qed

lemma translateJSXPropertyNames_eq:
  "translateJSXPropertyNames (HtmlElement tag ps cs l) =
     HtmlElement tag (if rxLowerStart tag then map translateProperty ps else ps) cs l"
proof -
  have "(\<lambda>p. case p of DynamicProperty name code pl \<Rightarrow>
                 DynamicProperty (translateJSXPropertyName name) code pl | _ \<Rightarrow> p) = translateProperty"
    by (simp add: translateProperty_def fun_eq_iff)
  then show ?thesis by (simp add: translateJSXPropertyNames_def Let_def)
qed

lemma removeDuplicateProperties_eq:
  "removeDuplicateProperties (HtmlElement tag ps cs l) = HtmlElement tag (uniqueProperties ps) cs l"
proof (cases "length ps = length (uniqueProperties ps)")
  case True
  let ?P = "\<lambda>(i, p). isMixin p \<or> lastidOf ps (propertyName p) = Some i"
  from True have "length (filter ?P (enumerate 0 ps)) = length (enumerate 0 ps)"
    by (simp add: uniqueProperties_def)
  then have "filter ?P (enumerate 0 ps) = enumerate 0 ps" by (rule filter_same_length)
  then have "uniqueProperties ps = ps" by (simp add: uniqueProperties_def)
  moreover from True have "removeDuplicateProperties (HtmlElement tag ps cs l) = HtmlElement tag ps cs l"
    by (simp add: removeDuplicateProperties_def Let_def uniqueProperties_def)
  ultimately show ?thesis by simp
next
  case False
  then show ?thesis
    by (simp add: removeDuplicateProperties_def Let_def uniqueProperties_def)
qed

text \<open>The dictionary \<open>lastid\<close> after the \<open>forEach\<close>, as a fold over the indexed properties.\<close>

definition lastidStep :: "nat \<times> property \<Rightarrow> (string \<rightharpoonup> nat) \<Rightarrow> (string \<rightharpoonup> nat)" where
  "lastidStep = (\<lambda>(i, p) lastid. if isMixin p then lastid else lastid(propertyName p \<mapsto> i))"

lemma lastidOf_fold: "lastidOf ps = fold lastidStep (enumerate 0 ps) Map.empty"
  by (simp add: lastidOf_def lastidStep_def)

lemma fold_lastid_absent:
  "\<not> list_ex (\<lambda>q. \<not> isMixin q \<and> propertyName q = k) ps \<Longrightarrow>
     fold lastidStep (enumerate n ps) m k = m k"
  by (induction ps arbitrary: n m) (auto simp: lastidStep_def)

lemma fold_lastid_present:
  "list_ex (\<lambda>q. \<not> isMixin q \<and> propertyName q = k) ps \<Longrightarrow>
     \<exists>j. fold lastidStep (enumerate n ps) m k = Some j \<and> n \<le> j"
proof (induction ps arbitrary: n m)
  case Nil
  then show ?case by simp
next
  case (Cons p ps)
  show ?case
  proof (cases "list_ex (\<lambda>q. \<not> isMixin q \<and> propertyName q = k) ps")
    case True
    from Cons.IH [OF True, of "Suc n" "lastidStep (n, p) m"] show ?thesis
      by (auto simp: Suc_le_eq intro: less_imp_le)
  next
    case False
    with Cons.prems have p: "\<not> isMixin p" "propertyName p = k" by auto
    from fold_lastid_absent [OF False, of "Suc n" "lastidStep (n, p) m"] p
    show ?thesis by (simp add: lastidStep_def)
  qed
qed

lemma filter_lastid_keepLast:
  "map snd (filter (\<lambda>(i, p). isMixin p \<or> fold lastidStep (enumerate n ps) m (propertyName p) = Some i)
                   (enumerate n ps)) = keepLastNamed ps"
proof (induction ps arbitrary: n m)
  case Nil
  then show ?case by simp
next
  case (Cons p ps)
  let ?m = "lastidStep (n, p) m"
  let ?L = "fold lastidStep (enumerate (Suc n) ps) ?m"
  have tail: "map snd (filter (\<lambda>(i, p). isMixin p \<or> ?L (propertyName p) = Some i)
                   (enumerate (Suc n) ps)) = keepLastNamed ps"
    by (rule Cons.IH)
  have head: "(isMixin p \<or> ?L (propertyName p) = Some n) \<longleftrightarrow>
      \<not> (\<not> isMixin p \<and> list_ex (\<lambda>q. \<not> isMixin q \<and> propertyName q = propertyName p) ps)"
  proof (cases "isMixin p")
    case True
    then show ?thesis by simp
  next
    case False
    show ?thesis
    proof (cases "list_ex (\<lambda>q. \<not> isMixin q \<and> propertyName q = propertyName p) ps")
      case True
      from fold_lastid_present [OF True, of "Suc n" ?m] False True show ?thesis by auto
    next
      case ex: False
      from fold_lastid_absent [OF ex, of "Suc n" ?m] False ex show ?thesis
        by (simp add: lastidStep_def)
    qed
  qed
  show ?case using tail head by simp
qed

lemma uniqueProperties_keepLastNamed: "uniqueProperties ps = keepLastNamed ps"
  unfolding uniqueProperties_def lastidOf_fold by (rule filter_lastid_keepLast)

lemma keepLastNamed_subset: "set (keepLastNamed ps) \<subseteq> set ps"
  by (induction ps) auto

lemma keepLastNamed_distinct:
  "distinct (map propertyName (filter (\<lambda>p. \<not> isMixin p) (keepLastNamed ps)))"
proof (induction ps)
  case Nil
  then show ?case by simp
next
  case (Cons p ps)
  have "propertyName p \<notin> propertyName ` {q \<in> set (keepLastNamed ps). \<not> isMixin q}"
    if "\<not> list_ex (\<lambda>q. \<not> isMixin q \<and> propertyName q = propertyName p) ps"
    using that keepLastNamed_subset [of ps] by (auto simp: list_ex_iff)
  with Cons show ?case by auto
qed

lemma keepLastNamed_mixins:
  "filter isMixin (keepLastNamed ps) = filter isMixin ps"
  by (induction ps) auto


definition promotedProperties :: "string \<Rightarrow> child list \<Rightarrow> property list" where
  \<comment> \<open>what \<open>promoteInitialTextNodesToTextContentProperties\<close> appends to the properties\<close>
  "promotedProperties tag cs =
     (case cs of
        HtmlText t # rest \<Rightarrow>
          if rxLowerStart tag then [StaticProperty ''textContent'' (codeStr t)] else []
      | _ \<Rightarrow> [])"

definition remainingContent :: "string \<Rightarrow> child list \<Rightarrow> child list" where
  \<comment> \<open>and the content it leaves\<close>
  "remainingContent tag cs =
     (case cs of HtmlText t # rest \<Rightarrow> if rxLowerStart tag then rest else cs | _ \<Rightarrow> cs)"

lemma promote_eq:
  "promoteInitialTextNodesToTextContentProperties (HtmlElement tag ps cs l) =
     HtmlElement tag (ps @ promotedProperties tag cs) (remainingContent tag cs) l"
  by (simp add: promoteInitialTextNodesToTextContentProperties_def promotedProperties_def
        remainingContent_def Let_def split: list.splits child.splits)

lemma rewriteHtmlElement_eq:
  "rewriteHtmlElement (HtmlElement tag ps cs l) =
     HtmlElement tag
       (keepLastNamed ((if rxLowerStart tag then map translateProperty ps else ps)
                       @ promotedProperties tag (filter (\<lambda>c. \<not> isWsText c) cs)))
       (remainingContent tag (filter (\<lambda>c. \<not> isWsText c) cs)) l"
  by (simp add: rewriteHtmlElement_def removeWhitespaceTextNodes_eq translateJSXPropertyNames_eq
        promote_eq removeDuplicateProperties_eq uniqueProperties_keepLastNamed)

declare tfHtmlElement.simps [simp del]

lemma tfHtmlElement_eq:
  "tfHtmlElement (HtmlElement tag ps cs l) =
     HtmlElement tag
       (map tfProperty
          (keepLastNamed ((if rxLowerStart tag then map translateProperty ps else ps)
                          @ promotedProperties tag (filter (\<lambda>c. \<not> isWsText c) cs))))
       (map tfChild (remainingContent tag (filter (\<lambda>c. \<not> isWsText c) cs))) l"
  by (simp add: tfHtmlElement.simps rewriteHtmlElement_eq)

lemma keepLastNamed_snoc:
  "keepLastNamed (ps @ [q]) =
     (if isMixin q then keepLastNamed ps @ [q]
      else filter (\<lambda>p. isMixin p \<or> propertyName p \<noteq> propertyName q) (keepLastNamed ps) @ [q])"
  by (induction ps) (auto simp: list_ex_iff)

lemma tfProperty_name [simp]: "propertyName (tfProperty p) = propertyName p"
  by (cases p) simp_all

lemma tfProperty_isMixin [simp]: "isMixin (tfProperty p) = isMixin p"
  by (cases p) (simp_all add: isMixin_def)

lemma translateProperty_isMixin [simp]: "isMixin (translateProperty p) = isMixin p"
  by (cases p) (simp_all add: isMixin_def translateProperty_def)

subsection \<open>C4: property names after the transforms\<close>


definition propertiesOf :: "element \<Rightarrow> property list" where
  "propertiesOf e = (case e of HtmlElement tag ps cs l \<Rightarrow> ps)"

definition namesDistinct :: "element \<Rightarrow> bool" where
  "namesDistinct e = distinct (map propertyName (filter (\<lambda>p. \<not> isMixin p) (propertiesOf e)))"

fun everySegment :: "(element \<Rightarrow> bool) \<Rightarrow> segment \<Rightarrow> bool"
  and everyElement :: "(element \<Rightarrow> bool) \<Rightarrow> element \<Rightarrow> bool"
  and everyProperty :: "(element \<Rightarrow> bool) \<Rightarrow> property \<Rightarrow> bool"
  and everyChild :: "(element \<Rightarrow> bool) \<Rightarrow> child \<Rightarrow> bool"
where
  "everySegment P (CodeText t l) = True"
| "everySegment P (SegElement e) = everyElement P e"
| "everyElement P (HtmlElement tag ps cs l) =
     (P (HtmlElement tag ps cs l) \<and> list_all (everyProperty P) ps \<and> list_all (everyChild P) cs)"
| "everyProperty P (StaticProperty name v) = True"
| "everyProperty P (DynamicProperty name code l) = list_all (everySegment P) code"
| "everyProperty P (Mixin code l) = list_all (everySegment P) code"
| "everyChild P (ChildElement e) = everyElement P e"
| "everyChild P (HtmlText t) = True"
| "everyChild P (HtmlComment t) = True"
| "everyChild P (HtmlInsert code l) = list_all (everySegment P) code"

lemma map_tfProperty_names:
  "map propertyName (filter (\<lambda>p. \<not> isMixin p) (map tfProperty ps)) =
   map propertyName (filter (\<lambda>p. \<not> isMixin p) ps)"
  by (induction ps) auto

lemma rewrite_namesDistinct:
  "rewriteHtmlElement node = HtmlElement tag ps cs l \<Longrightarrow>
     distinct (map propertyName (filter (\<lambda>p. \<not> isMixin p) ps))"
  by (cases node) (auto simp: rewriteHtmlElement_eq keepLastNamed_distinct)

lemma transform_namesDistinct:
  "everyElement namesDistinct (tfHtmlElement node)"
  "everyProperty namesDistinct (tfProperty p)"
  "everyChild namesDistinct (tfChild c)"
  "everySegment namesDistinct (tfSegment sg)"
proof (induction node and p and c and sg rule: tfHtmlElement_tfProperty_tfChild_tfSegment.induct)
  case (1 node)
  obtain tag ps cs l where r: "rewriteHtmlElement node = HtmlElement tag ps cs l"
    by (cases "rewriteHtmlElement node")
  from 1 r have ps: "list_all (everyProperty namesDistinct) (map tfProperty ps)"
    and cs: "list_all (everyChild namesDistinct) (map tfChild cs)"
    by (auto simp: list_all_iff)
  from rewrite_namesDistinct [OF r]
  have "namesDistinct (HtmlElement tag (map tfProperty ps) (map tfChild cs) l)"
    by (simp add: namesDistinct_def propertiesOf_def map_tfProperty_names)
  with ps cs r show ?case by (simp add: tfHtmlElement.simps)
qed (auto simp: list_all_iff)

text \<open>
  C4 as stated: of several same-named properties of the parsed element, the occurrence
  kept is the last one in source order. It is not always one of them: names are
  translated and \<open>textContent\<close> is appended before duplicates are removed. In
  \<open><div onclick={a} onclick={b} onClick={c}>\<close> the property kept under the name
  \<open>onclick\<close> is \<open>c\<close>, not \<open>b\<close>; in \<open><div textContent="1" textContent="2">hi</div>\<close>
  neither parsed property is kept.
\<close>

theorem C4_last_parsed_occurrence_not_kept:
  "tfHtmlElement (HtmlElement ''div''
       [DynamicProperty ''onclick'' [CodeText ''a'' (at 0 22 21)] (at 0 13 13),
        DynamicProperty ''onclick'' [CodeText ''b'' (at 0 34 33)] (at 0 25 25),
        DynamicProperty ''onClick'' [CodeText ''c'' (at 0 46 45)] (at 0 37 37)] [] (at 0 8 8)) =
     HtmlElement ''div'' [DynamicProperty ''onclick'' [CodeText ''c'' (at 0 46 45)] (at 0 37 37)] []
       (at 0 8 8)
   \<and> tfHtmlElement (HtmlElement ''div''
       [StaticProperty ''textContent'' ''\"1\"'', StaticProperty ''textContent'' ''\"2\"'']
       [HtmlText ''hi''] (at 0 8 8)) =
     HtmlElement ''div'' [StaticProperty ''textContent'' (codeStr ''hi'')] [] (at 0 8 8)"
  by code_simp

text \<open>
  C4, amended: after the transform pipeline, the names of the non-Mixin properties of
  every element of the resulting AST are pairwise distinct. Duplicates are removed from
  the property list as it stands after event names have been translated and the promoted
  \<open>textContent\<close> property has been appended: of several non-Mixin properties of one name
  in that list the last is kept. Mixins are exempt and all retained, in their order.
\<close>

theorem C4_property_names_unique:
  "list_all (everySegment namesDistinct) (transform ast)
   \<and> propertiesOf (tfHtmlElement (HtmlElement tag ps cs l)) =
       map tfProperty
         (keepLastNamed ((if rxLowerStart tag then map translateProperty ps else ps)
                         @ promotedProperties tag (filter (\<lambda>c. \<not> isWsText c) cs)))
   \<and> filter isMixin (propertiesOf (tfHtmlElement (HtmlElement tag ps cs l))) =
       map tfProperty (filter isMixin ps)"
proof -
  have a: "list_all (everySegment namesDistinct) (transform ast)"
    by (simp add: transform_def list_all_iff transform_namesDistinct)
  have b: "propertiesOf (tfHtmlElement (HtmlElement tag ps cs l)) =
       map tfProperty
         (keepLastNamed ((if rxLowerStart tag then map translateProperty ps else ps)
                         @ promotedProperties tag (filter (\<lambda>c. \<not> isWsText c) cs)))"
    by (simp add: tfHtmlElement_eq propertiesOf_def)
  have m1: "filter isMixin (map tfProperty xs) = map tfProperty (filter isMixin xs)" for xs
    by (induction xs) auto
  have m2: "filter isMixin (map translateProperty xs) = filter isMixin xs" for xs
    by (induction xs) (auto simp: translateProperty_def isMixin_def split: property.splits)
  have m3: "filter isMixin (promotedProperties tag xs) = []" for xs
    by (simp add: promotedProperties_def isMixin_def split: list.splits child.splits)
  have c: "filter isMixin (propertiesOf (tfHtmlElement (HtmlElement tag ps cs l))) =
       map tfProperty (filter isMixin ps)"
    by (simp add: b m1 keepLastNamed_mixins m2 m3)
  from a b c show ?thesis by blast
qed

subsection \<open>C10: promotion of the first Text child\<close>

text \<open>
  C10 as stated: every lowercase-tag element whose first child is a Text node has that
  child promoted to \<open>textContent\<close>. It fails when the text is white space only:
  \<open>removeWhitespaceTextNodes\<close> runs first and drops the child, and nothing is promoted
  (here the parsed content of \<open><div> <b></b></div>\<close>).
\<close>

theorem C10_whitespace_text_not_promoted:
  "tfHtmlElement (HtmlElement ''div'' [] [HtmlText '' '', ChildElement (HtmlElement ''b'' [] [] (at 0 14 14))] (at 0 8 8))
     = HtmlElement ''div'' [] [ChildElement (HtmlElement ''b'' [] [] (at 0 14 14))] (at 0 8 8)"
  by code_simp

text \<open>
  C10, amended: for every lowercase-tag element whose first child is a Text node that is
  not white space only, the transform pipeline appends the StaticProperty \<open>textContent\<close>
  with value \<open>codeStr\<close> of that text as the last property (a parsed property of that
  name gives way to it), removes that first child only and keeps the remaining children
  in their order (white-space-only Text children dropped, the others transformed in turn),
  also when the element has further children.
\<close>

theorem C10_first_text_promoted:
  assumes "rxLowerStart tag" and "\<not> rxWs t"
  shows "tfHtmlElement (HtmlElement tag ps (HtmlText t # cs) l) =
           HtmlElement tag
             (map tfProperty
                (filter (\<lambda>p. isMixin p \<or> propertyName p \<noteq> ''textContent'')
                   (keepLastNamed (map translateProperty ps)))
              @ [StaticProperty ''textContent'' (codeStr t)])
             (map tfChild (filter (\<lambda>c. \<not> isWsText c) cs)) l"
  using assms
  by (simp add: tfHtmlElement_eq promotedProperties_def remainingContent_def isWsText_def
        keepLastNamed_snoc isMixin_def)

theorem C10_first_text_promoted_witness:
  "rxLowerStart ''div'' \<and> \<not> rxWs ''hi''
   \<and> tfHtmlElement (HtmlElement ''div'' [StaticProperty ''id'' ''x'']
         [HtmlText ''hi'', HtmlText '' '', ChildElement (HtmlElement ''b'' [] [] (at 0 14 14)), HtmlText ''ho'']
         (at 0 8 8)) =
       HtmlElement ''div'' [StaticProperty ''id'' ''x'', StaticProperty ''textContent'' (codeStr ''hi'')]
         [ChildElement (HtmlElement ''b'' [] [] (at 0 14 14)), HtmlText ''ho''] (at 0 8 8)"
proof -
  have a: "rxLowerStart ''div''" by (simp add: rxLowerStart_def isLower_def)
  have b: "\<not> rxWs ''hi''" by (simp add: rxWs_def isSpace_def)
  show ?thesis
    using C10_first_text_promoted [OF a b, of "[StaticProperty ''id'' ''x'']"
        "[HtmlText '' '', ChildElement (HtmlElement ''b'' [] [] (at 0 14 14)), HtmlText ''ho'']" "at 0 8 8"] a b
    by (simp add: translateProperty_def isMixin_def isWsText_def rxWs_def isSpace_def
          tfHtmlElement_eq promotedProperties_def remainingContent_def)
qed

subsection \<open>C7: the transforms applied twice\<close>

text \<open>
  The transforms need not leave every tree unchanged when applied again: of two Text children
  in a row the first is promoted by the first pass and the second by the next one. The parser
  never builds such a tree, since \<open>htmlText\<close> takes all the tokens up to the next tag, insert
  or comment. \<open>textsApart\<close> is that property of an element, and the transforms are idempotent
  on the trees that have it everywhere.
\<close>

fun apart :: "child list \<Rightarrow> bool" where
  \<comment> \<open>no two Text nodes are neighbours\<close>
  "apart [] = True"
| "apart [c] = True"
| "apart (c # d # r) = (\<not> (isHtmlText c \<and> isHtmlText d) \<and> apart (d # r))"

definition textsApart :: "element \<Rightarrow> bool" where
  "textsApart e = (case e of HtmlElement tag ps cs l \<Rightarrow> apart cs)"

lemma isWsText_isHtmlText: "isWsText c \<Longrightarrow> isHtmlText c"
  by (cases c) (simp_all add: isWsText_def isHtmlText_def)

lemma apart_Cons: "apart (c # r) = ((r = [] \<or> \<not> (isHtmlText c \<and> isHtmlText (hd r))) \<and> apart r)"
  by (cases r) auto

lemma hd_filter_nonText:
  "r \<noteq> [] \<Longrightarrow> \<not> isHtmlText (hd r) \<Longrightarrow> filter (\<lambda>c. \<not> isWsText c) r \<noteq> [] \<and>
     hd (filter (\<lambda>c. \<not> isWsText c) r) = hd r"
  by (cases r) (auto dest: isWsText_isHtmlText)

lemma apart_filter: "apart cs \<Longrightarrow> apart (filter (\<lambda>c. \<not> isWsText c) cs)"
proof (induction cs)
  case Nil
  then show ?case by simp
next
  case (Cons c r)
  then have r: "apart r" and IH: "apart (filter (\<lambda>c. \<not> isWsText c) r)"
    by (auto simp: apart_Cons)
  show ?case
  proof (cases "isWsText c")
    case True
    with IH show ?thesis by simp
  next
    case False
    show ?thesis
    proof (cases "isHtmlText c \<and> r \<noteq> []")
      case True
      with Cons.prems have "\<not> isHtmlText (hd r)" by (auto simp: apart_Cons)
      with True hd_filter_nonText [of r] False IH show ?thesis
        by (auto simp: apart_Cons)
    next
      case nt: False
      with False IH show ?thesis by (auto simp: apart_Cons)
    qed
  qed
qed

lemma tfChild_isHtmlText [simp]: "isHtmlText (tfChild c) = isHtmlText c"
  by (cases c) (simp_all add: isHtmlText_def)

lemma tfChild_isWsText [simp]: "isWsText (tfChild c) = isWsText c"
  by (cases c) (simp_all add: isWsText_def)

lemma filter_nonWs_map_tfChild:
  "filter (\<lambda>c. \<not> isWsText c) (map tfChild cs) = map tfChild (filter (\<lambda>c. \<not> isWsText c) cs)"
  by (induction cs) auto

lemma remainingContent_subset: "set (remainingContent tag cs) \<subseteq> set cs"
  by (auto simp: remainingContent_def split: list.splits child.splits if_splits)

lemma remaining_no_leading_text:
  assumes "apart cs"
  shows "promotedProperties tag (map tfChild (remainingContent tag cs)) = []"
    and "remainingContent tag (map tfChild (remainingContent tag cs)) = map tfChild (remainingContent tag cs)"
proof -
  have "rxLowerStart tag \<Longrightarrow> remainingContent tag cs = [] \<or> \<not> isHtmlText (hd (remainingContent tag cs))"
    using assms
    by (cases cs; cases "hd cs"; cases "tl cs")
       (auto simp: remainingContent_def isHtmlText_def split: list.splits child.splits)
  then have *: "rxLowerStart tag \<Longrightarrow>
      map tfChild (remainingContent tag cs) = [] \<or> \<not> isHtmlText (hd (map tfChild (remainingContent tag cs)))"
    by (cases "remainingContent tag cs") auto
  show "promotedProperties tag (map tfChild (remainingContent tag cs)) = []"
    using * by (auto simp: promotedProperties_def isHtmlText_def split: list.splits child.splits)
  show "remainingContent tag (map tfChild (remainingContent tag cs)) = map tfChild (remainingContent tag cs)"
    using * by (auto simp: remainingContent_def isHtmlText_def split: list.splits child.splits)
qed

lemma keepLastNamed_id:
  "distinct (map propertyName (filter (\<lambda>p. \<not> isMixin p) ps)) \<Longrightarrow> keepLastNamed ps = ps"
proof (induction ps)
  case Nil
  then show ?case by simp
next
  case (Cons p ps)
  then have IH: "keepLastNamed ps = ps" by (auto split: if_splits)
  have "\<not> (\<not> isMixin p \<and> list_ex (\<lambda>q. \<not> isMixin q \<and> propertyName q = propertyName p) ps)"
  proof
    assume a: "\<not> isMixin p \<and> list_ex (\<lambda>q. \<not> isMixin q \<and> propertyName q = propertyName p) ps"
    then obtain q where q: "q \<in> set ps" "\<not> isMixin q" "propertyName q = propertyName p"
      by (auto simp: list_ex_iff)
    then have "propertyName p \<in> set (map propertyName (filter (\<lambda>p. \<not> isMixin p) ps))"
      by (auto simp: image_iff intro!: bexI [of _ q])
    with a Cons.prems show False by simp
  qed
  with IH show ?case by simp
qed

lemma toLowerChar_upper_letters:
  "list_all (\<lambda>c. \<not> isUpper (toLowerChar c)) ''ABCDEFGHIJKLMNOPQRSTUVWXYZ''"
  by code_simp

lemma toLowerChar_not_upper: "isUpper c \<Longrightarrow> \<not> isUpper (toLowerChar c)"
  using toLowerChar_upper_letters unfolding list_all_iff isUpper_def [of c] by blast

lemma translateJSXPropertyName_idem:
  "translateJSXPropertyName (translateJSXPropertyName name) = translateJSXPropertyName name"
proof (cases "rxJsxEventProperty name")
  case False
  then show ?thesis by (simp add: translateJSXPropertyName_def)
next
  case True
  then obtain c r where n: "name = CHR ''o'' # CHR ''n'' # c # r" and c: "isUpper c"
    by (auto simp: rxJsxEventProperty_def split: list.splits)
  have o: "toLowerChar (CHR ''o'') = CHR ''o''" "toLowerChar (CHR ''n'') = CHR ''n''"
    by (simp_all add: toLowerChar_def isUpper_def)
  have "\<not> rxJsxEventProperty (toLowerCase name)"
    using n toLowerChar_not_upper [OF c] by (simp add: rxJsxEventProperty_def toLowerCase_def o)
  moreover have "\<not> rxJsxEventProperty ''ondblclick''"
    by (simp add: rxJsxEventProperty_def isUpper_def)
  ultimately show ?thesis using True by (simp add: translateJSXPropertyName_def)
qed

lemma translateProperty_idem: "translateProperty (translateProperty p) = translateProperty p"
  by (cases p) (simp_all add: translateProperty_def translateJSXPropertyName_idem)

lemma translateProperty_tfProperty:
  "translateProperty (tfProperty p) = tfProperty (translateProperty p)"
  by (cases p) (simp_all add: translateProperty_def)

lemma translateProperty_every [simp]:
  "everyProperty P (translateProperty p) = everyProperty P p"
  by (cases p) (simp_all add: translateProperty_def)

lemma promotedProperties_every:
  "p \<in> set (promotedProperties tag cs) \<Longrightarrow> everyProperty P p \<and> translateProperty p = p"
  by (auto simp: promotedProperties_def translateProperty_def split: list.splits child.splits if_splits)

lemma transform_idempotent_aux:
  "everyElement textsApart node \<longrightarrow> tfHtmlElement (tfHtmlElement node) = tfHtmlElement node"
  "everyProperty textsApart p \<longrightarrow> tfProperty (tfProperty p) = tfProperty p"
  "everyChild textsApart c \<longrightarrow> tfChild (tfChild c) = tfChild c"
  "everySegment textsApart sg \<longrightarrow> tfSegment (tfSegment sg) = tfSegment sg"
proof (induction node and p and c and sg rule: tfHtmlElement_tfProperty_tfChild_tfSegment.induct)
  case (1 node)
  show ?case
  proof
    assume wf: "everyElement textsApart node"
    obtain tag ps cs l where node: "node = HtmlElement tag ps cs l" by (cases node)
    define cs1 where "cs1 = filter (\<lambda>c. \<not> isWsText c) cs"
    define ps1 where "ps1 = (if rxLowerStart tag then map translateProperty ps else ps)"
    define ps' where "ps' = keepLastNamed (ps1 @ promotedProperties tag cs1)"
    define cs' where "cs' = remainingContent tag cs1"
    have r: "rewriteHtmlElement node = HtmlElement tag ps' cs' l"
      by (simp add: node rewriteHtmlElement_eq ps'_def cs'_def ps1_def cs1_def)
    from wf node have wps: "list_all (everyProperty textsApart) ps"
      and wcs: "list_all (everyChild textsApart) cs" and ap: "apart cs"
      by (simp_all add: textsApart_def)
    have sub_cs: "set cs' \<subseteq> set cs"
      using remainingContent_subset [of tag cs1] by (auto simp: cs'_def cs1_def)
    have sub_ps: "set ps' \<subseteq> set ps1 \<union> set (promotedProperties tag cs1)"
      using keepLastNamed_subset [of "ps1 @ promotedProperties tag cs1"] by (simp add: ps'_def)
    have ps1_every: "q \<in> set ps1 \<Longrightarrow> everyProperty textsApart q" for q
      using wps by (auto simp: ps1_def list_all_iff split: if_splits)
    have ps'_every: "q \<in> set ps' \<Longrightarrow> everyProperty textsApart q" for q
      using sub_ps ps1_every promotedProperties_every by blast
    have ps'_tr: "rxLowerStart tag \<Longrightarrow> q \<in> set ps' \<Longrightarrow> translateProperty q = q" for q
      using sub_ps promotedProperties_every [of q tag cs1]
      by (auto simp: ps1_def translateProperty_idem)
    have IHp: "q \<in> set ps' \<Longrightarrow> tfProperty (tfProperty q) = tfProperty q" for q
      using "1.IH"(1) [OF r] ps'_every by blast
    have IHc: "d \<in> set cs' \<Longrightarrow> tfChild (tfChild d) = tfChild d" for d
      using "1.IH"(2) [OF r] sub_cs wcs by (auto simp: list_all_iff)
    have t: "tfHtmlElement node = HtmlElement tag (map tfProperty ps') (map tfChild cs') l"
      using r by (simp add: tfHtmlElement.simps)
    have nonws: "filter (\<lambda>c. \<not> isWsText c) (map tfChild cs') = map tfChild cs'"
    proof -
      have "filter (\<lambda>c. \<not> isWsText c) cs' = cs'"
        using remainingContent_subset [of tag cs1] by (auto simp: cs'_def cs1_def filter_id_conv)
      then show ?thesis by (simp add: filter_nonWs_map_tfChild)
    qed
    have ap1: "apart cs1" using ap by (simp add: cs1_def apart_filter)
    have prom: "promotedProperties tag (map tfChild cs') = []"
      and rem: "remainingContent tag (map tfChild cs') = map tfChild cs'"
      using remaining_no_leading_text [OF ap1, of tag] by (simp_all add: cs'_def)
    have tr: "(if rxLowerStart tag then map translateProperty (map tfProperty ps') else map tfProperty ps')
              = map tfProperty ps'"
      using ps'_tr by (auto simp: translateProperty_tfProperty)
    have dist: "distinct (map propertyName (filter (\<lambda>p. \<not> isMixin p) (map tfProperty ps')))"
      by (simp add: map_tfProperty_names ps'_def keepLastNamed_distinct)
    have "tfHtmlElement (HtmlElement tag (map tfProperty ps') (map tfChild cs') l) =
          HtmlElement tag (map tfProperty (map tfProperty ps')) (map tfChild (map tfChild cs')) l"
      by (simp only: tfHtmlElement_eq nonws prom rem tr append_Nil2 keepLastNamed_id [OF dist])
    also have "\<dots> = HtmlElement tag (map tfProperty ps') (map tfChild cs') l"
      using IHp IHc by simp
    finally show "tfHtmlElement (tfHtmlElement node) = tfHtmlElement node"
      by (simp add: t)
  qed
qed (auto simp: list_all_iff)

lemma transform_idempotent_wf:
  "list_all (everySegment textsApart) ast \<Longrightarrow> transform (transform ast) = transform ast"
  using transform_idempotent_aux(4) by (auto simp: transform_def list_all_iff)

text \<open>
  What the parser returns has the property. \<open>yields r Q\<close> says that \<open>Q\<close> holds of the result
  and state of a production that returned; \<open>sound opts r\<close> collects what is needed of each
  of the productions in the record \<open>r\<close>.
\<close>

definition yields :: "'a outcome \<Rightarrow> ('a \<Rightarrow> pstate \<Rightarrow> bool) \<Rightarrow> bool" where
  \<comment> \<open>a property of what a production returns, when it returns\<close>
  "yields r Q = (case r of Done x s \<Rightarrow> Q x s | Fail m l \<Rightarrow> True | Stuck \<Rightarrow> True)"

lemma yields_simps [simp]:
  "yields (Done x s) Q = Q x s"
  "yields (Fail m l) Q = True"
  "yields Stuck Q = True"
  "yields (ERR m l) Q = True"
  by (simp_all add: yields_def ERR_def)

lemma yields_andThen: "yields (andThen r f) Q = yields r (\<lambda>x s. yields (f x s) Q)"
  by (cases r) (simp_all add: andThen_def)

lemma yields_weaken: "yields r Q \<Longrightarrow> (\<And>x s. Q x s \<Longrightarrow> Q' x s) \<Longrightarrow> yields r Q'"
  by (cases r) simp_all

lemma yields_True [simp]: "yields r (\<lambda>x s. True)"
  by (cases r) simp_all

definition textCond :: "params \<Rightarrow> pstate \<Rightarrow> bool" where
  \<comment> \<open>the condition of the loop of \<open>htmlText\<close>\<close>
  "textCond opts s =
     (\<not> EOF s \<and> NOT ''<'' s \<and> NOT ''<!--'' s
      \<and> (if jsx opts then NOT ''{'' s else NOT ''@'' s) \<and> NOT ''</'' s)"

lemma htmlTextLoop_stops: "htmlTextLoop opts acc s = (t, s1) \<Longrightarrow> \<not> textCond opts s1"
proof (induction opts acc s rule: htmlTextLoop.induct)
  case (1 opts acc s)
  show ?case
  proof (cases "textCond opts s")
    case True
    with "1.prems" have "htmlTextLoop opts (acc @ TOK s) (NEXT s) = (t, s1)"
      by (subst (asm) htmlTextLoop.simps) (simp add: textCond_def split: if_splits)
    with "1.IH" True show ?thesis by (simp add: textCond_def)
  next
    case False
    with "1.prems" have "s1 = s"
      by (subst (asm) htmlTextLoop.simps) (auto simp: textCond_def split: if_splits)
    with False show ?thesis by simp
  qed
qed

abbreviation okS :: "segment \<Rightarrow> bool" where "okS \<equiv> everySegment textsApart"
abbreviation okP :: "property \<Rightarrow> bool" where "okP \<equiv> everyProperty textsApart"
abbreviation okC :: "child \<Rightarrow> bool" where "okC \<equiv> everyChild textsApart"
abbreviation okE :: "element \<Rightarrow> bool" where "okE \<equiv> everyElement textsApart"

lemma yields_htmlText:
  "yields (htmlText opts s) (\<lambda>c s'. isHtmlText c \<and> okC c \<and> \<not> textCond opts s')"
  by (auto simp: htmlText_def isHtmlText_def split: prod.splits dest: htmlTextLoop_stops)

lemma yields_htmlComment: "yields (htmlComment s) (\<lambda>c s'. \<not> isHtmlText c \<and> okC c)"
  by (auto simp: htmlComment_def isHtmlText_def Let_def split: prod.splits)

definition contentInv :: "params \<Rightarrow> child list \<Rightarrow> pstate \<Rightarrow> bool" where
  "contentInv opts cs s =
     (list_all okC cs \<and> apart cs \<and> (cs \<noteq> [] \<and> isHtmlText (last cs) \<longrightarrow> \<not> textCond opts s))"

definition sound :: "params \<Rightarrow> productions \<Rightarrow> bool" where
  "sound opts r =
     ((\<forall>s. yields (htmlElement r s) (\<lambda>e s'. okE e))
      \<and> (\<forall>ps s. list_all okP ps \<longrightarrow> yields (propertiesLoop r ps s) (\<lambda>ps' s'. list_all okP ps'))
      \<and> (\<forall>cs s. contentInv opts cs s \<longrightarrow>
            yields (contentLoop r cs s) (\<lambda>cs' s'. list_all okC cs' \<and> apart cs'))
      \<and> (\<forall>s. yields (htmlInsert r s) (\<lambda>c s'. \<not> isHtmlText c \<and> okC c))
      \<and> (\<forall>s. yields (jsxHtmlInsert r s) (\<lambda>c s'. \<not> isHtmlText c \<and> okC c))
      \<and> (\<forall>s. yields (property r s) (\<lambda>p s'. okP p))
      \<and> (\<forall>s. yields (mixin r s) (\<lambda>p s'. okP p))
      \<and> (\<forall>s. yields (jsxMixin r s) (\<lambda>p s'. okP p))
      \<and> (\<forall>s. yields (embeddedCode r s) (\<lambda>code s'. list_all okS code))
      \<and> (\<forall>segs t l s. list_all okS segs \<longrightarrow>
            yields (embeddedCodeLoop r segs t l s) (\<lambda>acc s'. list_all okS (fst acc)))
      \<and> (\<forall>s. yields (jsxEmbeddedCode r s) (\<lambda>code s'. list_all okS code))
      \<and> (\<forall>segs t l s. list_all okS segs \<longrightarrow>
            yields (balancedParens r segs t l s) (\<lambda>acc s'. list_all okS (fst acc)))
      \<and> (\<forall>e segs t l s. list_all okS segs \<longrightarrow>
            yields (balancedParensLoop r e segs t l s) (\<lambda>acc s'. list_all okS (fst acc))))"

lemma soundD:
  assumes "sound opts r"
  shows "yields (htmlElement r s) (\<lambda>e s'. okE e)"
    and "list_all okP ps \<Longrightarrow> yields (propertiesLoop r ps s) (\<lambda>ps' s'. list_all okP ps')"
    and "contentInv opts cs s \<Longrightarrow> yields (contentLoop r cs s) (\<lambda>cs' s'. list_all okC cs' \<and> apart cs')"
    and "yields (htmlInsert r s) (\<lambda>c s'. \<not> isHtmlText c \<and> okC c)"
    and "yields (jsxHtmlInsert r s) (\<lambda>c s'. \<not> isHtmlText c \<and> okC c)"
    and "yields (property r s) (\<lambda>p s'. okP p)"
    and "yields (mixin r s) (\<lambda>p s'. okP p)"
    and "yields (jsxMixin r s) (\<lambda>p s'. okP p)"
    and "yields (embeddedCode r s) (\<lambda>code s'. list_all okS code)"
    and "list_all okS segs \<Longrightarrow> yields (embeddedCodeLoop r segs t l s) (\<lambda>acc s'. list_all okS (fst acc))"
    and "yields (jsxEmbeddedCode r s) (\<lambda>code s'. list_all okS code)"
    and "list_all okS segs \<Longrightarrow> yields (balancedParens r segs t l s) (\<lambda>acc s'. list_all okS (fst acc))"
    and "list_all okS segs \<Longrightarrow> yields (balancedParensLoop r e segs t l s) (\<lambda>acc s'. list_all okS (fst acc))"
  using assms by (simp_all add: sound_def)

lemma apart_snoc:
  "apart (cs @ [c]) = (apart cs \<and> (cs = [] \<or> \<not> (isHtmlText (last cs) \<and> isHtmlText c)))"
  by (induction cs rule: apart.induct) auto



lemma yields_quotedString: "(\<And>x s'. Q x s') \<Longrightarrow> yields (quotedString s) Q"
  by (cases "quotedString s") simp_all

lemma yields_codeSingleLineComment:
  "(\<And>x s'. Q x s') \<Longrightarrow> yields (codeSingleLineComment s) Q"
  by (cases "codeSingleLineComment s") simp_all

lemma yields_codeMultiLineComment:
  "(\<And>x s'. Q x s') \<Longrightarrow> yields (codeMultiLineComment s) Q"
  by (cases "codeMultiLineComment s") simp_all

lemmas strings = yields_quotedString yields_codeSingleLineComment yields_codeMultiLineComment

lemmas calls = soundD [THEN yields_weaken]

lemma htmlElementBody_sound:
  assumes "sound opts r"
  shows "yields (htmlElementBody r s) (\<lambda>e s'. okE e)"
  unfolding htmlElementBody_def
  by (auto simp: Let_def yields_andThen textsApart_def contentInv_def
      split: prod.splits intro!: calls [OF assms])

lemma propertiesLoopBody_sound:
  assumes "sound opts r" and "list_all okP ps"
  shows "yields (propertiesLoopBody opts r ps s) (\<lambda>ps' s'. list_all okP ps')"
  unfolding propertiesLoopBody_def using assms(2)
  by (auto simp: Let_def yields_andThen split: prod.splits intro!: calls [OF assms(1)] strings)

lemma contentLoopBody_sound:
  assumes "sound opts r" and "contentInv opts cs s"
  shows "yields (contentLoopBody opts r cs s) (\<lambda>cs' s'. list_all okC cs' \<and> apart cs')"
  unfolding contentLoopBody_def using assms(2)
  by (auto simp: Let_def yields_andThen contentInv_def apart_snoc textCond_def IS_def NOT_def
      isHtmlText_def
      split: prod.splits if_splits
      intro!: calls [OF assms(1)] yields_weaken [OF yields_htmlText]
        yields_weaken [OF yields_htmlComment])

lemma htmlInsertBody_sound:
  assumes "sound opts r"
  shows "yields (htmlInsertBody r s) (\<lambda>c s'. \<not> isHtmlText c \<and> okC c)"
  unfolding htmlInsertBody_def
  by (auto simp: Let_def yields_andThen isHtmlText_def split: prod.splits
      intro!: calls [OF assms])

lemma jsxHtmlInsertBody_sound:
  assumes "sound opts r"
  shows "yields (jsxHtmlInsertBody r s) (\<lambda>c s'. \<not> isHtmlText c \<and> okC c)"
  unfolding jsxHtmlInsertBody_def
  by (auto simp: Let_def yields_andThen isHtmlText_def split: prod.splits
      intro!: calls [OF assms])

lemma propertyBody_sound:
  assumes "sound opts r"
  shows "yields (propertyBody opts r s) (\<lambda>p s'. okP p)"
  unfolding propertyBody_def
  by (auto simp: Let_def yields_andThen split: prod.splits intro!: calls [OF assms])

lemma mixinBody_sound:
  assumes "sound opts r"
  shows "yields (mixinBody r s) (\<lambda>p s'. okP p)"
  unfolding mixinBody_def
  by (auto simp: Let_def yields_andThen split: prod.splits intro!: calls [OF assms])

lemma jsxMixinBody_sound:
  assumes "sound opts r"
  shows "yields (jsxMixinBody r s) (\<lambda>p s'. okP p)"
  unfolding jsxMixinBody_def
  by (auto simp: Let_def yields_andThen split: prod.splits intro!: calls [OF assms])

lemma embeddedCodeBody_sound:
  assumes "sound opts r"
  shows "yields (embeddedCodeBody r s) (\<lambda>code s'. list_all okS code)"
  unfolding embeddedCodeBody_def
  by (auto simp: Let_def yields_andThen split: prod.splits intro!: calls [OF assms])

lemma embeddedCodeLoopBody_sound:
  assumes "sound opts r" and "list_all okS segs"
  shows "yields (embeddedCodeLoopBody r segs t l s) (\<lambda>acc s'. list_all okS (fst acc))"
  unfolding embeddedCodeLoopBody_def using assms(2)
  by (auto simp: Let_def yields_andThen split: prod.splits intro!: calls [OF assms(1)] strings)

lemma jsxEmbeddedCodeBody_sound:
  assumes "sound opts r"
  shows "yields (jsxEmbeddedCodeBody r s) (\<lambda>code s'. list_all okS code)"
  unfolding jsxEmbeddedCodeBody_def
  by (auto simp: Let_def yields_andThen append_eq_Cons_conv
      split: prod.splits list.splits segment.splits intro!: calls [OF assms])

lemma balancedParensBody_sound:
  assumes "sound opts r" and "list_all okS segs"
  shows "yields (balancedParensBody r segs t l s) (\<lambda>acc s'. list_all okS (fst acc))"
  unfolding balancedParensBody_def using assms(2)
  by (auto simp: Let_def yields_andThen split: prod.splits option.splits
      intro!: calls [OF assms(1)] strings)

lemma balancedParensLoopBody_sound:
  assumes "sound opts r" and "list_all okS segs"
  shows "yields (balancedParensLoopBody r e segs t l s) (\<lambda>acc s'. list_all okS (fst acc))"
  unfolding balancedParensLoopBody_def using assms(2)
  by (auto simp: Let_def yields_andThen split: prod.splits intro!: calls [OF assms(1)] strings)

lemma sound_parserAt: "sound opts (parserAt opts n)"
proof (induction n)
  case 0
  show ?case by (simp add: sound_def)
next
  case (Suc n)
  show ?case
    unfolding sound_def
    by (simp add: Let_def htmlElementBody_sound [OF Suc] propertiesLoopBody_sound [OF Suc]
        contentLoopBody_sound [OF Suc] htmlInsertBody_sound [OF Suc]
        jsxHtmlInsertBody_sound [OF Suc] propertyBody_sound [OF Suc] mixinBody_sound [OF Suc]
        jsxMixinBody_sound [OF Suc] embeddedCodeBody_sound [OF Suc]
        embeddedCodeLoopBody_sound [OF Suc] jsxEmbeddedCodeBody_sound [OF Suc]
        balancedParensBody_sound [OF Suc] balancedParensLoopBody_sound [OF Suc])
qed

lemma codeTopLevelLoop_sound:
  "list_all okS segs \<Longrightarrow>
   yields (codeTopLevelLoop opts n segs t l s) (\<lambda>ast s'. list_all okS ast)"
proof (induction n arbitrary: segs t l s)
  case 0
  show ?case by simp
next
  case (Suc n)
  note IH = Suc.IH [THEN yields_weaken]
  from Suc.prems show ?case
    by (auto simp: Let_def yields_andThen
        intro!: IH yields_weaken [OF soundD(1) [OF sound_parserAt]] strings)
qed

lemma parse_sound:
  assumes "parse TOKS opts = Done ast s"
  shows "list_all okS ast"
proof -
  let ?s = "\<lparr>toks = TOKS, LINE = 0, COL = 0, POS = 0\<rparr>"
  have "yields (codeTopLevelLoop opts (parseFuel TOKS) [] [] (LOC ?s) ?s)
          (\<lambda>ast s'. list_all okS ast)"
    by (rule codeTopLevelLoop_sound) simp
  moreover from assms
  have "codeTopLevelLoop opts (parseFuel TOKS) [] [] (LOC ?s) ?s = Done ast s"
    by (simp add: parse_def Let_def)
  ultimately show ?thesis by simp
qed

text \<open>
  C7. For every list of tokens and every dialect, when the parser returns a tree, applying the
  transforms to the transformed tree gives the transformed tree again.
\<close>

theorem C7_transform_idempotent:
  "parse TOKS opts = Done ast s \<Longrightarrow> transform (transform ast) = transform ast"
  by (rule transform_idempotent_wf [OF parse_sound])

theorem C7_transform_idempotent_witness:
  "parse [''let x '', ''='', '' '', ''<'', ''div onClick'', ''='', ''{'', ''f'', ''}'', ''>'', ''hi'',
      ''</'', ''div'', ''>'', '';''] jsxParams =
     Done [CodeText ''let x = '' (at 0 0 0),
           SegElement (HtmlElement ''div''
             [DynamicProperty ''onClick'' [CodeText ''f'' (at 0 22 21)] (at 0 13 13)]
             [HtmlText ''hi''] (at 0 8 8)),
           CodeText '';'' (at 0 33 33)]
       \<lparr>toks = [], LINE = 0, COL = 34, POS = 34\<rparr>
   \<and> transform (transform [CodeText ''let x = '' (at 0 0 0),
           SegElement (HtmlElement ''div''
             [DynamicProperty ''onClick'' [CodeText ''f'' (at 0 22 21)] (at 0 13 13)]
             [HtmlText ''hi''] (at 0 8 8)),
           CodeText '';'' (at 0 33 33)]) =
       transform [CodeText ''let x = '' (at 0 0 0),
           SegElement (HtmlElement ''div''
             [DynamicProperty ''onClick'' [CodeText ''f'' (at 0 22 21)] (at 0 13 13)]
             [HtmlText ''hi''] (at 0 8 8)),
           CodeText '';'' (at 0 33 33)]"
  using C7_transform_idempotent [OF parse_onClick] parse_onClick by simp

subsection \<open>C2: elements that are calls of a component\<close>

text \<open>
  \<open>propertyValues\<close> are the values that the \<open>reduce\<close> of \<open>buildSubComponent\<close> computes, one
  for each property. \<open>groupedProperties\<close>, \<open>withChildren\<close> and \<open>subComponentCall\<close> follow the
  words of the specification: a run of properties that are no Mixin makes one object, a Mixin
  stands alone, the children go to the first group, and the call is \<open>Name(object)\<close> for a
  single object and \<open>Surplus.subcomponent(Name, [...])\<close> otherwise. They are compared below
  with \<open>subProperties\<close> and \<open>emitSubComponent\<close>.
\<close>

definition valueOf :: "params \<Rightarrow> property \<Rightarrow> error + string" where
  \<comment> \<open>\<open>value\<close> in \<open>buildSubComponent\<close>\<close>
  "valueOf opts p =
     (case p of
        StaticProperty name v \<Rightarrow> Inr v
      | DynamicProperty name code l \<Rightarrow> compileSegments opts code
      | Mixin code l \<Rightarrow> compileSegments opts code)"

fun propertyValues :: "params \<Rightarrow> property list \<Rightarrow> error + string list" where
  "propertyValues opts [] = Inr []"
| "propertyValues opts (p # ps) =
     orThrow (valueOf opts p) (\<lambda>v. orThrow (propertyValues opts ps) (\<lambda>vs. Inr (v # vs)))"

definition objectOf :: "(property \<times> string) list \<Rightarrow> (string \<times> string) list" where
  \<comment> \<open>the object literal of a run of properties and their values\<close>
  "objectOf run = fold (\<lambda>(p, v) obj. assign (propertyName p) v obj) run []"

function groupedProperties :: "(property \<times> string) list \<Rightarrow> propertyGroup list" where
  "groupedProperties [] = []"
| "groupedProperties ((p, v) # pvs) =
     (if isMixin p then MixinGroup v # groupedProperties pvs
      else ObjectGroup (objectOf ((p, v) # takeWhile (\<lambda>(q, w). \<not> isMixin q) pvs))
           # groupedProperties (dropWhile (\<lambda>(q, w). \<not> isMixin q) pvs))"
  by pat_completeness auto
termination
  by (relation "measure length") (auto simp: length_dropWhile_le less_Suc_eq_le)

definition childrenArray :: "string \<Rightarrow> string list \<Rightarrow> string" where
  "childrenArray ind children =
     (let nli = CRLF @ ind @ ''    ''; nlii = nli @ ''    ''
      in if children = [] then ''[]''
         else ''['' @ nlii @ join ('','' @ nlii) children @ nli @ '']'')"

definition withChildren :: "string \<Rightarrow> propertyGroup list \<Rightarrow> propertyGroup list" where
  \<comment> \<open>the children go to the first group, a fresh one when the first group is a Mixin\<close>
  "withChildren array groups =
     (case groups of
        ObjectGroup obj # rest \<Rightarrow> ObjectGroup (assign ''children'' array obj) # rest
      | _ \<Rightarrow> ObjectGroup [(''children'', array)] # groups)"

definition groupLiteral :: "string \<Rightarrow> propertyGroup \<Rightarrow> string" where
  "groupLiteral ind g =
     (case g of
        MixinGroup m \<Rightarrow> m
      | ObjectGroup obj \<Rightarrow>
          ''{'' @ join '','' (map (\<lambda>(p, v). CRLF @ ind @ ''    '' @ p @ '': '' @ v) obj)
          @ CRLF @ ind @ ''}'')"

definition subComponentCall :: "string \<Rightarrow> propertyGroup list \<Rightarrow> string \<Rightarrow> string \<Rightarrow> string" where
  \<comment> \<open>\<open>Name(object)\<close> for one group that is no Mixin, the call of \<open>Surplus.subcomponent\<close>
      otherwise\<close>
  "subComponentCall name groups array ind =
     (case groups of
        [ObjectGroup obj] \<Rightarrow>
          name @ ''('' @ groupLiteral ind (ObjectGroup (assign ''children'' array obj)) @ '')''
      | _ \<Rightarrow>
          ''Surplus.subcomponent('' @ name @ '', [''
          @ join '', '' (map (groupLiteral ind) (withChildren array groups)) @ ''])'')"

lemma orThrow_simps [simp]:
  "orThrow (Inl e) f = Inl e"
  "orThrow (Inr x) f = f x"
  by (simp_all add: orThrow_def)

lemma propertyValues_length: "propertyValues opts ps = Inr vs \<Longrightarrow> length vs = length ps"
proof (induction ps arbitrary: vs)
  case Nil
  then show ?case by simp
next
  case (Cons p ps)
  then show ?case
    by (cases "valueOf opts p"; cases "propertyValues opts ps") auto
qed

lemma subProperties_fold:
  "subProperties opts props ps =
     orThrow (propertyValues opts ps)
       (\<lambda>vs. Inr (foldl (\<lambda>g (p, v). addProperty g p v) props (zip ps vs)))"
proof (induction ps arbitrary: props)
  case Nil
  show ?case by simp
next
  case (Cons p ps)
  have v: "(case p of
              StaticProperty name v \<Rightarrow> Inr v
            | DynamicProperty name code l \<Rightarrow> compileSegmentsFrom opts [] code
            | Mixin code l \<Rightarrow> compileSegmentsFrom opts [] code) = valueOf opts p"
    by (cases p) (simp_all add: valueOf_def compileSegments_def)
  show ?case
    by (cases "valueOf opts p"; cases "propertyValues opts ps") (simp_all add: v Cons.IH)
qed

definition objectLast :: "propertyGroup list \<Rightarrow> bool" where
  "objectLast gs = (gs \<noteq> [] \<and> (case last gs of ObjectGroup obj \<Rightarrow> True | MixinGroup m \<Rightarrow> False))"

lemma foldl_run:
  "list_all (\<lambda>(q, w). \<not> isMixin q) run \<Longrightarrow>
   foldl (\<lambda>g (p, v). addProperty g p v) (gs @ [ObjectGroup obj]) run =
     gs @ [ObjectGroup (fold (\<lambda>(p, v) obj. assign (propertyName p) v obj) run obj)]"
  by (induction run arbitrary: obj) (auto simp: addProperty_def)

lemma foldl_groups:
  "\<not> objectLast gs \<or> pvs = [] \<or> isMixin (fst (hd pvs)) \<Longrightarrow>
   foldl (\<lambda>g (p, v). addProperty g p v) gs pvs = gs @ groupedProperties pvs"
proof (induction pvs arbitrary: gs rule: groupedProperties.induct)
  case 1
  show ?case by simp
next
  case (2 p v pvs)
  let ?nm = "\<lambda>(q, w). \<not> isMixin q"
  show ?case
  proof (cases "isMixin p")
    case True
    have "\<not> objectLast (gs @ [MixinGroup v])" by (simp add: objectLast_def)
    from "2.IH"(1) [OF True, of "gs @ [MixinGroup v]"] this True show ?thesis
      by (simp add: addProperty_def)
  next
    case False
    with "2.prems" have gs: "\<not> objectLast gs" by simp
    then have a: "addProperty gs p v = gs @ [ObjectGroup [(propertyName p, v)]]"
      using False by (auto simp: addProperty_def objectLast_def split: propertyGroup.splits)
    have run: "list_all ?nm (takeWhile ?nm pvs)"
      by (simp add: list_all_iff) (meson set_takeWhileD)
    have rest: "dropWhile ?nm pvs = [] \<or> isMixin (fst (hd (dropWhile ?nm pvs)))"
      using hd_dropWhile [of ?nm pvs] by (auto simp: case_prod_beta)
    have "foldl (\<lambda>g (p, v). addProperty g p v) gs ((p, v) # pvs) =
          foldl (\<lambda>g (p, v). addProperty g p v) (gs @ [ObjectGroup [(propertyName p, v)]]) pvs"
      by (simp add: a)
    also have "\<dots> = foldl (\<lambda>g (p, v). addProperty g p v)
          (foldl (\<lambda>g (p, v). addProperty g p v) (gs @ [ObjectGroup [(propertyName p, v)]])
             (takeWhile ?nm pvs)) (dropWhile ?nm pvs)"
      using foldl_append [of "\<lambda>g (p, v). addProperty g p v" _ "takeWhile ?nm pvs" "dropWhile ?nm pvs"]
      by (simp only: takeWhile_dropWhile_id)
    also have "\<dots> = foldl (\<lambda>g (p, v). addProperty g p v)
          (gs @ [ObjectGroup (objectOf ((p, v) # takeWhile ?nm pvs))]) (dropWhile ?nm pvs)"
      by (simp add: foldl_run [OF run] objectOf_def)
    also have "\<dots> = (gs @ [ObjectGroup (objectOf ((p, v) # takeWhile ?nm pvs))])
          @ groupedProperties (dropWhile ?nm pvs)"
      using rest by (intro "2.IH"(2) [OF False]) auto
    finally show ?thesis using False by simp
  qed
qed

lemma groupedProperties_Nil: "(groupedProperties pvs = []) = (pvs = [])"
  by (cases pvs) (auto split: if_splits)

lemma emitSubComponent_groups:
  "gs \<noteq> [] \<Longrightarrow>
   emitSubComponent (SubComponent name gs children) ind =
     Inr (subComponentCall name gs (childrenArray ind children) ind)"
  by (cases gs; cases "hd gs"; cases "tl gs")
     (auto simp: emitSubComponent_def subComponentCall_def childrenArray_def withChildren_def
        groupLiteral_def [abs_def] CRLF_def Let_def split: list.splits propertyGroup.splits)

lemma compileHtmlElement_subComponent:
  assumes "rxUpperStart tag" and "ps \<noteq> []" and "propertyValues opts ps = Inr vs"
    and "subChildren opts cs = Inr children"
  shows "compileHtmlElement opts (HtmlElement tag ps cs l) ind =
           Inr (markLoc (subComponentCall tag (groupedProperties (zip ps vs))
                           (childrenArray ind children) ind) l opts)"
proof -
  have "length vs = length ps" using assms(3) by (rule propertyValues_length)
  with assms(2) have "zip ps vs \<noteq> []" by (cases ps; cases vs) auto
  then have ne: "groupedProperties (zip ps vs) \<noteq> []" by (simp add: groupedProperties_Nil)
  have "subProperties opts [] ps = Inr (groupedProperties (zip ps vs))"
    using foldl_groups [of "[]" "zip ps vs"]
    by (simp add: subProperties_fold assms(3) objectLast_def)
  then show ?thesis
    using assms(1,4) by (simp add: emitSubComponent_groups [OF ne])
qed

text \<open>
  An element with no property at all has no first group to take the children:
  \<open>emitSubComponent\<close> throws.
\<close>

lemma compileHtmlElement_no_property:
  "rxUpperStart tag \<Longrightarrow> subChildren opts cs = Inr children \<Longrightarrow>
   compileHtmlElement opts (HtmlElement tag [] cs l) ind =
     Inl (TypeError ''Cannot set property 'children' of undefined'')"
  by (simp add: emitSubComponent_def)

text \<open>
  C2 as stated: for the input \<open>let x = <Foo a="1" {...m} b={y}/>;\<close> in the jsx dialect the
  output contains \<open>Surplus.subcomponent(Foo, [{ a: '1', children: [] }, m, { b: y }])\<close>. It
  does not: the value of \<open>a\<close> keeps the quotes of the source, and each object is written
  over several lines.
\<close>

theorem C2_subcomponent_output_differs:
  "\<not> outputContains ''Surplus.subcomponent(Foo, [{ a: '1', children: [] }, m, { b: y }])''
       (preprocess ''let x = <Foo a=\"1\" {...m} b={y}/>;'' defaultOptions)"
  by (simp add: preprocess_Foo outputContains_def CRLF_def)

text \<open>
  C2, amended: for every element whose tag starts with an uppercase letter and that has at
  least one property, when the values of the properties and the children compile, the code
  generator groups consecutive non-Mixin properties into one object each, leaves each Mixin
  alone, assigns the children array to the first group (a fresh first group when the first is
  a Mixin), and emits \<open>Name(object)\<close> for exactly one group that is no Mixin, otherwise
  \<open>Surplus.subcomponent(Name, [group, group, ...])\<close>, each object written with one property
  a line. For the input \<open>let x = <Foo a="1" {...m} b={y}/>;\<close> in the jsx dialect the
  output is the call of \<open>Surplus.subcomponent\<close> with \<open>Foo\<close> and the three groups
  \<open>a: "1", children: []\<close>, \<open>m\<close> and \<open>b: y\<close>.
\<close>

theorem C2_subcomponent_groups:
  "(rxUpperStart tag \<and> ps \<noteq> [] \<and> propertyValues opts ps = Inr vs
      \<and> subChildren opts cs = Inr children \<longrightarrow>
    compileHtmlElement opts (HtmlElement tag ps cs l) ind =
      Inr (markLoc (subComponentCall tag (groupedProperties (zip ps vs))
                      (childrenArray ind children) ind) l opts))
   \<and> preprocess ''let x = <Foo a=\"1\" {...m} b={y}/>;'' defaultOptions =
       Some (Inr (Code (join CRLF
         [''let x = Surplus.subcomponent(Foo, [{'',
          ''    a: \"1\",'',
          ''    children: []'',
          ''}, m, {'',
          ''    b: y'',
          ''}]);''])))"
  using compileHtmlElement_subComponent [of tag ps opts vs cs children l ind] preprocess_Foo
  by blast

theorem C2_subcomponent_groups_witness:
  "rxUpperStart ''Foo''
   \<and> propertyValues jsxParams
         [StaticProperty ''a'' ''\"1\"'', Mixin [CodeText ''m'' (at 0 23 19)] (at 0 19 19),
          DynamicProperty ''b'' [CodeText ''y'' (at 0 29 28)] (at 0 26 26)] =
       Inr [''\"1\"'', ''m'', ''y'']
   \<and> subChildren jsxParams [] = Inr []
   \<and> groupedProperties
         (zip [StaticProperty ''a'' ''\"1\"'', Mixin [CodeText ''m'' (at 0 23 19)] (at 0 19 19),
               DynamicProperty ''b'' [CodeText ''y'' (at 0 29 28)] (at 0 26 26)]
              [''\"1\"'', ''m'', ''y'']) =
       [ObjectGroup [(''a'', ''\"1\"'')], MixinGroup ''m'', ObjectGroup [(''b'', ''y'')]]
   \<and> compileHtmlElement jsxParams
         (HtmlElement ''Foo''
            [StaticProperty ''a'' ''\"1\"'', Mixin [CodeText ''m'' (at 0 23 19)] (at 0 19 19),
             DynamicProperty ''b'' [CodeText ''y'' (at 0 29 28)] (at 0 26 26)]
            [] (at 0 8 8)) [] =
       Inr (join CRLF
         [''Surplus.subcomponent(Foo, [{'',
          ''    a: \"1\",'',
          ''    children: []'',
          ''}, m, {'',
          ''    b: y'',
          ''}])''])"
proof -
  let ?ps = "[StaticProperty ''a'' ''\"1\"'', Mixin [CodeText ''m'' (at 0 23 19)] (at 0 19 19),
              DynamicProperty ''b'' [CodeText ''y'' (at 0 29 28)] (at 0 26 26)]"
  have a: "rxUpperStart ''Foo''" by (simp add: rxUpperStart_def isUpper_def)
  have b: "propertyValues jsxParams ?ps = Inr [''\"1\"'', ''m'', ''y'']" by code_simp
  have c: "subChildren jsxParams [] = Inr []" by simp
  have d: "groupedProperties (zip ?ps [''\"1\"'', ''m'', ''y'']) =
             [ObjectGroup [(''a'', ''\"1\"'')], MixinGroup ''m'', ObjectGroup [(''b'', ''y'')]]"
    by code_simp
  have e: "markLoc (subComponentCall ''Foo''
              [ObjectGroup [(''a'', ''\"1\"'')], MixinGroup ''m'', ObjectGroup [(''b'', ''y'')]]
              (childrenArray [] []) []) (at 0 8 8) jsxParams =
           join CRLF
             [''Surplus.subcomponent(Foo, [{'',
              ''    a: \"1\",'',
              ''    children: []'',
              ''}, m, {'',
              ''    b: y'',
              ''}])'']"
    by code_simp
  show ?thesis
    using C2_subcomponent_groups [where tag = "''Foo''" and ps = ?ps and opts = jsxParams
        and vs = "[''\"1\"'', ''m'', ''y'']" and cs = "[]" and children = "[]"
        and l = "at 0 8 8" and ind = "[]"] a b c d e
    by simp
qed

subsection \<open>C6: input without elements\<close>

text \<open>The tokens of a string are its pieces: every position has a match.\<close>

lemma firstSome_simps:
  "firstSome [] = None"
  "firstSome (x # xs) = (if x \<noteq> None then x else firstSome xs)"
  by (simp_all add: firstSome_def)

lemma firstSome_None: "(firstSome xs = None) = (\<forall>x\<in>set xs. x = None)"
  by (induction xs) (auto simp: firstSome_simps)

lemma firstSome_Some: "firstSome xs = Some k \<Longrightarrow> Some k \<in> set xs"
  by (induction xs) (auto simp: firstSome_simps split: if_splits)

lemma lit_pos: "lit (c # p) s = Some k \<longrightarrow> 0 < k"
  by (auto simp: lit_def split: if_splits)

lemma tagOpen_pos: "tagOpen s = Some k \<longrightarrow> 0 < k"
  by (cases s) (auto simp: tagOpen_def split: if_splits)

lemma matchToken_pos:
  assumes "matchToken s = Some k"
  shows "0 < k"
proof -
  have "list_all (\<lambda>x. \<forall>k. x = Some k \<longrightarrow> 0 < k)
       [tagOpen s, lit ''/>'' s, lit ''>'' s, lit ''<!--'' s, lit ''-->'' s, lit ''@'' s,
        lit ''='' s, lit ''{...'' s, lit '')'' s, lit ''('' s, lit ''['' s, lit '']'' s,
        lit ''{'' s, lit ''}'' s, lit ''\"'' s, lit [CHR 0x27] s, lit ''//'' s,
        lit [CHR 0x0A] s, lit ''/*'' s, lit ''*/'' s,
        (let k = miscRun (length s) s in if k = 0 then None else Some k)]"
    by (simp add: lit_pos tagOpen_pos Let_def)
  moreover from assms have "Some k \<in> set
       [tagOpen s, lit ''/>'' s, lit ''>'' s, lit ''<!--'' s, lit ''-->'' s, lit ''@'' s,
        lit ''='' s, lit ''{...'' s, lit '')'' s, lit ''('' s, lit ''['' s, lit '']'' s,
        lit ''{'' s, lit ''}'' s, lit ''\"'' s, lit [CHR 0x27] s, lit ''//'' s,
        lit [CHR 0x0A] s, lit ''/*'' s, lit ''*/'' s,
        (let k = miscRun (length s) s in if k = 0 then None else Some k)]"
    unfolding matchToken_def by (rule firstSome_Some)
  ultimately show ?thesis unfolding list_all_iff by blast
qed

lemma miscRun_pos: "0 < miscStep s \<Longrightarrow> 0 < n \<Longrightarrow> 0 < miscRun n s"
  by (cases n) (simp_all add: Let_def)

lemma matchToken_Some: "s \<noteq> [] \<Longrightarrow> matchToken s \<noteq> None"
proof
  assume ne: "s \<noteq> []" and none: "matchToken s = None"
  then obtain c r where s: "s = c # r" by (cases s) auto
  from none have all: "\<forall>x\<in>set
       [tagOpen s, lit ''/>'' s, lit ''>'' s, lit ''<!--'' s, lit ''-->'' s, lit ''@'' s,
        lit ''='' s, lit ''{...'' s, lit '')'' s, lit ''('' s, lit ''['' s, lit '']'' s,
        lit ''{'' s, lit ''}'' s, lit ''\"'' s, lit [CHR 0x27] s, lit ''//'' s,
        lit [CHR 0x0A] s, lit ''/*'' s, lit ''*/'' s,
        (let k = miscRun (length s) s in if k = 0 then None else Some k)]. x = None"
    unfolding matchToken_def firstSome_None .
  then have run: "miscRun (length s) s = 0" by (simp add: Let_def split: if_splits)
  have "0 < miscStep s"
    using all unfolding s
    by (cases r) (auto simp: lit_def miscStep_def split: if_splits)
  with run ne show False using miscRun_pos [of s "length s"] by simp
qed

lemma concat_tokenizeFrom: "length s \<le> n \<Longrightarrow> concat (tokenizeFrom n s) = s"
proof (induction n arbitrary: s)
  case 0
  then show ?case by simp
next
  case (Suc n)
  show ?case
  proof (cases "s = []")
    case True
    then show ?thesis by simp
  next
    case False
    then obtain k where k: "matchToken s = Some k" using matchToken_Some by auto
    then have "0 < k" by (rule matchToken_pos)
    with Suc.prems False have "length (drop k s) \<le> n" by (cases s) auto
    then have "concat (tokenizeFrom n (drop k s)) = drop k s" by (rule Suc.IH)
    with k False show ?thesis by simp
  qed
qed

lemma concat_tokenize: "concat (tokenize str) = str"
  by (simp add: tokenize_def concat_tokenizeFrom)

text \<open>
  \<open>opensElement InCode ts\<close> reads the words of the specification on the tokens: a token
  \<open><\<close> outside quoted strings and comments. \<open>step\<close> follows a token from one \<open>mode\<close> to
  the next; a string ends at its quote unless a backslash escapes it, a \<open>//\<close> comment at the
  line feed, a \<open>/*\<close> comment at \<open>*/\<close>.
\<close>

datatype mode = InCode | InString string string | InLineComment | InBlockComment
  \<comment> \<open>where a token stands: in code, in a quoted string (its quote, its text so far), in a
      comment that ends with the line, in a comment that ends with \<open>*/\<close>\<close>

fun step :: "mode \<Rightarrow> string \<Rightarrow> mode" where
  "step InCode t =
     (if t = [CHR 0x22] \<or> t = [CHR 0x27] then InString t t
      else if t = ''//'' then InLineComment
      else if t = ''/*'' then InBlockComment
      else InCode)"
| "step (InString quote text) t =
     (if t = quote \<and> \<not> rxStringEscapedEnd text then InCode else InString quote (text @ t))"
| "step InLineComment t = (if t = [CHR 0x0A] then InCode else InLineComment)"
| "step InBlockComment t = (if t = ''*/'' then InCode else InBlockComment)"

fun opensElement :: "mode \<Rightarrow> string list \<Rightarrow> bool" where
  \<comment> \<open>some token \<open><\<close> stands in code\<close>
  "opensElement m [] = False"
| "opensElement m (t # ts) = ((m = InCode \<and> t = ''<'') \<or> opensElement (step m t) ts)"

definition closed :: "mode \<Rightarrow> bool" where
  \<comment> \<open>the input may end here: no string and no \<open>/*\<close> comment is open\<close>
  "closed m = (m = InCode \<or> m = InLineComment)"

definition plain :: "mode \<Rightarrow> string list \<Rightarrow> bool" where
  "plain m ts = (\<not> opensElement m ts \<and> closed (foldl step m ts))"

lemma toks_NEXT [simp]: "toks (NEXT s) = tl (toks s)"
  by (simp add: NEXT_def Let_def)

lemma quotedStringLoop_plain:
  "toks s = ts \<Longrightarrow> plain (InString q acc) ts \<Longrightarrow>
   \<exists>pre post s1. ts = pre @ q # post \<and> quotedStringLoop q acc s = (acc @ concat pre, s1)
      \<and> toks s1 = q # post \<and> plain InCode post"
proof (induction ts arbitrary: acc s)
  case Nil
  then show ?case by (simp add: plain_def closed_def)
next
  case (Cons t r)
  show ?case
  proof (cases "t = q \<and> \<not> rxStringEscapedEnd acc")
    case True
    with Cons.prems have "quotedStringLoop q acc s = (acc, s)" "plain InCode r"
      by (simp_all add: quotedStringLoop.simps [of q acc s] EOF_def NOT_def TOK_def plain_def)
    with Cons.prems True show ?thesis by (intro exI [of _ "[]"] exI [of _ r] exI [of _ s]) simp
  next
    case False
    with Cons.prems have loop: "quotedStringLoop q acc s = quotedStringLoop q (acc @ t) (NEXT s)"
      and pl: "plain (InString q (acc @ t)) r"
      by (auto simp: quotedStringLoop.simps [of q acc s] EOF_def NOT_def TOK_def plain_def)
    from Cons.prems have "toks (NEXT s) = r" by simp
    from Cons.IH [OF this pl] obtain pre post s1 where
      "r = pre @ q # post" "quotedStringLoop q (acc @ t) (NEXT s) = ((acc @ t) @ concat pre, s1)"
      "toks s1 = q # post" "plain InCode post" by blast
    with loop show ?thesis
      by (intro exI [of _ "t # pre"] exI [of _ post] exI [of _ s1]) simp
  qed
qed

lemma codeMultiLineCommentLoop_plain:
  "toks s = ts \<Longrightarrow> plain InBlockComment ts \<Longrightarrow>
   \<exists>pre post s1. ts = pre @ ''*/'' # post
      \<and> codeMultiLineCommentLoop acc s = (acc @ concat pre, s1)
      \<and> toks s1 = ''*/'' # post \<and> plain InCode post"
proof (induction ts arbitrary: acc s)
  case Nil
  then show ?case by (simp add: plain_def closed_def)
next
  case (Cons t r)
  show ?case
  proof (cases "t = ''*/''")
    case True
    with Cons.prems have "codeMultiLineCommentLoop acc s = (acc, s)" "plain InCode r"
      by (simp_all add: codeMultiLineCommentLoop.simps [of acc s] EOF_def NOT_def TOK_def plain_def)
    with Cons.prems True show ?thesis by (intro exI [of _ "[]"] exI [of _ r] exI [of _ s]) simp
  next
    case False
    with Cons.prems have loop:
      "codeMultiLineCommentLoop acc s = codeMultiLineCommentLoop (acc @ t) (NEXT s)"
      and pl: "plain InBlockComment r"
      by (auto simp: codeMultiLineCommentLoop.simps [of acc s] EOF_def NOT_def TOK_def plain_def)
    from Cons.prems have "toks (NEXT s) = r" by simp
    from Cons.IH [OF this pl] obtain pre post s1 where
      "r = pre @ ''*/'' # post"
      "codeMultiLineCommentLoop (acc @ t) (NEXT s) = ((acc @ t) @ concat pre, s1)"
      "toks s1 = ''*/'' # post" "plain InCode post" by blast
    with loop show ?thesis
      by (intro exI [of _ "t # pre"] exI [of _ post] exI [of _ s1]) simp
  qed
qed

lemma codeSingleLineCommentLoop_plain:
  "toks s = ts \<Longrightarrow> plain InLineComment ts \<Longrightarrow>
   (\<exists>s1. codeSingleLineCommentLoop acc s = (acc @ concat ts, s1) \<and> toks s1 = [])
   \<or> (\<exists>pre post s1. ts = pre @ [CHR 0x0A] # post
        \<and> codeSingleLineCommentLoop acc s = (acc @ concat pre, s1)
        \<and> toks s1 = [CHR 0x0A] # post \<and> plain InCode post)"
proof (induction ts arbitrary: acc s)
  case Nil
  then show ?case by (simp add: codeSingleLineCommentLoop.simps [of acc s] EOF_def)
next
  case (Cons t r)
  show ?case
  proof (cases "t = [CHR 0x0A]")
    case True
    with Cons.prems have "codeSingleLineCommentLoop acc s = (acc, s)" "plain InCode r"
      by (simp_all add: codeSingleLineCommentLoop.simps [of acc s] EOF_def NOT_def TOK_def
          plain_def)
    with Cons.prems True show ?thesis
      by (intro disjI2 exI [of _ "[]"] exI [of _ r] exI [of _ s]) simp
  next
    case False
    with Cons.prems have loop:
      "codeSingleLineCommentLoop acc s = codeSingleLineCommentLoop (acc @ t) (NEXT s)"
      and pl: "plain InLineComment r"
      by (auto simp: codeSingleLineCommentLoop.simps [of acc s] EOF_def NOT_def TOK_def plain_def)
    from Cons.prems have "toks (NEXT s) = r" by simp
    from Cons.IH [OF this pl, of "acc @ t"] show ?thesis
    proof
      assume "\<exists>s1. codeSingleLineCommentLoop (acc @ t) (NEXT s) = ((acc @ t) @ concat r, s1)
                \<and> toks s1 = []"
      with loop show ?thesis by auto
    next
      assume "\<exists>pre post s1. r = pre @ [CHR 0x0A] # post
        \<and> codeSingleLineCommentLoop (acc @ t) (NEXT s) = ((acc @ t) @ concat pre, s1)
        \<and> toks s1 = [CHR 0x0A] # post \<and> plain InCode post"
      then obtain pre post s1 where
        "r = pre @ [CHR 0x0A] # post"
        "codeSingleLineCommentLoop (acc @ t) (NEXT s) = ((acc @ t) @ concat pre, s1)"
        "toks s1 = [CHR 0x0A] # post" "plain InCode post" by blast
      with loop show ?thesis
        by (intro disjI2 exI [of _ "t # pre"] exI [of _ post] exI [of _ s1]) simp
    qed
  qed
qed

text \<open>A production that takes some tokens and returns their text.\<close>

definition takes :: "string outcome \<Rightarrow> string list \<Rightarrow> bool" where
  "takes r ts =
     (\<exists>used post s1. ts = used @ post \<and> used \<noteq> [] \<and> r = Done (concat used) s1
        \<and> toks s1 = post \<and> plain InCode post)"

lemma quotedString_plain:
  assumes "toks s = q # r" and "q = [CHR 0x22] \<or> q = [CHR 0x27]" and "plain InCode (q # r)"
  shows "takes (quotedString s) (q # r)"
proof -
  from assms have pl: "plain (InString q q) r" by (auto simp: plain_def)
  from assms(1) have "toks (NEXT s) = r" by simp
  from quotedStringLoop_plain [OF this pl] obtain pre post s1 where
    *: "r = pre @ q # post" "quotedStringLoop q q (NEXT s) = (q @ concat pre, s1)"
    "toks s1 = q # post" "plain InCode post" by blast
  then have "quotedString s = Done (concat ((q # pre) @ [q])) (NEXT s1)"
    using assms(1,2) by (auto simp: quotedString_def NOT_def TOK_def EOF_def Let_def)
  with * show ?thesis
    unfolding takes_def
    by (intro exI [of _ "(q # pre) @ [q]"] exI [of _ post] exI [of _ "NEXT s1"]) simp
qed

lemma codeMultiLineComment_plain:
  assumes "toks s = ''/*'' # r" and "plain InCode (''/*'' # r)"
  shows "takes (codeMultiLineComment s) (''/*'' # r)"
proof -
  from assms have pl: "plain InBlockComment (''/*'' # r)" by (auto simp: plain_def)
  from codeMultiLineCommentLoop_plain [OF assms(1) pl, of "[]"] obtain pre post s1 where
    *: "''/*'' # r = pre @ ''*/'' # post" "codeMultiLineCommentLoop [] s = (concat pre, s1)"
    "toks s1 = ''*/'' # post" "plain InCode post" by auto
  have a: "NOT ''/*'' s = False" using assms(1) by (simp add: NOT_def TOK_def)
  have b: "EOF s1 = False" "TOK s1 = ''*/''" using *(3) by (simp_all add: EOF_def TOK_def)
  have "codeMultiLineComment s = Done (concat (pre @ [''*/''])) (NEXT s1)"
    by (simp add: codeMultiLineComment_def a b *(2) Let_def)
  with * show ?thesis
    unfolding takes_def
    by (intro exI [of _ "pre @ [''*/'']"] exI [of _ post] exI [of _ "NEXT s1"]) simp
qed

lemma plain_Nil [simp]: "plain InCode []"
  by (simp add: plain_def closed_def)

lemma codeSingleLineComment_plain:
  assumes "toks s = ''//'' # r" and "plain InCode (''//'' # r)"
  shows "takes (codeSingleLineComment s) (''//'' # r)"
proof -
  from assms have pl: "plain InLineComment (''//'' # r)" by (auto simp: plain_def)
  from codeSingleLineCommentLoop_plain [OF assms(1) pl, of "[]"] show ?thesis
  proof
    assume "\<exists>s1. codeSingleLineCommentLoop [] s = ([] @ concat (''//'' # r), s1) \<and> toks s1 = []"
    then obtain s1 where "codeSingleLineCommentLoop [] s = (concat (''//'' # r), s1)"
      "toks s1 = []" by auto
    with assms(1) show ?thesis
      unfolding takes_def
      by (intro exI [of _ "''//'' # r"] exI [of _ "[]"] exI [of _ s1])
         (simp add: codeSingleLineComment_def NOT_def TOK_def EOF_def)
  next
    assume "\<exists>pre post s1. ''//'' # r = pre @ [CHR 0x0A] # post
        \<and> codeSingleLineCommentLoop [] s = ([] @ concat pre, s1)
        \<and> toks s1 = [CHR 0x0A] # post \<and> plain InCode post"
    then obtain pre post s1 where
      *: "''//'' # r = pre @ [CHR 0x0A] # post" "codeSingleLineCommentLoop [] s = (concat pre, s1)"
      "toks s1 = [CHR 0x0A] # post" "plain InCode post" by auto
    have a: "NOT ''//'' s = False" using assms(1) by (simp add: NOT_def TOK_def)
    have b: "EOF s1 = False" "TOK s1 = [CHR 0x0A]" using *(3) by (simp_all add: EOF_def TOK_def)
    have "codeSingleLineComment s = Done (concat (pre @ [[CHR 0x0A]])) (NEXT s1)"
      by (simp add: codeSingleLineComment_def a b *(2) Let_def)
    with * show ?thesis
      unfolding takes_def
      by (intro exI [of _ "pre @ [[CHR 0x0A]]"] exI [of _ post] exI [of _ "NEXT s1"]) simp
  qed
qed

definition codeSegments :: "segment list \<Rightarrow> string \<Rightarrow> loc \<Rightarrow> segment list" where
  "codeSegments segs t l = (if t \<noteq> [] then segs @ [CodeText t l] else segs)"

lemma codeTopLevelLoop_plain:
  "toks s = ts \<Longrightarrow> length ts < n \<Longrightarrow> plain InCode ts \<Longrightarrow>
   \<exists>s1. codeTopLevelLoop opts n segs acc l s = Done (codeSegments segs (acc @ concat ts) l) s1"
proof (induction n arbitrary: ts acc s)
  case 0
  then show ?case by simp
next
  case (Suc n)
  show ?case
  proof (cases ts)
    case Nil
    with Suc.prems show ?thesis by (simp add: EOF_def codeSegments_def)
  next
    case (Cons t r)
    with Suc.prems have s: "toks s = t # r" and lt: "t \<noteq> ''<''" and pl: "plain InCode (t # r)"
      by (auto simp: plain_def)
    have cont: "\<exists>s1. andThen p (\<lambda>q s1. codeTopLevelLoop opts n segs (acc @ q) l s1) =
                  Done (codeSegments segs (acc @ concat ts) l) s1"
      if "takes p (t # r)" for p
    proof -
      from that obtain used post s1 where
        *: "t # r = used @ post" "used \<noteq> []" "p = Done (concat used) s1" "toks s1 = post"
        "plain InCode post" unfolding takes_def by blast
      from *(1,2) Suc.prems(2) Cons have "length post < n"
        by (cases used) (auto simp: append_eq_Cons_conv)
      from Suc.IH [OF *(4) this *(5), of "acc @ concat used"] * Cons show ?thesis
        by (simp add: andThen_def)
    qed
    consider (str) "t = [CHR 0x22] \<or> t = [CHR 0x27]" | (line) "t = ''//''" | (block) "t = ''/*''"
      | (other) "t \<noteq> [CHR 0x22]" "t \<noteq> [CHR 0x27]" "t \<noteq> ''//''" "t \<noteq> ''/*''"
      by blast
    then show ?thesis
    proof cases
      case str
      from cont [OF quotedString_plain [OF s str pl]] s lt str show ?thesis
        by (auto simp: EOF_def IS_def TOK_def)
    next
      case line
      have "takes (codeSingleLineComment s) (t # r)"
        using codeSingleLineComment_plain [of s r] s pl line by simp
      from cont [OF this] s line show ?thesis by (auto simp: EOF_def IS_def TOK_def)
    next
      case block
      have "takes (codeMultiLineComment s) (t # r)"
        using codeMultiLineComment_plain [of s r] s pl block by simp
      from cont [OF this] s block show ?thesis by (auto simp: EOF_def IS_def TOK_def)
    next
      case other
      with pl have r: "plain InCode r" by (simp add: plain_def)
      from s have nx: "toks (NEXT s) = r" by simp
      from Suc.prems(2) Cons have "length r < n" by simp
      from Suc.IH [OF nx this r, of "acc @ t"] s lt other Cons
      show ?thesis by (auto simp: EOF_def IS_def TOK_def)
    qed
  qed
qed

lemma parse_plain:
  assumes "plain InCode ts"
  shows "\<exists>s1. parse ts opts = Done (codeSegments [] (concat ts) (at 0 0 0)) s1"
proof -
  have "length ts < parseFuel ts" by (simp add: parseFuel_def)
  from codeTopLevelLoop_plain [OF _ this assms, of "\<lparr>toks = ts, LINE = 0, COL = 0, POS = 0\<rparr>"
      opts "[]" "[]" "at 0 0 0"]
  show ?thesis by (simp add: parse_def LOC_def at_def)
qed

lemma compile_codeSegments:
  "sourcemap ps = None \<Longrightarrow> compile (transform (codeSegments [] str l)) ps = Inr str"
  by (simp add: compile_def compileSegments_def transform_def codeSegments_def markBlockLocs_def)

lemma preprocess_plain:
  assumes "plain InCode (tokenize str)" and "optSourcemap opts = None"
  shows "preprocess str opts = Some (Inr (Code str))"
proof -
  from parse_plain [OF assms(1)] obtain s1 where
    "parse (tokenize str) (paramsOf opts) = Done (codeSegments [] str (at 0 0 0)) s1"
    by (auto simp: concat_tokenize)
  moreover have "sourcemap (paramsOf opts) = None" using assms(2) by (simp add: paramsOf_def)
  ultimately show ?thesis
    by (simp add: preprocess_def Let_def compile_codeSegments)
qed

lemma tokenize_unterminated:
  "tokenize ''let s = \"abc;'' = [''let s '', ''='', '' '', [CHR 0x22], ''abc;'']"
  by code_simp

lemma parse_unterminated:
  "parse [''let s '', ''='', '' '', [CHR 0x22], ''abc;''] jsxParams =
     Fail ''unterminated string'' (at 0 8 8)"
  by (simp add: parser_eval split del: if_split
        cong: andThen_cong_weak prod.case_cong_weak let_weak_cong)


text \<open>
  C6 as stated: when no token \<open><\<close> stands outside quoted strings and comments,
  \<open>preprocess\<close> with no source map returns the input. It does not for a string that is not
  closed: \<open>quotedString\<close> reports the error \<open>unterminated string\<close>.
\<close>

theorem C6_unterminated_string:
  "\<not> opensElement InCode (tokenize ''let s = \"abc;'')
   \<and> optSourcemap defaultOptions = None
   \<and> preprocess ''let s = \"abc;'' defaultOptions =
       Some (Inl (ParseError ''unterminated string'' (at 0 8 8)))"
proof -
  have "\<not> opensElement InCode [''let s '', ''='', '' '', [CHR 0x22], ''abc;'']" by code_simp
  moreover have "optSourcemap defaultOptions = None" by (simp add: defaultOptions_def)
  moreover have "preprocess ''let s = \"abc;'' defaultOptions =
       Some (Inl (ParseError ''unterminated string'' (at 0 8 8)))"
    by (simp add: preprocess_def paramsOf_defaultOptions tokenize_unterminated parse_unterminated)
  ultimately show ?thesis by (simp add: tokenize_unterminated)
qed


text \<open>
  C6, amended: when no token \<open><\<close> stands outside quoted strings and comments, and every
  quoted string and every \<open>/*\<close> comment of the input is closed, \<open>preprocess\<close> with no source
  map returns the input unchanged.
\<close>

theorem C6_round_trip:
  "\<not> opensElement InCode (tokenize str) \<Longrightarrow> closed (foldl step InCode (tokenize str)) \<Longrightarrow>
   optSourcemap opts = None \<Longrightarrow> preprocess str opts = Some (Inr (Code str))"
  by (rule preprocess_plain) (simp_all add: plain_def)


lemma tokenize_plain:
  "tokenize ''let s = \"a <b\"; /* <d */ x = a < b; // <c'' =
     [''let s '', ''='', '' '', [CHR 0x22], ''a '', ''<'', ''b'', [CHR 0x22], ''; '', ''/*'', '' '',
      ''<'', ''d '', ''*/'', '' x '', ''='', '' a < b; '', ''//'', '' '', ''<'', ''c'']"
  by code_simp

theorem C6_round_trip_witness:
  "\<not> opensElement InCode
       (tokenize ''let s = \"a <b\"; /* <d */ x = a < b; // <c'')
   \<and> closed (foldl step InCode
       (tokenize ''let s = \"a <b\"; /* <d */ x = a < b; // <c''))
   \<and> optSourcemap defaultOptions = None
   \<and> preprocess ''let s = \"a <b\"; /* <d */ x = a < b; // <c'' defaultOptions
       = Some (Inr (Code ''let s = \"a <b\"; /* <d */ x = a < b; // <c''))"
proof -
  let ?ts = "[''let s '', ''='', '' '', [CHR 0x22], ''a '', ''<'', ''b'', [CHR 0x22], ''; '', ''/*'', '' '',
      ''<'', ''d '', ''*/'', '' x '', ''='', '' a < b; '', ''//'', '' '', ''<'', ''c'']"
  have "\<not> opensElement InCode ?ts" by code_simp
  then have a: "\<not> opensElement InCode
       (tokenize ''let s = \"a <b\"; /* <d */ x = a < b; // <c'')"
    by (simp add: tokenize_plain)
  have "closed (foldl step InCode ?ts)" by code_simp
  then have b: "closed (foldl step InCode
       (tokenize ''let s = \"a <b\"; /* <d */ x = a < b; // <c''))"
    by (simp add: tokenize_plain)
  have c: "optSourcemap defaultOptions = None" by (simp add: defaultOptions_def)
  show ?thesis
    using C6_round_trip [OF a b c] a b c by simp
qed

subsection \<open>C8: location marks and the segments of the source map\<close>

text \<open>
  The string that \<open>extractMappings\<close> receives is written by the code generator: characters
  of code, and marks written by \<open>locationMark\<close>. \<open>render\<close> is that string for a list of
  such pieces, \<open>replaced\<close> the same with the comment \<open>/*line,col*/\<close> in the place of each
  mark. \<open>layout\<close> gives the lines of the latter and, for each line, the locations marked
  on it with the columns at which their comments start; \<open>encodeLines\<close> writes the segments
  for these columns and locations.
\<close>

datatype piece = Chr char | Mark loc
  \<comment> \<open>what the code generator writes: a character of code, or the mark of a location\<close>

definition isMark :: "piece \<Rightarrow> bool" where
  "isMark p = (case p of Mark l \<Rightarrow> True | Chr c \<Rightarrow> False)"

definition render :: "piece list \<Rightarrow> string" where
  \<comment> \<open>the generated string\<close>
  "render ps = concat (map (\<lambda>p. case p of Chr c \<Rightarrow> [c] | Mark l \<Rightarrow> locationMark l) ps)"

definition comment :: "loc \<Rightarrow> string" where
  "comment l = ''/*'' @ showNat (line l) @ '','' @ showNat (col l) @ ''*/''"

definition replaced :: "piece list \<Rightarrow> string" where
  \<comment> \<open>the generated string with a comment in the place of each mark\<close>
  "replaced ps = concat (map (\<lambda>p. case p of Chr c \<Rightarrow> [c] | Mark l \<Rightarrow> comment l) ps)"

definition noNul :: "piece list \<Rightarrow> bool" where
  "noNul ps = list_all (\<lambda>p. p \<noteq> Chr (CHR 0x00)) ps"

lemma digitChar_props:
  "list_all (\<lambda>d. isDigit (digitChar d) \<and> (of_char (digitChar d) :: nat) = 48 + d) [0..<10]"
  by code_simp

lemma digitChar_digit: "d < 10 \<Longrightarrow> isDigit (digitChar d)"
  using digitChar_props by (simp add: list_all_iff)

lemma digitChar_value: "d < 10 \<Longrightarrow> (of_char (digitChar d) :: nat) = 48 + d"
  using digitChar_props by (simp add: list_all_iff)

lemma showNat_digits: "list_all isDigit (showNat n)"
  by (induction n rule: showNat.induct) (subst showNat.simps, simp add: digitChar_digit)

lemma showNat_ne: "showNat n \<noteq> []"
  by (subst showNat.simps) simp

lemma parseInt_snoc: "parseInt (ds @ [c]) = 10 * parseInt ds + (of_char c - 48)"
  by (simp add: parseInt_def)

lemma parseInt_showNat: "parseInt (showNat n) = n"
proof (induction n rule: showNat.induct)
  case (1 n)
  show ?case
  proof (cases "n < 10")
    case True
    then show ?thesis
      by (subst showNat.simps) (simp add: parseInt_def digitChar_value)
  next
    case False
    then have "parseInt (showNat (n div 10)) = n div 10" by (rule "1.IH")
    with False show ?thesis
      by (subst showNat.simps) (simp add: parseInt_snoc digitChar_value)
  qed
qed

lemma takeWhile_digits:
  "list_all isDigit ds \<Longrightarrow> \<not> isDigit c \<Longrightarrow> takeWhile isDigit (ds @ c # r) = ds"
  by (induction ds) auto

lemma dropWhile_digits:
  "list_all isDigit ds \<Longrightarrow> \<not> isDigit c \<Longrightarrow> dropWhile isDigit (ds @ c # r) = c # r"
  by (induction ds) auto

lemma matchMark_locationMark:
  "matchMark (locationMark l @ r) =
     Some (showNat (line l), showNat (col l), length (locationMark l))"
proof -
  have c: "\<not> isDigit (CHR '','')" "\<not> isDigit (CHR 0x00)" by (simp_all add: isDigit_def)
  have "locationMark l @ r =
        CHR 0x00 # (showNat (line l) @ CHR '','' # (showNat (col l) @ CHR 0x00 # r))"
    by (simp add: locationMark_def)
  then show ?thesis
    by (simp add: matchMark_def Let_def takeWhile_digits dropWhile_digits showNat_digits
        showNat_ne c locationMark_def)
qed

lemma matchMark_other: "c \<noteq> CHR 0x00 \<Longrightarrow> matchMark (c # r) = None"
  by (simp add: matchMark_def Let_def)

fun runPieces :: "nat \<Rightarrow> piece list \<Rightarrow> mapper \<Rightarrow> mapper" where
  "runPieces offset [] m = m"
| "runPieces offset (Chr c # ps) m =
     (if c = CHR 0x0A then runPieces (Suc offset) ps (onNewline offset m)
      else runPieces (Suc offset) ps (m\<lparr>src := src m @ [c]\<rparr>))"
| "runPieces offset (Mark l # ps) m =
     runPieces (offset + length (locationMark l)) ps
       (onMark offset (showNat (line l)) (showNat (col l)) m)"

lemma scanLocs_mark:
  "scanLocs offset (locationMark l @ r) m =
     scanLocs (offset + length (locationMark l)) r
       (onMark offset (showNat (line l)) (showNat (col l)) m)"
proof -
  obtain xs where x: "locationMark l @ r = CHR 0x00 # xs" by (simp add: locationMark_def)
  have "scanLocs offset (CHR 0x00 # xs) m =
          scanLocs (offset + length (locationMark l)) (drop (length (locationMark l)) (CHR 0x00 # xs))
            (onMark offset (showNat (line l)) (showNat (col l)) m)"
    using matchMark_locationMark [of l r] unfolding x
    by (subst scanLocs.simps) simp
  then show ?thesis by (simp flip: x)
qed

lemma scanLocs_render: "noNul ps \<Longrightarrow> scanLocs offset (render ps) m = runPieces offset ps m"
proof (induction ps arbitrary: offset m)
  case Nil
  show ?case by (simp add: render_def scanLocs.simps)
next
  case (Cons p ps)
  then have IH: "\<And>offset m. scanLocs offset (render ps) m = runPieces offset ps m"
    by (simp add: noNul_def)
  show ?case
  proof (cases p)
    case (Chr c)
    with Cons.prems have "c \<noteq> CHR 0x00" by (auto simp: noNul_def)
    then have "matchMark (c # render ps) = None" by (rule matchMark_other)
    with Chr show ?thesis
      by (subst scanLocs.simps) (simp add: render_def IH [unfolded render_def])
  next
    case (Mark l)
    have "render (p # ps) = locationMark l @ render ps" by (simp add: render_def Mark)
    then show ?thesis by (simp add: scanLocs_mark IH Mark)
  qed
qed


fun layout :: "string \<Rightarrow> (nat \<times> loc) list \<Rightarrow> piece list \<Rightarrow> (string \<times> (nat \<times> loc) list) list" where
  \<comment> \<open>the lines of the output, each with the locations marked on it and the columns at
      which their comments start; \<open>ln\<close> and \<open>cur\<close> are those of the line being written\<close>
  "layout ln cur [] = [(ln, cur)]"
| "layout ln cur (Chr c # ps) =
     (if c = CHR 0x0A then (ln, cur) # layout [] [] ps else layout (ln @ [c]) cur ps)"
| "layout ln cur (Mark l # ps) = layout (ln @ comment l) (cur @ [(length ln, l)]) ps"

fun encodeLine :: "int \<Rightarrow> int \<Rightarrow> int \<Rightarrow> (nat \<times> loc) list \<Rightarrow> string list" where
  \<comment> \<open>the segments of a line: each column and location relative to the one before\<close>
  "encodeLine g sl sc [] = []"
| "encodeLine g sl sc ((c, l) # ms) =
     (vlq (int c - g) @ ''A'' @ vlq (int (line l) - sl) @ vlq (int (col l) - sc))
     # encodeLine (int c) (int (line l)) (int (col l)) ms"

definition lastGenerated :: "int \<Rightarrow> (nat \<times> loc) list \<Rightarrow> int" where
  "lastGenerated g ms = (if ms = [] then g else int (fst (last ms)))"

definition lastSource :: "int \<times> int \<Rightarrow> (nat \<times> loc) list \<Rightarrow> int \<times> int" where
  "lastSource st ms =
     (if ms = [] then st else (int (line (snd (last ms))), int (col (snd (last ms)))))"

fun encodeLines :: "int \<times> int \<Rightarrow> (nat \<times> loc) list list \<Rightarrow> string list list" where
  \<comment> \<open>the columns start again at 0 on each line, the source locations go on\<close>
  "encodeLines st [] = []"
| "encodeLines st (ms # mss) =
     encodeLine 0 (fst st) (snd st) ms # encodeLines (lastSource st ms) mss"

definition extractLines :: "string \<Rightarrow> string list list" where
  \<comment> \<open>\<open>lines\<close> of \<open>extractMappings\<close> after the last \<open>push\<close>\<close>
  "extractLines embedded =
     (let m = scanLocs 0 embedded
                \<lparr>curLine = [], lines = [], lastGeneratedCol = 0, lastSourceLine = 0,
                 lastSourceCol = 0, lineStartPos = 0, lineMarksLength = 0, src = []\<rparr>
      in lines m @ [curLine m])"

lemma mMappings_extractLines:
  "mMappings (extractMappings embedded) = join '';'' (map (join '','') (extractLines embedded))"
  by (simp add: extractMappings_def extractLines_def Let_def)

lemma encodeLine_snoc:
  "encodeLine g sl sc (ms @ [(c, l)]) =
     encodeLine g sl sc ms
     @ [vlq (int c - lastGenerated g ms) @ ''A''
        @ vlq (int (line l) - fst (lastSource (sl, sc) ms))
        @ vlq (int (col l) - snd (lastSource (sl, sc) ms))]"
proof (induction ms arbitrary: g sl sc)
  case Nil
  show ?case by (simp add: lastGenerated_def lastSource_def)
next
  case (Cons m ms)
  obtain c' l' where m: "m = (c', l')" by (cases m)
  show ?case
    unfolding m by (simp add: Cons.IH lastGenerated_def lastSource_def)
qed

lemma length_comment: "length (comment l) = length (locationMark l) + 2"
  by (simp add: comment_def locationMark_def)

lemma runPieces_layout:
  assumes "int offset - lineStartPos m - lineMarksLength m = int (length ln)"
    and "curLine m = encodeLine 0 (fst st) (snd st) cur"
    and "lastGeneratedCol m = lastGenerated 0 cur"
    and "(lastSourceLine m, lastSourceCol m) = lastSource st cur"
  shows "src (runPieces offset ps m) = src m @ replaced ps
       \<and> lines (runPieces offset ps m) @ [curLine (runPieces offset ps m)] =
           lines m @ encodeLines st (map snd (layout ln cur ps))"
  using assms
proof (induction ps arbitrary: offset m ln cur st)
  case Nil
  then show ?case by (simp add: replaced_def)
next
  case (Cons p ps)
  show ?case
  proof (cases p)
    case (Chr c)
    show ?thesis
    proof (cases "c = CHR 0x0A")
      case True
      let ?m = "onNewline offset m"
      have "src (runPieces (Suc offset) ps ?m) = src ?m @ replaced ps
          \<and> lines (runPieces (Suc offset) ps ?m) @ [curLine (runPieces (Suc offset) ps ?m)] =
              lines ?m @ encodeLines (lastSource st cur) (map snd (layout [] [] ps))"
        using Cons.prems
        by (intro Cons.IH) (simp_all add: onNewline_def lastGenerated_def lastSource_def)
      with Cons.prems Chr True show ?thesis
        by (simp add: onNewline_def replaced_def)
    next
      case False
      let ?m = "m\<lparr>src := src m @ [c]\<rparr>"
      have "src (runPieces (Suc offset) ps ?m) = src ?m @ replaced ps
          \<and> lines (runPieces (Suc offset) ps ?m) @ [curLine (runPieces (Suc offset) ps ?m)] =
              lines ?m @ encodeLines st (map snd (layout (ln @ [c]) cur ps))"
        using Cons.prems by (intro Cons.IH) simp_all
      with Chr False show ?thesis by (simp add: replaced_def)
    qed
  next
    case (Mark l)
    let ?m = "onMark offset (showNat (line l)) (showNat (col l)) m"
    let ?o = "offset + length (locationMark l)"
    have col: "int offset - lineStartPos m - lineMarksLength m = int (length ln)"
      by (rule Cons.prems(1))
    from Cons.prems(4) have src: "lastSourceLine m = fst (lastSource st cur)"
      "lastSourceCol m = snd (lastSource st cur)"
      by (metis fst_conv, metis snd_conv)
    have "src (runPieces ?o ps ?m) = src ?m @ replaced ps
        \<and> lines (runPieces ?o ps ?m) @ [curLine (runPieces ?o ps ?m)] =
            lines ?m @ encodeLines st (map snd (layout (ln @ comment l) (cur @ [(length ln, l)]) ps))"
    proof (intro Cons.IH)
      show "int ?o - lineStartPos ?m - lineMarksLength ?m = int (length (ln @ comment l))"
        using col by (simp add: onMark_def Let_def length_comment)
      show "curLine ?m = encodeLine 0 (fst st) (snd st) (cur @ [(length ln, l)])"
        using Cons.prems(2,3) col src
        by (simp add: onMark_def Let_def encodeLine_snoc parseInt_showNat)
      show "lastGeneratedCol ?m = lastGenerated 0 (cur @ [(length ln, l)])"
        using col by (simp add: onMark_def Let_def lastGenerated_def)
      show "(lastSourceLine ?m, lastSourceCol ?m) = lastSource st (cur @ [(length ln, l)])"
        by (simp add: onMark_def Let_def lastSource_def parseInt_showNat)
    qed
    with Mark show ?thesis
      by (simp add: replaced_def onMark_def Let_def comment_def parseInt_showNat)
  qed
qed

lemma layout_ne: "layout ln cur ps \<noteq> []"
  by (induction ln cur ps rule: layout.induct) auto

lemma join_Cons: "xs \<noteq> [] \<Longrightarrow> join sep (x # xs) = x @ sep @ join sep xs"
  by (cases xs) simp_all

lemma layout_text: "join [CHR 0x0A] (map fst (layout ln cur ps)) = ln @ replaced ps"
  by (induction ln cur ps rule: layout.induct)
     (simp_all add: replaced_def join_Cons layout_ne)

lemma layout_count:
  "length (concat (map snd (layout ln cur ps))) = length cur + length (filter isMark ps)"
  by (induction ln cur ps rule: layout.induct) (simp_all add: isMark_def)

lemma length_encodeLine: "length (encodeLine g sl sc ms) = length ms"
  by (induction g sl sc ms rule: encodeLine.induct) simp_all

lemma length_encodeLines: "length (concat (encodeLines st mss)) = length (concat mss)"
  by (induction st mss rule: encodeLines.induct) (simp_all add: length_encodeLine)

definition placed :: "string \<Rightarrow> (nat \<times> loc) list \<Rightarrow> bool" where
  \<comment> \<open>the columns grow along the line, and each is where the comment of its location starts\<close>
  "placed ln ms =
     (sorted_wrt (<) (map fst ms)
      \<and> list_all (\<lambda>(c, l). take (length (comment l)) (drop c ln) = comment l) ms)"

lemma take_drop_append:
  "c + k \<le> length ln \<Longrightarrow> take k (drop c (ln @ ext)) = take k (drop c ln)"
  by simp

lemma placed_append:
  assumes "placed ln cur"
    and "list_all (\<lambda>(c, l). c + length (comment l) \<le> length ln) cur"
  shows "placed (ln @ ext) cur"
proof -
  have "take (length (comment l)) (drop c (ln @ ext)) = comment l" if "(c, l) \<in> set cur" for c l
  proof -
    from that assms(2) have "c + length (comment l) \<le> length ln" by (auto simp: list_all_iff)
    then have "take (length (comment l)) (drop c (ln @ ext)) = take (length (comment l)) (drop c ln)"
      by (rule take_drop_append)
    with that assms(1) show ?thesis by (auto simp: placed_def list_all_iff)
  qed
  with assms(1) show ?thesis by (auto simp: placed_def list_all_iff)
qed

lemma layout_placed:
  "placed ln cur \<Longrightarrow> list_all (\<lambda>(c, l). c + length (comment l) \<le> length ln) cur \<Longrightarrow>
   list_all (\<lambda>(t, ms). placed t ms) (layout ln cur ps)"
proof (induction ln cur ps rule: layout.induct)
  case (1 ln cur)
  then show ?case by simp
next
  case (2 ln cur c ps)
  have "placed (ln @ [c]) cur" using "2.prems" by (rule placed_append)
  moreover have "list_all (\<lambda>(c', l). c' + length (comment l) \<le> length (ln @ [c])) cur"
    using "2.prems"(2) by (auto simp: list_all_iff)
  moreover have "placed [] []" by (simp add: placed_def)
  ultimately show ?case using 2 by simp
next
  case (3 ln cur l ps)
  have "placed (ln @ comment l) cur" using "3.prems" by (rule placed_append)
  moreover have "\<forall>x\<in>set (map fst cur). x < length ln"
  proof
    fix x assume "x \<in> set (map fst cur)"
    then obtain l' where "(x, l') \<in> set cur" by auto
    with "3.prems"(2) have "x + length (comment l') \<le> length ln" by (auto simp: list_all_iff)
    moreover have "0 < length (comment l')" by (simp add: comment_def)
    ultimately show "x < length ln" by linarith
  qed
  ultimately have a: "placed (ln @ comment l) (cur @ [(length ln, l)])"
    by (simp add: placed_def sorted_wrt_append)
  have b: "list_all (\<lambda>(c', l'). c' + length (comment l') \<le> length (ln @ comment l))
             (cur @ [(length ln, l)])"
    using "3.prems"(2) by (auto simp: list_all_iff)
  from "3.IH" [OF a b] show ?case by simp
qed

lemma extractMappings_render:
  assumes "noNul ps"
  shows "mSrc (extractMappings (render ps)) = replaced ps"
    and "extractLines (render ps) = encodeLines (0, 0) (map snd (layout [] [] ps))"
proof -
  let ?m = "\<lparr>curLine = [], lines = [], lastGeneratedCol = 0, lastSourceLine = 0,
             lastSourceCol = 0, lineStartPos = 0, lineMarksLength = 0, src = []\<rparr>"
  have "src (runPieces 0 ps ?m) = src ?m @ replaced ps
      \<and> lines (runPieces 0 ps ?m) @ [curLine (runPieces 0 ps ?m)] =
          lines ?m @ encodeLines (0, 0) (map snd (layout [] [] ps))"
    by (rule runPieces_layout) (simp_all add: lastGenerated_def lastSource_def)
  then show "mSrc (extractMappings (render ps)) = replaced ps"
    and "extractLines (render ps) = encodeLines (0, 0) (map snd (layout [] [] ps))"
    by (simp_all add: extractMappings_def extractLines_def Let_def scanLocs_render [OF assms])
qed

text \<open>
  A source text may itself hold characters that read as a mark. Here it holds
  \<open>\u0000007,3\u0000\<close> before an element: the text is taken for a mark and replaced by
  the comment \<open>/*7,3*/\<close>, which is not two characters longer than the text it replaces.
\<close>

definition extractParams :: params where
  "extractParams =
     \<lparr>sourcemap = Some ''extract'', sourcefile = ''in.js'', targetfile = ''out.js'', jsx = True\<rparr>"

lemma paramsOf_extract:
  "paramsOf (defaultOptions\<lparr>optSourcemap := Some ''extract''\<rparr>) = extractParams"
  by (simp add: paramsOf_def defaultOptions_def extractParams_def orDefault_def)

lemma tokenize_lookalike:
  "tokenize [CHR 0x00, CHR ''0'', CHR ''0'', CHR ''7'', CHR '','', CHR ''3'', CHR 0x00,
             CHR ''<'', CHR ''d'', CHR ''i'', CHR ''v'', CHR ''>'',
             CHR ''<'', CHR ''/'', CHR ''d'', CHR ''i'', CHR ''v'', CHR ''>''] =
     [[CHR 0x00, CHR ''0'', CHR ''0'', CHR ''7'', CHR '','', CHR ''3'', CHR 0x00],
      ''<'', ''div'', ''>'', ''</'', ''div'', ''>'']"
  by code_simp

lemma parse_lookalike:
  "parse [[CHR 0x00, CHR ''0'', CHR ''0'', CHR ''7'', CHR '','', CHR ''3'', CHR 0x00],
          ''<'', ''div'', ''>'', ''</'', ''div'', ''>''] extractParams =
     Done [CodeText [CHR 0x00, CHR ''0'', CHR ''0'', CHR ''7'', CHR '','', CHR ''3'', CHR 0x00]
             (at 0 0 0),
           SegElement (HtmlElement ''div'' [] [] (at 0 7 7))]
       \<lparr>toks = [], LINE = 0, COL = 18, POS = 18\<rparr>"
  by (simp add: parser_eval extractParams_def split del: if_split
        cong: andThen_cong_weak prod.case_cong_weak let_weak_cong)

lemma extract_lookalike:
  "(case compile (transform
            [CodeText [CHR 0x00, CHR ''0'', CHR ''0'', CHR ''7'', CHR '','', CHR ''3'', CHR 0x00]
               (at 0 0 0),
             SegElement (HtmlElement ''div'' [] [] (at 0 7 7))]) extractParams of
      Inl e \<Rightarrow> None
    | Inr code \<Rightarrow>
        Some (extractMap code
                [CHR 0x00, CHR ''0'', CHR ''0'', CHR ''7'', CHR '','', CHR ''3'', CHR 0x00,
                 CHR ''<'', CHR ''d'', CHR ''i'', CHR ''v'', CHR ''>'',
                 CHR ''<'', CHR ''/'', CHR ''d'', CHR ''i'', CHR ''v'', CHR ''>'']
                extractParams)) =
   Some (''/*0,0*//*7,3*//*0,7*/Surplus.createRootElement(\"div\")'',
         \<lparr>version = 3, targetFile = ''out.js'', sources = [''in.js''],
            sourcesContent =
              [[CHR 0x00, CHR ''0'', CHR ''0'', CHR ''7'', CHR '','', CHR ''3'', CHR 0x00,
                CHR ''<'', CHR ''d'', CHR ''i'', CHR ''v'', CHR ''>'',
                CHR ''<'', CHR ''/'', CHR ''d'', CHR ''i'', CHR ''v'', CHR ''>'']],
            names = [], mappingsOf = ''AAAA,OAOG,SAPI''\<rparr>)"
  by code_simp

lemma preprocess_lookalike:
  "preprocess [CHR 0x00, CHR ''0'', CHR ''0'', CHR ''7'', CHR '','', CHR ''3'', CHR 0x00,
               CHR ''<'', CHR ''d'', CHR ''i'', CHR ''v'', CHR ''>'',
               CHR ''<'', CHR ''/'', CHR ''d'', CHR ''i'', CHR ''v'', CHR ''>'']
     (defaultOptions\<lparr>optSourcemap := Some ''extract''\<rparr>) =
   Some (Inr (CodeAndMap ''/*0,0*//*7,3*//*0,7*/Surplus.createRootElement(\"div\")''
         \<lparr>version = 3, targetFile = ''out.js'', sources = [''in.js''],
            sourcesContent =
              [[CHR 0x00, CHR ''0'', CHR ''0'', CHR ''7'', CHR '','', CHR ''3'', CHR 0x00,
                CHR ''<'', CHR ''d'', CHR ''i'', CHR ''v'', CHR ''>'',
                CHR ''<'', CHR ''/'', CHR ''d'', CHR ''i'', CHR ''v'', CHR ''>'']],
            names = [], mappingsOf = ''AAAA,OAOG,SAPI''\<rparr>))"
proof -
  from extract_lookalike obtain code where
    "compile (transform
            [CodeText [CHR 0x00, CHR ''0'', CHR ''0'', CHR ''7'', CHR '','', CHR ''3'', CHR 0x00]
               (at 0 0 0),
             SegElement (HtmlElement ''div'' [] [] (at 0 7 7))]) extractParams = Inr code"
    "extractMap code
       [CHR 0x00, CHR ''0'', CHR ''0'', CHR ''7'', CHR '','', CHR ''3'', CHR 0x00,
        CHR ''<'', CHR ''d'', CHR ''i'', CHR ''v'', CHR ''>'',
        CHR ''<'', CHR ''/'', CHR ''d'', CHR ''i'', CHR ''v'', CHR ''>'']
       extractParams =
     (''/*0,0*//*7,3*//*0,7*/Surplus.createRootElement(\"div\")'',
      \<lparr>version = 3, targetFile = ''out.js'', sources = [''in.js''],
         sourcesContent =
           [[CHR 0x00, CHR ''0'', CHR ''0'', CHR ''7'', CHR '','', CHR ''3'', CHR 0x00,
             CHR ''<'', CHR ''d'', CHR ''i'', CHR ''v'', CHR ''>'',
             CHR ''<'', CHR ''/'', CHR ''d'', CHR ''i'', CHR ''v'', CHR ''>'']],
         names = [], mappingsOf = ''AAAA,OAOG,SAPI''\<rparr>)"
    by (auto split: sum.splits)
  then show ?thesis
    by (simp add: preprocess_def paramsOf_extract tokenize_lookalike parse_lookalike)
       (simp add: extractParams_def)
qed

text \<open>
  C8 as stated: the column bookkeeping is consistent with the replacement of the marks by
  comments. It is not for the input above: the segments of the source map returned encode
  the columns 0, 7 and 16, and the comment \<open>/*0,7*/\<close> of the mark that the code generator
  wrote for the element starts at column 14 of the code returned.
\<close>

theorem C8_lookalike_mark:
  "preprocess [CHR 0x00, CHR ''0'', CHR ''0'', CHR ''7'', CHR '','', CHR ''3'', CHR 0x00,
               CHR ''<'', CHR ''d'', CHR ''i'', CHR ''v'', CHR ''>'',
               CHR ''<'', CHR ''/'', CHR ''d'', CHR ''i'', CHR ''v'', CHR ''>'']
     (defaultOptions\<lparr>optSourcemap := Some ''extract''\<rparr>) =
   Some (Inr (CodeAndMap ''/*0,0*//*7,3*//*0,7*/Surplus.createRootElement(\"div\")''
         \<lparr>version = 3, targetFile = ''out.js'', sources = [''in.js''],
            sourcesContent =
              [[CHR 0x00, CHR ''0'', CHR ''0'', CHR ''7'', CHR '','', CHR ''3'', CHR 0x00,
                CHR ''<'', CHR ''d'', CHR ''i'', CHR ''v'', CHR ''>'',
                CHR ''<'', CHR ''/'', CHR ''d'', CHR ''i'', CHR ''v'', CHR ''>'']],
            names = [], mappingsOf = ''AAAA,OAOG,SAPI''\<rparr>))
   \<and> join '','' (encodeLine 0 0 0 [(0, at 0 0 0), (7, at 7 3 0), (16, at 0 7 7)]) =
       ''AAAA,OAOG,SAPI''
   \<and> \<not> placed ''/*0,0*//*7,3*//*0,7*/Surplus.createRootElement(\"div\")''
         [(0, at 0 0 0), (7, at 7 3 0), (16, at 0 7 7)]
   \<and> placed ''/*0,0*//*7,3*//*0,7*/Surplus.createRootElement(\"div\")''
         [(0, at 0 0 0), (7, at 7 3 0), (14, at 0 7 7)]"
proof -
  have "join '','' (encodeLine 0 0 0 [(0, at 0 0 0), (7, at 7 3 0), (16, at 0 7 7)]) =
       ''AAAA,OAOG,SAPI''"
    by code_simp
  moreover have "\<not> placed ''/*0,0*//*7,3*//*0,7*/Surplus.createRootElement(\"div\")''
         [(0, at 0 0 0), (7, at 7 3 0), (16, at 0 7 7)]"
    by code_simp
  moreover have "placed ''/*0,0*//*7,3*//*0,7*/Surplus.createRootElement(\"div\")''
         [(0, at 0 0 0), (7, at 7 3 0), (14, at 0 7 7)]"
    by code_simp
  ultimately show ?thesis
    using preprocess_lookalike by (intro conjI)
qed

text \<open>
  C8, amended: for a generated string made of marks written by \<open>locationMark\<close> and of code
  that holds no character \<open>\u0000\<close>, the extraction replaces each mark by the comment
  \<open>/*line,col*/\<close> and leaves the rest as it is; the final mappings hold exactly one segment
  for each mark, on the line of the mark; the column that a segment encodes is the column at
  which the comment of its mark starts in the code returned, and along each line these
  columns are non-negative and strictly increasing.
\<close>

theorem C8_marks_and_segments:
  "noNul ps \<Longrightarrow>
   mSrc (extractMappings (render ps)) = replaced ps
   \<and> replaced ps = join [CHR 0x0A] (map fst (layout [] [] ps))
   \<and> mMappings (extractMappings (render ps)) =
       join '';'' (map (join '','') (extractLines (render ps)))
   \<and> extractLines (render ps) = encodeLines (0, 0) (map snd (layout [] [] ps))
   \<and> length (concat (extractLines (render ps))) = length (filter isMark ps)
   \<and> list_all (\<lambda>(t, ms). placed t ms) (layout [] [] ps)"
proof -
  assume a: "noNul ps"
  have "placed [] []" by (simp add: placed_def)
  then have "list_all (\<lambda>(t, ms). placed t ms) (layout [] [] ps)"
    by (rule layout_placed) simp
  moreover have "length (concat (extractLines (render ps))) = length (filter isMark ps)"
    using layout_count [of "[]" "[]" ps]
    by (simp add: extractMappings_render(2) [OF a] length_encodeLines)
  ultimately show ?thesis
    by (simp add: extractMappings_render [OF a] mMappings_extractLines layout_text)
qed

theorem C8_marks_and_segments_witness:
  "noNul [Chr CHR ''a'', Mark (at 0 8 8), Chr CHR ''b'', Chr (CHR 0x0A), Mark (at 1 0 12),
          Chr CHR ''c'', Mark (at 1 4 16)]
   \<and> mSrc (extractMappings (render
         [Chr CHR ''a'', Mark (at 0 8 8), Chr CHR ''b'', Chr (CHR 0x0A), Mark (at 1 0 12),
          Chr CHR ''c'', Mark (at 1 4 16)])) =
       ''a/*0,8*/b'' @ [CHR 0x0A] @ ''/*1,0*/c/*1,4*/''
   \<and> mMappings (extractMappings (render
         [Chr CHR ''a'', Mark (at 0 8 8), Chr CHR ''b'', Chr (CHR 0x0A), Mark (at 1 0 12),
          Chr CHR ''c'', Mark (at 1 4 16)])) =
       ''CAAQ;AACR,QAAI''
   \<and> map snd (layout [] []
         [Chr CHR ''a'', Mark (at 0 8 8), Chr CHR ''b'', Chr (CHR 0x0A), Mark (at 1 0 12),
          Chr CHR ''c'', Mark (at 1 4 16)]) =
       [[(1, at 0 8 8)], [(0, at 1 0 12), (8, at 1 4 16)]]"
proof -
  let ?ps = "[Chr CHR ''a'', Mark (at 0 8 8), Chr CHR ''b'', Chr (CHR 0x0A), Mark (at 1 0 12),
              Chr CHR ''c'', Mark (at 1 4 16)]"
  have a: "noNul ?ps" by (simp add: noNul_def)
  have b: "replaced ?ps = ''a/*0,8*/b'' @ [CHR 0x0A] @ ''/*1,0*/c/*1,4*/''" by code_simp
  have c: "map snd (layout [] [] ?ps) = [[(1, at 0 8 8)], [(0, at 1 0 12), (8, at 1 4 16)]]"
    by code_simp
  have d: "join '';'' (map (join '','')
             (encodeLines (0, 0) [[(1, at 0 8 8)], [(0, at 1 0 12), (8, at 1 4 16)]])) =
           ''CAAQ;AACR,QAAI''"
    by code_simp
  show ?thesis
    using C8_marks_and_segments [OF a] a b c d by simp
qed

end
